(* ===== verification/Prelude.thy ===== *)
theory Prelude
  imports Main "HOL-Library.Word"
begin

text \<open>
  Shared ground of the development: the machine types of the C++ sources (bytes, 32-bit
  \<^verbatim>\<open>int\<close>, 64-bit \<^verbatim>\<open>size_t\<close>), exceptions and undefined behaviour as error values,
  checked vector access, and the generic facts on lists, big-endian numbers and words that the
  component theories use.
\<close>

unbundle bit_operations_syntax

named_theorems result_simps \<open>evaluation of the error monad and of checked accesses\<close>
named_theorems codec_simps \<open>facts that evaluate encoders and decoders\<close>

section \<open>Machine types\<close>

type_synonym byte = "8 word"
type_synonym bytes = "byte list"

definition INT_MAX :: int where "INT_MAX = 2147483647"
definition INT_MIN :: int where "INT_MIN = -2147483648"

text \<open>\<open>in_int x\<close>: the mathematical value fits the 32-bit \<^verbatim>\<open>int\<close> of the target.\<close>

definition in_int :: "int \<Rightarrow> bool" where
  "in_int x \<longleftrightarrow> INT_MIN \<le> x \<and> x \<le> INT_MAX"

text \<open>The conversions \<^verbatim>\<open>(int) x\<close> and \<^verbatim>\<open>(size_t) x\<close> reduce modulo the width.\<close>

definition to_int :: "int \<Rightarrow> int" where
  "to_int x = (x + 2147483648) mod 4294967296 - 2147483648"

definition to_size_t :: "int \<Rightarrow> int" where
  "to_size_t x = x mod 18446744073709551616"

lemma to_int_id [simp]: "in_int x \<Longrightarrow> to_int x = x"
  by (simp add: to_int_def in_int_def INT_MAX_def INT_MIN_def)

lemma in_int_to_int [simp]: "in_int (to_int x)"
  unfolding to_int_def in_int_def INT_MAX_def INT_MIN_def
  using pos_mod_bound [of "4294967296" "x + 2147483648"]
    pos_mod_sign [of "4294967296" "x + 2147483648"]
  by linarith

lemma to_size_t_id [simp]: "0 \<le> x \<Longrightarrow> x < 18446744073709551616 \<Longrightarrow> to_size_t x = x"
  by (simp add: to_size_t_def)

lemma in_int_of_nat: "n \<le> 2147483647 \<Longrightarrow> in_int (int n)"
  by (simp add: in_int_def INT_MAX_def INT_MIN_def)

section \<open>Errors\<close>

text \<open>
  A throw, a failing \<^verbatim>\<open>assert\<close> (the build does not define \<^verbatim>\<open>NDEBUG\<close>) and an
  operation the language leaves undefined are all values of \<open>exn\<close>.
\<close>

datatype exn =
    Overflow_error string
  | Runtime_error string
  | Bignum_error string
  | Key_error string
  | Invalid_argument string
  | Out_of_range
  | Bad_lexical_cast
  | Assert_failed
  | Undefined_behaviour

type_synonym 'a result = "exn + 'a"

definition ebind :: "'a result \<Rightarrow> ('a \<Rightarrow> 'b result) \<Rightarrow> 'b result" where
  "ebind m f = (case m of Inl e \<Rightarrow> Inl e | Inr x \<Rightarrow> f x)"

lemma ebind_simps [simp, result_simps]:
  "ebind (Inl e) f = Inl e"
  "ebind (Inr x) f = f x"
  by (simp_all add: ebind_def)

lemma ebind_eq_Inr: "ebind m f = Inr y \<longleftrightarrow> (\<exists>x. m = Inr x \<and> f x = Inr y)"
  by (auto simp: ebind_def split: sum.splits)

lemma ebind_eq_Inl: "ebind m f = Inl e \<longleftrightarrow> m = Inl e \<or> (\<exists>x. m = Inr x \<and> f x = Inl e)"
  by (auto simp: ebind_def split: sum.splits)

text \<open>\<open>catch_all m r\<close>: \<^verbatim>\<open>try { m } catch (...) { r }\<close>. A failing assertion aborts and
  undefined behaviour is not an exception, so neither is caught.\<close>

fun catch_all :: "'a result \<Rightarrow> 'a result \<Rightarrow> 'a result" where
  "catch_all (Inr x) r = Inr x"
| "catch_all (Inl Assert_failed) r = Inl Assert_failed"
| "catch_all (Inl Undefined_behaviour) r = Inl Undefined_behaviour"
| "catch_all (Inl _) r = r"

text \<open>Code that changes a state and may throw: the state reached before the throw is kept.\<close>

type_synonym ('s, 'a) action = "'s \<Rightarrow> 'a result \<times> 's"

definition sbind :: "('s, 'a) action \<Rightarrow> ('a \<Rightarrow> ('s, 'b) action) \<Rightarrow> ('s, 'b) action" where
  "sbind m f s = (case m s of (Inl e, s') \<Rightarrow> (Inl e, s') | (Inr x, s') \<Rightarrow> f x s')"

definition slift :: "'a result \<Rightarrow> ('s, 'a) action" where
  "slift r s = (r, s)"

lemma sbind_simps [result_simps]:
  "m s = (Inr x, s') \<Longrightarrow> sbind m f s = f x s'"
  "m s = (Inl e, s') \<Longrightarrow> sbind m f s = (Inl e, s')"
  by (simp_all add: sbind_def)

lemma sbind_slift [simp, result_simps]:
  "sbind (slift (Inr x)) f s = f x s"
  "sbind (slift (Inl e)) f s = (Inl e, s)"
  by (simp_all add: sbind_def slift_def)

lemma slift_simp [simp]: "slift r s = (r, s)"
  by (simp add: slift_def)

text \<open>Signed addition: overflow is undefined.\<close>

definition int_add :: "int \<Rightarrow> int \<Rightarrow> int result" where
  "int_add a b = (if in_int (a + b) then Inr (a + b) else Inl Undefined_behaviour)"

lemma int_add_ok [result_simps]: "in_int (a + b) \<Longrightarrow> int_add a b = Inr (a + b)"
  by (simp add: int_add_def)

definition int_val :: "int \<Rightarrow> int result" where
  "int_val x = (if in_int x then Inr x else Inl Undefined_behaviour)"

lemma int_val_ok [result_simps]: "in_int x \<Longrightarrow> int_val x = Inr x"
  by (simp add: int_val_def)

text \<open>Reading \<^verbatim>\<open>v[i]\<close> outside the vector is undefined.\<close>

definition vec_at :: "'a list \<Rightarrow> int \<Rightarrow> 'a result" where
  "vec_at xs i = (if 0 \<le> i \<and> i < int (length xs) then Inr (xs ! nat i) else Inl Undefined_behaviour)"

lemma vec_at_ok [result_simps]: "n < length xs \<Longrightarrow> vec_at xs (int n) = Inr (xs ! n)"
  by (simp add: vec_at_def)

text \<open>The range \<^verbatim>\<open>[begin() + i, begin() + i + n)\<close> of a vector.\<close>

definition vec_range :: "'a list \<Rightarrow> int \<Rightarrow> int \<Rightarrow> 'a list result" where
  "vec_range xs i n =
     (if 0 \<le> i \<and> 0 \<le> n \<and> i + n \<le> int (length xs) then Inr (take (nat n) (drop (nat i) xs))
      else Inl Undefined_behaviour)"

lemma vec_range_ok [result_simps]:
  "i + n \<le> length xs \<Longrightarrow> vec_range xs (int i) (int n) = Inr (take n (drop i xs))"
  by (simp add: vec_range_def)

section \<open>Lists\<close>

lemma nth_append_add [simp]: "(xs @ ys) ! (length xs + i) = ys ! i"
  by (simp add: nth_append)

lemma take_drop_middle [simp]: "take (length ys) (drop (length xs) (xs @ ys @ zs)) = ys"
  by simp

lemma replicate_takeWhile:
  "takeWhile (\<lambda>x. x = a) xs = replicate (length (takeWhile (\<lambda>x. x = a) xs)) a"
  by (induction xs) auto

section \<open>Numbers in base b, most significant digit first\<close>

definition be_val :: "nat \<Rightarrow> nat list \<Rightarrow> nat" where
  "be_val b ds = foldl (\<lambda>acc d. acc * b + d) 0 ds"

lemma foldl_be: "foldl (\<lambda>acc d. acc * b + d) a ds = a * b ^ length ds + be_val b ds"
proof (induction ds arbitrary: a)
  case Nil
  show ?case by (simp add: be_val_def)
next
  case (Cons d ds)
  from Cons.IH [of "a * b + d"] Cons.IH [of "d"] show ?case
    by (simp add: be_val_def algebra_simps)
qed

lemma be_val_Nil [simp]: "be_val b [] = 0"
  by (simp add: be_val_def)

lemma be_val_Cons [simp]: "be_val b (d # ds) = d * b ^ length ds + be_val b ds"
  using foldl_be [of b d ds] by (simp add: be_val_def)

lemma be_val_append [simp]: "be_val b (xs @ ys) = be_val b xs * b ^ length ys + be_val b ys"
  by (induction xs) (auto simp: algebra_simps power_add)

lemma be_val_replicate_zero [simp]: "be_val b (replicate n 0) = 0"
  by (induction n) auto

lemma be_val_bound: "(\<forall>d\<in>set ds. d < b) \<Longrightarrow> be_val b ds < b ^ length ds"
proof (induction ds)
  case Nil
  show ?case by simp
next
  case (Cons d ds)
  then have "be_val b ds < b ^ length ds" and "d < b" by auto
  then have "d * b ^ length ds + be_val b ds < Suc d * b ^ length ds" by simp
  also have "\<dots> \<le> b * b ^ length ds" using \<open>d < b\<close> by (intro mult_le_mono1) simp
  finally show ?case by simp
qed

text \<open>Two digit strings of equal length denote the same number only when they are equal.\<close>

lemma be_val_inj:
  assumes "length xs = length ys" "\<forall>d\<in>set xs. d < b" "\<forall>d\<in>set ys. d < b"
    and "be_val b xs = be_val b ys"
  shows "xs = ys"
  using assms
proof (induction xs ys rule: list_induct2)
  case Nil
  show ?case by simp
next
  case (Cons x xs y ys)
  let ?p = "b ^ length xs"
  have bx: "be_val b xs < ?p" and bys: "be_val b ys < ?p"
    using Cons.prems be_val_bound [of xs b] be_val_bound [of ys b] Cons.hyps by auto
  have eq: "x * ?p + be_val b xs = y * ?p + be_val b ys"
    using Cons.prems Cons.hyps by simp
  have "x = (x * ?p + be_val b xs) div ?p"
    using bx div_mult_self3 [of ?p "be_val b xs" x] by (cases "?p = 0") (auto simp: add.commute)
  also have "\<dots> = (y * ?p + be_val b ys) div ?p" by (simp only: eq)
  also have "\<dots> = y"
    using bys div_mult_self3 [of ?p "be_val b ys" y] by (cases "?p = 0") (auto simp: add.commute)
  finally have "x = y" .
  moreover from this eq have "be_val b xs = be_val b ys" by simp
  ultimately show ?case using Cons by simp
qed

text \<open>The base-\<open>b\<close> digits of a number.\<close>

lemma be_val_digits:
  "be_val b (map (\<lambda>i. x div b ^ i mod b) (rev [0..<n])) = x mod b ^ n"
proof (induction n)
  case 0
  show ?case by simp
next
  case (Suc n)
  have "x mod b ^ Suc n = b ^ n * (x div b ^ n mod b) + x mod b ^ n"
    using mod_mult2_eq [of x "b ^ n" b] by (simp add: mult.commute)
  with Suc.IH show ?case by simp
qed

abbreviation bytes_val :: "bytes \<Rightarrow> nat" where
  "bytes_val bs \<equiv> be_val 256 (map unat bs)"

lemma unat_bound: "unat (w :: 'a::len word) < 2 ^ LENGTH('a)"
  by (rule unsigned_less)

lemma unat_byte_bound [simp]: "unat (b :: byte) < 256"
  using unsigned_less [of b] by simp

lemma bytes_val_bound: "bytes_val bs < 256 ^ length bs"
  using be_val_bound [of "map unat bs" 256] by simp

lemma bytes_val_inj: "length xs = length ys \<Longrightarrow> bytes_val xs = bytes_val ys \<Longrightarrow> xs = ys"
proof -
  assume l: "length xs = length ys" and e: "bytes_val xs = bytes_val ys"
  from l e have "map unat xs = map unat ys" by (intro be_val_inj) auto
  then show "xs = ys" using map_injective [of unat xs ys] by (simp add: inj_def word_unat_eq_iff)
qed

section \<open>Words and bytes\<close>

lemma ucast_and_255 [codec_simps]: "(ucast (w AND 255) :: byte) = ucast (w :: 'a::len word)"
proof (rule bit_word_eqI)
  fix n assume "n < LENGTH(8)"
  then have "bit (255 :: 'a word) n \<longleftrightarrow> n < LENGTH('a)"
    using bit_mask_iff [of 8 n, where ?'a = "'a word"] by (simp add: mask_eq_exp_minus_1)
  then show "bit (ucast (w AND 255) :: byte) n = bit (ucast w :: byte) n"
    by (auto simp: bit_simps dest: bit_imp_le_length)
qed

text \<open>One step of reading a big-endian number: shift what was read, or in the next byte.\<close>

lemma join_step:
  fixes i :: "'a::len word"
  shows "push_bit 8 (drop_bit (n + 8) i) OR ucast (ucast (drop_bit n i) :: byte) = drop_bit n i"
proof (rule bit_word_eqI)
  fix m assume "m < LENGTH('a)"
  then show "bit (push_bit 8 (drop_bit (n + 8) i) OR ucast (ucast (drop_bit n i) :: byte)) m
      = bit (drop_bit n i) m"
    by (cases "m < 8") (auto simp: bit_simps add.assoc)
qed

lemma join_first:
  fixes i :: "'a::len word"
  assumes "LENGTH('a) \<le> n + 8"
  shows "ucast (ucast (drop_bit n i) :: byte) = drop_bit n i"
  using assms by (intro bit_word_eqI) (auto simp: bit_simps dest: bit_imp_le_length)

lemma join16 [codec_simps]:
  fixes i :: "16 word"
  shows "push_bit 8 (ucast (ucast (drop_bit 8 i) :: byte)) OR ucast (ucast i :: byte) = i"
  using join_step [of 0 i] join_first [of 8 i] by simp

lemma join32 [codec_simps]:
  fixes i :: "32 word"
  shows "push_bit 8 (push_bit 8 (push_bit 8 (ucast (ucast (drop_bit 24 i) :: byte))
           OR ucast (ucast (drop_bit 16 i) :: byte)) OR ucast (ucast (drop_bit 8 i) :: byte))
           OR ucast (ucast i :: byte) = i"
  using join_step [of 0 i] join_step [of 8 i] join_step [of 16 i] join_first [of 24 i] by simp

lemma join64 [codec_simps]:
  fixes i :: "64 word"
  shows "push_bit 8 (push_bit 8 (push_bit 8 (push_bit 8 (push_bit 8 (push_bit 8 (push_bit 8
           (ucast (ucast (drop_bit 56 i) :: byte))
           OR ucast (ucast (drop_bit 48 i) :: byte)) OR ucast (ucast (drop_bit 40 i) :: byte))
           OR ucast (ucast (drop_bit 32 i) :: byte)) OR ucast (ucast (drop_bit 24 i) :: byte))
           OR ucast (ucast (drop_bit 16 i) :: byte)) OR ucast (ucast (drop_bit 8 i) :: byte))
           OR ucast (ucast i :: byte) = i"
  using join_step [of 0 i] join_step [of 8 i] join_step [of 16 i] join_step [of 24 i]
    join_step [of 32 i] join_step [of 40 i] join_step [of 48 i] join_first [of 56 i] by simp

lemma and_255_int: "(l :: int) AND 255 = l mod 256"
  using take_bit_eq_mask [of 8 l] by (simp add: mask_eq_exp_minus_1 take_bit_eq_mod)

lemma unat_of_nat_small: "n < 2 ^ LENGTH('a) \<Longrightarrow> unat (of_nat n :: 'a::len word) = n"
  by (simp add: unsigned_of_nat take_bit_nat_eq_self)

end
