(* ===== verification/Utils.thy ===== *)
theory Utils
  imports Prelude
begin

text \<open>
  \<^verbatim>\<open>shared/utils.h\<close> and \<^verbatim>\<open>shared/utils.cpp\<close>: hexadecimal printing and
  parsing, string/vector copies, joining, SQL blob literals; and the blob escape of
  \<^verbatim>\<open>notDatabase/SqliteDatabase.cpp\<close>, which must agree with \<^verbatim>\<open>sqlEscape\<close>.
  A \<^verbatim>\<open>std::string\<close> is a HOL string; its chars are bytes.
\<close>

section \<open>Characters and bytes\<close>

definition byte_of_char :: "char \<Rightarrow> byte" where
  "byte_of_char c = word_of_nat (of_char c)"

definition char_of_byte :: "byte \<Rightarrow> char" where
  "char_of_byte b = char_of (unat b)"

text \<open>The conversion \<^verbatim>\<open>(char) i\<close> keeps the low eight bits.\<close>

definition char_of_int :: "int \<Rightarrow> char" where
  "char_of_int i = char_of (nat (i mod 256))"

lemma byte_of_char_of_byte [simp]: "byte_of_char (char_of_byte b) = b"
  by (simp add: byte_of_char_def char_of_byte_def)

lemma of_char_less_256: "(of_char c :: nat) < 256"
  by (metis char_of_char mod_less_divisor of_char_of zero_less_numeral)

lemma char_of_byte_of_char [simp]: "char_of_byte (byte_of_char c) = c"
  using of_char_less_256 [of c] by (simp add: byte_of_char_def char_of_byte_def unat_of_nat)

lemma char_of_byte_inj [simp]: "char_of_byte a = char_of_byte b \<longleftrightarrow> a = b"
  by (metis byte_of_char_of_byte)

section \<open>utils.cpp: hex digits\<close>

definition charHex :: "int \<Rightarrow> char" where
  "charHex iDigit = char_of_int (if iDigit < 10 then 48 + iDigit else 65 - 10 + iDigit)"

definition charUnHex :: "char \<Rightarrow> int" where
  "charUnHex cDigit = (let c = (of_char cDigit :: int) in
     if 48 \<le> c \<and> c \<le> 57 then c - 48
     else if 65 \<le> c \<and> c \<le> 70 then c - 65 + 10
     else if 97 \<le> c \<and> c \<le> 102 then c - 97 + 10
     else -1)"

text \<open>\<^verbatim>\<open>strHex(first, iSize)\<close>, on the bytes from \<^verbatim>\<open>first\<close>.\<close>

definition strHex :: "bytes \<Rightarrow> string" where
  "strHex bs = concat (map (\<lambda>c. [charHex (uint (drop_bit 4 c)), charHex (uint (c AND 15))]) bs)"

text \<open>
  One byte of \<^verbatim>\<open>strUnHex\<close>: \<^verbatim>\<open>(charUnHex(hi) << 4) | charUnHex(lo)\<close>. Shifting the
  \<^verbatim>\<open>-1\<close> of a bad high digit is undefined; a bad low digit ors in all ones.
\<close>

definition unHexByte :: "char \<Rightarrow> char \<Rightarrow> char result" where
  "unHexByte hi lo = (if charUnHex hi < 0 then Inl Undefined_behaviour
     else Inr (char_of_int (push_bit 4 (charUnHex hi) OR charUnHex lo)))"

fun strUnHex_str :: "string \<Rightarrow> string result" where
  "strUnHex_str (hi # lo # rest) =
     ebind (unHexByte hi lo) (\<lambda>c. ebind (strUnHex_str rest) (\<lambda>cs. Inr (c # cs)))"
| "strUnHex_str _ = Inr []"

section \<open>utils.cpp: copies and joins\<close>

definition strCopy_vuc :: "string \<Rightarrow> bytes" where
  "strCopy_vuc strSrc = map byte_of_char strSrc"

definition strCopy_str :: "bytes \<Rightarrow> string" where
  "strCopy_str vucSrc = map char_of_byte vucSrc"

definition strUnHex :: "string \<Rightarrow> bytes result" where
  "strUnHex strSrc = ebind (strUnHex_str strSrc) (\<lambda>strTmp. Inr (strCopy_vuc strTmp))"

text \<open>The loop of \<^verbatim>\<open>strJoin\<close>; the flag is \<^verbatim>\<open>start == first\<close>.\<close>

fun strJoin_loop :: "bool \<Rightarrow> string list \<Rightarrow> string \<Rightarrow> string" where
  "strJoin_loop atStart [] strSeperator = []"
| "strJoin_loop atStart (x # xs) strSeperator =
     (if atStart then [] else strSeperator) @ x @ strJoin_loop False xs strSeperator"

definition strJoin :: "string list \<Rightarrow> string \<Rightarrow> string" where
  "strJoin xs strSeperator = strJoin_loop True xs strSeperator"

definition sqlEscape :: "string \<Rightarrow> string" where
  "sqlEscape strSrc = ''X'' @ [CHR 0x27] @ strHex (strCopy_vuc strSrc) @ [CHR 0x27]"

text \<open>\<^verbatim>\<open>strHex(uint64)\<close>: \<^verbatim>\<open>htobe64\<close> lays the bytes out most significant first.\<close>

definition htobe64_bytes :: "64 word \<Rightarrow> bytes" where
  "htobe64_bytes w = map (\<lambda>n. ucast (drop_bit n w)) [56, 48, 40, 32, 24, 16, 8, 0]"

definition strHex_u64 :: "64 word \<Rightarrow> string" where
  "strHex_u64 uiHost = strHex (htobe64_bytes uiHost)"

text \<open>\<^verbatim>\<open>isZero(first, iSize)\<close>: reading past the range is undefined.\<close>

fun isZero :: "bytes \<Rightarrow> nat \<Rightarrow> bool result" where
  "isZero bs 0 = Inr True"
| "isZero [] (Suc iSize) = Inl Undefined_behaviour"
| "isZero (b # bs) (Suc iSize) = (if b = 0 then isZero bs iSize else Inr False)"

section \<open>SqliteDatabase.cpp: escape\<close>

text \<open>\<^verbatim>\<open>sprintf(buf, "%02X", start[n])\<close>: upper-case hex, at least two digits.\<close>

definition hexUpper :: "nat \<Rightarrow> char" where
  "hexUpper d = ''0123456789ABCDEF'' ! d"

definition sprintf_02X :: "byte \<Rightarrow> string" where
  "sprintf_02X b = [hexUpper (unat b div 16), hexUpper (unat b mod 16)]"

fun escape_loop :: "bytes \<Rightarrow> string \<Rightarrow> string" where
  "escape_loop [] retStr = retStr"
| "escape_loop (b # bs) retStr = escape_loop bs (retStr @ sprintf_02X b)"

definition SqliteDatabase_escape :: "bytes \<Rightarrow> string" where
  "SqliteDatabase_escape start = escape_loop start (''X'' @ [CHR 0x27]) @ [CHR 0x27]"

definition Database_escape :: "string \<Rightarrow> string" where
  "Database_escape strValue = SqliteDatabase_escape (map byte_of_char strValue)"

section \<open>Hex digits and bytes\<close>

lemma nat16_cases: "d < 16 \<Longrightarrow> d \<in> set [0..<16]"
  by auto

lemma charHex_of_nat: "d < 16 \<Longrightarrow> charHex (int d) = hexUpper d"
proof -
  assume "d < 16"
  then have "d \<in> set [0..<16]" by simp
  moreover have "\<forall>d\<in>set [0..<16]. charHex (int d) = hexUpper d" by code_simp
  ultimately show ?thesis by blast
qed

lemma charUnHex_hexUpper [simp]: "d < 16 \<Longrightarrow> charUnHex (hexUpper d) = int d"
proof -
  assume "d < 16"
  then have "d \<in> set [0..<16]" by simp
  moreover have "\<forall>d\<in>set [0..<16]. charUnHex (hexUpper d) = int d" by code_simp
  ultimately show ?thesis by blast
qed

lemma byte_div_16 [simp]: "unat (b :: byte) div 16 < 16"
  using unat_byte_bound [of b] by linarith

lemma drop_bit_nat_eq: "drop_bit n (m :: nat) = m div 2 ^ n"
  by (rule drop_bit_eq_div)

lemma take_bit_nat_eq: "take_bit n (m :: nat) = m mod 2 ^ n"
  by (rule take_bit_eq_mod)

lemma uint_hi: "uint (drop_bit 4 (c :: byte)) = int (unat c div 16)"
  by (subst uint_nat) (simp only: unat_drop_bit_eq drop_bit_nat_eq, simp)

lemma and_15: "(c :: byte) AND 15 = take_bit 4 c"
proof -
  have "(15 :: byte) = mask 4" by (simp add: mask_eq_exp_minus_1)
  then show ?thesis by (simp add: take_bit_eq_mask)
qed

lemma uint_lo: "uint (c AND 15 :: byte) = int (unat c mod 16)"
proof -
  have "unat (take_bit 4 c) = unat c mod 16"
    by (simp add: unsigned_take_bit_eq take_bit_nat_eq)
  then show ?thesis by (subst uint_nat) (simp add: and_15)
qed

lemma strHex_simps [simp, codec_simps]:
  "strHex [] = []"
  "strHex (b # bs) = sprintf_02X b @ strHex bs"
  "strHex (bs @ cs) = strHex bs @ strHex cs"
  by (simp_all add: strHex_def sprintf_02X_def uint_hi uint_lo charHex_of_nat)

lemma length_strHex [simp]: "length (strHex bs) = 2 * length bs"
  by (induction bs) (simp_all add: sprintf_02X_def)

lemma set_strHex: "set (strHex bs) \<subseteq> set ''0123456789ABCDEF''"
proof -
  have *: "hexUpper d \<in> set ''0123456789ABCDEF''" if "d < 16" for d
    using that unfolding hexUpper_def by (intro nth_mem) simp
  then have "set (sprintf_02X b) \<subseteq> set ''0123456789ABCDEF''" for b
    unfolding sprintf_02X_def using * [OF byte_div_16 [of b]] * [of "unat b mod 16"] by simp
  then show ?thesis
    by (induction bs) (simp_all del: list.set(2))
qed

lemma unHexByte_hexUpper:
  "unHexByte (hexUpper (unat b div 16)) (hexUpper (unat b mod 16)) = Inr (char_of_byte b)"
proof -
  have "push_bit 4 (int (unat b div 16)) OR int (unat b mod 16)
      = int (push_bit 4 (unat b div 16) OR (unat b mod 16))"
    by (simp add: of_nat_or_eq of_nat_push_bit)
  also have "push_bit 4 (unat b div 16) OR (unat b mod 16) = push_bit 4 (drop_bit 4 (unat b)) OR take_bit 4 (unat b)"
    by (simp add: drop_bit_eq_div take_bit_eq_mod)
  also have "\<dots> = unat b"
    by (rule bit_eqI) (auto simp: bit_simps)
  finally show ?thesis
    using unat_byte_bound [of b] uint_nat [of b] by (simp add: unHexByte_def char_of_int_def char_of_byte_def del: of_nat_unat)
qed

lemma strUnHex_str_strHex [simp, codec_simps]: "strUnHex_str (strHex bs) = Inr (map char_of_byte bs)"
  by (induction bs) (simp_all add: sprintf_02X_def unHexByte_hexUpper)

lemma strCopy_roundtrip [simp]:
  "strCopy_vuc (strCopy_str bs) = bs" "strCopy_str (strCopy_vuc s) = s"
  by (simp_all add: strCopy_vuc_def strCopy_str_def comp_def)

lemma strHex_inj: "strHex xs = strHex ys \<longleftrightarrow> xs = ys"
proof
  assume "strHex xs = strHex ys"
  then have "strUnHex_str (strHex xs) = strUnHex_str (strHex ys)" by simp
  then have "map char_of_byte xs = map char_of_byte ys" by simp
  then show "xs = ys" using map_injective [of char_of_byte xs ys] by (simp add: inj_def)
qed simp

lemma isZero_iff: "iSize \<le> length bs \<Longrightarrow> isZero bs iSize = Inr (\<forall>b\<in>set (take iSize bs). b = 0)"
  by (induction bs iSize rule: isZero.induct) auto

lemma escape_loop_strHex: "escape_loop bs acc = acc @ strHex bs"
  by (induction bs arbitrary: acc) simp_all

lemma strJoin_loop_False: "strJoin_loop False xs sep = concat (map (\<lambda>x. sep @ x) xs)"
  by (induction xs) auto

lemma bytes_val_htobe64 [simp]: "bytes_val (htobe64_bytes w) = unat w"
proof -
  have "unat (ucast (drop_bit n w) :: byte) = unat w div 2 ^ n mod 256" for n
    by (simp add: unsigned_ucast_eq unat_drop_bit_eq drop_bit_nat_eq take_bit_nat_eq)
  then have "map unat (htobe64_bytes w)
      = map (\<lambda>i. unat w div 256 ^ i mod 256) (rev [0..<8])"
    by (simp add: htobe64_bytes_def upt_rec del: drop_bit_0)
  then show ?thesis
    using be_val_digits [of 256 "unat w" 8] unat_bound [of w] by simp
qed

section \<open>Properties\<close>

text \<open>Hex printing and parsing are inverse: \<^verbatim>\<open>strUnHex(strHex(v))\<close> returns \<open>v\<close>
  for every byte vector, and raises no undefined behaviour.\<close>

theorem strUnHex_strHex: "strUnHex (strHex bs) = Inr bs"
  by (simp add: strUnHex_def strCopy_vuc_def comp_def)

text \<open>C38: The two SQL blob escapes of the program, \<^verbatim>\<open>sqlEscape\<close> (through
  \<^verbatim>\<open>strHex\<close>) and \<^verbatim>\<open>Database::escape\<close> (through \<^verbatim>\<open>sprintf\<close>), give the same
  literal; two values have the same literal only when they are equal; and between its quotes
  the literal holds hex digits only, so no value can close the literal early.\<close>

theorem sqlEscape_sound:
  "Database_escape s = sqlEscape s
   \<and> (sqlEscape s = sqlEscape t \<longleftrightarrow> s = t)
   \<and> (\<exists>h. sqlEscape s = ''X'' @ [CHR 0x27] @ h @ [CHR 0x27] \<and> set h \<subseteq> set ''0123456789ABCDEF'')"
proof (intro conjI exI)
  show "Database_escape s = sqlEscape s"
    by (simp add: Database_escape_def SqliteDatabase_escape_def sqlEscape_def escape_loop_strHex
        strCopy_vuc_def)
  show "sqlEscape s = sqlEscape t \<longleftrightarrow> s = t"
    by (auto simp: sqlEscape_def strHex_inj dest: arg_cong [of _ _ strCopy_str])
  show "sqlEscape s = ''X'' @ [CHR 0x27] @ strHex (strCopy_vuc s) @ [CHR 0x27]"
    by (simp add: sqlEscape_def)
  show "set (strHex (strCopy_vuc s)) \<subseteq> set ''0123456789ABCDEF''"
    by (rule set_strHex)
qed

end
