(* ===== verification/Uint256.thy ===== *)
theory Uint256
  imports Utils
begin

text \<open>
  \<^verbatim>\<open>shared/uint256.h\<close> (\<^verbatim>\<open>base_uint\<close>, \<^verbatim>\<open>uint128\<close>, \<^verbatim>\<open>uint160\<close>,
  \<^verbatim>\<open>uint256\<close>) and \<^verbatim>\<open>shared/Conversion.cpp\<close>. A value is the array \<^verbatim>\<open>pn\<close> of
  native 32-bit words; \<open>uint_bytes\<close> is the memory \<^verbatim>\<open>[begin(), end())\<close> on the little-endian
  host, and \<open>uint_val\<close> the number those bytes denote, most significant byte first, which is the
  order \<^verbatim>\<open>compare\<close>, \<^verbatim>\<open>GetHex\<close> and the assignment from \<^verbatim>\<open>uint64\<close> use.
\<close>

section \<open>Representation\<close>

record base_uint =
  pn :: "32 word list"

definition host_bytes :: "32 word \<Rightarrow> bytes" where
  "host_bytes w = [ucast w, ucast (drop_bit 8 w), ucast (drop_bit 16 w), ucast (drop_bit 24 w)]"

definition host_word :: "byte \<Rightarrow> byte \<Rightarrow> byte \<Rightarrow> byte \<Rightarrow> 32 word" where
  "host_word a b c d = push_bit 8 (push_bit 8 (push_bit 8 (ucast d) OR ucast c) OR ucast b) OR ucast a"

fun host_words :: "bytes \<Rightarrow> 32 word list" where
  "host_words (a # b # c # d # bs) = host_word a b c d # host_words bs"
| "host_words _ = []"

text \<open>\<^verbatim>\<open>begin()\<close> to \<^verbatim>\<open>end()\<close>, and a \<^verbatim>\<open>memcpy\<close> into \<^verbatim>\<open>pn\<close>.\<close>

definition uint_bytes :: "base_uint \<Rightarrow> bytes" where
  "uint_bytes u = concat (map host_bytes (pn u))"

definition of_uint_bytes :: "bytes \<Rightarrow> base_uint" where
  "of_uint_bytes bs = \<lparr>pn = host_words bs\<rparr>"

definition uint_size :: "base_uint \<Rightarrow> nat" where
  "uint_size u = 4 * length (pn u)"

definition uint_val :: "base_uint \<Rightarrow> nat" where
  "uint_val u = bytes_val (uint_bytes u)"

section \<open>Operations of base_uint\<close>

definition uint_zero :: "nat \<Rightarrow> base_uint" where
  "uint_zero WIDTH = \<lparr>pn = replicate WIDTH 0\<rparr>"

fun isZero_loop :: "32 word list \<Rightarrow> bool" where
  "isZero_loop [] = True"
| "isZero_loop (w # ws) = (if w \<noteq> 0 then False else isZero_loop ws)"

definition uint_isZero :: "base_uint \<Rightarrow> bool" where
  "uint_isZero u = isZero_loop (pn u)"

definition uint_isNonZero :: "base_uint \<Rightarrow> bool" where
  "uint_isNonZero u = (\<not> uint_isZero u)"

definition uint_compl :: "base_uint \<Rightarrow> base_uint" where
  "uint_compl u = \<lparr>pn = map (\<lambda>w. NOT w) (pn u)\<rparr>"

text \<open>\<^verbatim>\<open>operator=(uint64)\<close>: zero, then the last eight bytes are \<^verbatim>\<open>htobe64(b)\<close>.\<close>

definition uint_assign_u64 :: "nat \<Rightarrow> 64 word \<Rightarrow> base_uint" where
  "uint_assign_u64 WIDTH b =
     of_uint_bytes (take (4 * WIDTH - 8) (uint_bytes (uint_zero WIDTH)) @ htobe64_bytes b)"

definition uint_xor :: "base_uint \<Rightarrow> base_uint \<Rightarrow> base_uint" where
  "uint_xor a b = \<lparr>pn = map2 (\<lambda>v w. v XOR w) (pn a) (pn b)\<rparr>"

definition uint_and :: "base_uint \<Rightarrow> base_uint \<Rightarrow> base_uint" where
  "uint_and a b = \<lparr>pn = map2 (\<lambda>v w. v AND w) (pn a) (pn b)\<rparr>"

definition uint_or :: "base_uint \<Rightarrow> base_uint \<Rightarrow> base_uint" where
  "uint_or a b = \<lparr>pn = map2 (\<lambda>v w. v OR w) (pn a) (pn b)\<rparr>"

text \<open>\<^verbatim>\<open>for (int i = WIDTH - 1; ++pn[i] == 0 && i; i--)\<close>, and the same with \<^verbatim>\<open>--\<close>.\<close>

fun inc_loop :: "32 word list \<Rightarrow> nat \<Rightarrow> 32 word list" where
  "inc_loop ws 0 = ws[0 := ws ! 0 + 1]"
| "inc_loop ws (Suc i) = (let ws' = ws[Suc i := ws ! Suc i + 1] in
     if ws' ! Suc i = 0 then inc_loop ws' i else ws')"

definition uint_inc :: "base_uint \<Rightarrow> base_uint" where
  "uint_inc u = u\<lparr>pn := inc_loop (pn u) (length (pn u) - 1)\<rparr>"

definition uint_post_inc :: "base_uint \<Rightarrow> base_uint \<times> base_uint" where
  "uint_post_inc u = (u, uint_inc u)"

fun dec_loop :: "32 word list \<Rightarrow> nat \<Rightarrow> 32 word list" where
  "dec_loop ws 0 = ws[0 := ws ! 0 - 1]"
| "dec_loop ws (Suc i) = (let ws' = ws[Suc i := ws ! Suc i - 1] in
     if ws' ! Suc i = - 1 then dec_loop ws' i else ws')"

definition uint_dec :: "base_uint \<Rightarrow> base_uint" where
  "uint_dec u = u\<lparr>pn := dec_loop (pn u) (length (pn u) - 1)\<rparr>"

definition uint_post_dec :: "base_uint \<Rightarrow> base_uint \<times> base_uint" where
  "uint_post_dec u = (u, uint_dec u)"

text \<open>
  \<^verbatim>\<open>compare\<close> walks both byte ranges to the first difference. Both arguments have the same
  template width, so the second range ends with the first.
\<close>

fun compare_loop :: "bytes \<Rightarrow> bytes \<Rightarrow> int" where
  "compare_loop (a # as) (b # bs) =
     (if a = b then compare_loop as bs else if a < b then -1 else if a > b then 1 else 0)"
| "compare_loop _ _ = 0"

definition uint_compare :: "base_uint \<Rightarrow> base_uint \<Rightarrow> int" where
  "uint_compare a b = compare_loop (uint_bytes a) (uint_bytes b)"

definition uint_lt :: "base_uint \<Rightarrow> base_uint \<Rightarrow> bool" where "uint_lt a b = (uint_compare a b < 0)"
definition uint_le :: "base_uint \<Rightarrow> base_uint \<Rightarrow> bool" where "uint_le a b = (uint_compare a b \<le> 0)"
definition uint_gt :: "base_uint \<Rightarrow> base_uint \<Rightarrow> bool" where "uint_gt a b = (uint_compare a b > 0)"
definition uint_ge :: "base_uint \<Rightarrow> base_uint \<Rightarrow> bool" where "uint_ge a b = (uint_compare a b \<ge> 0)"
definition uint_eq :: "base_uint \<Rightarrow> base_uint \<Rightarrow> bool" where "uint_eq a b = (uint_compare a b = 0)"
definition uint_ne :: "base_uint \<Rightarrow> base_uint \<Rightarrow> bool" where "uint_ne a b = (uint_compare a b \<noteq> 0)"

definition uint_GetHex :: "base_uint \<Rightarrow> string" where
  "uint_GetHex u = strHex (uint_bytes u)"

section \<open>SetHex\<close>

text \<open>\<^verbatim>\<open>isspace\<close> and \<^verbatim>\<open>tolower\<close> of the C locale; \<^verbatim>\<open>c_str()\<close> ends at the first NUL.\<close>

definition isspace :: "char \<Rightarrow> bool" where
  "isspace c \<longleftrightarrow> c \<in> {CHR 0x20, CHR 0x09, CHR 0x0A, CHR 0x0B, CHR 0x0C, CHR 0x0D}"

definition c_str :: "string \<Rightarrow> string" where
  "c_str s = takeWhile (\<lambda>c. c \<noteq> CHR 0x00) s"

definition phexdigit_table :: "int list" where
  "phexdigit_table = replicate 48 (-1) @ [0, 1, 2, 3, 4, 5, 6, 7, 8, 9] @ replicate 7 (-1)
     @ [0xa, 0xb, 0xc, 0xd, 0xe, 0xf] @ replicate 26 (-1) @ [0xa, 0xb, 0xc, 0xd, 0xe, 0xf]
     @ replicate 153 (-1)"

definition phexdigit :: "char \<Rightarrow> int" where
  "phexdigit c = phexdigit_table ! of_char c"

fun skip_0x :: "string \<Rightarrow> string" where
  "skip_0x (a # b # rest) =
     (if a = CHR ''0'' \<and> (b = CHR ''x'' \<or> b = CHR ''X'') then rest else a # b # rest)"
| "skip_0x psz = psz"

text \<open>The output loop: a last single digit goes to the high half of its byte.\<close>

fun SetHex_loop :: "string \<Rightarrow> bytes" where
  "SetHex_loop [] = []"
| "SetHex_loop [h] = [push_bit 4 (word_of_int (phexdigit h)) OR 0]"
| "SetHex_loop (h # l # rest) =
     (push_bit 4 (word_of_int (phexdigit h)) OR word_of_int (phexdigit l)) # SetHex_loop rest"

definition uint_SetHex :: "nat \<Rightarrow> string \<Rightarrow> base_uint" where
  "uint_SetHex WIDTH str = (let
     psz = skip_0x (dropWhile isspace (c_str str));
     ds = takeWhile (\<lambda>c. phexdigit c \<ge> 0) psz;
     n = 2 * (4 * WIDTH);
     ds = (if length ds > n then drop (length ds - n) ds else ds);
     out = (length ds + 1) div 2
   in of_uint_bytes (take (4 * WIDTH - out) (uint_bytes (uint_zero WIDTH)) @ SetHex_loop ds))"

section \<open>uint128, uint160, uint256\<close>

definition uint128_of_uint256 :: "base_uint \<Rightarrow> base_uint" where
  "uint128_of_uint256 b = \<lparr>pn = take 4 (pn b)\<rparr>"

definition uint128_of_vch :: "bytes \<Rightarrow> base_uint" where
  "uint128_of_vch vch = (if length vch = 16 then of_uint_bytes vch else uint_zero 4)"

definition uint160_of_u64 :: "64 word \<Rightarrow> base_uint" where
  "uint160_of_u64 b = uint_assign_u64 5 b"

definition uint160_of_str :: "string \<Rightarrow> base_uint" where
  "uint160_of_str str = uint_SetHex 5 str"

definition uint160_of_vch :: "bytes \<Rightarrow> base_uint" where
  "uint160_of_vch vch = (if length vch = 20 then of_uint_bytes vch else uint_zero 5)"

definition uint256_of_u64 :: "64 word \<Rightarrow> base_uint" where
  "uint256_of_u64 b = uint_assign_u64 8 b"

definition uint256_of_str :: "string \<Rightarrow> base_uint" where
  "uint256_of_str str = uint_SetHex 8 str"

definition uint256_of_vch :: "bytes \<Rightarrow> base_uint result" where
  "uint256_of_vch vch = (if length vch = 32 then Inr (of_uint_bytes vch) else Inl Assert_failed)"

text \<open>\<^verbatim>\<open>Conversion.cpp\<close>: \<^verbatim>\<open>uint160::to256\<close> fills the left of a zero \<^verbatim>\<open>uint256\<close>.\<close>

definition uint160_to256 :: "base_uint \<Rightarrow> base_uint" where
  "uint160_to256 u = of_uint_bytes (uint_bytes u @ drop (uint_size u) (uint_bytes (uint_zero 8)))"


section \<open>The memory view\<close>

lemma host_word_bytes [simp]:
  "host_word (ucast w) (ucast (drop_bit 8 w)) (ucast (drop_bit 16 w)) (ucast (drop_bit 24 w)) = w"
  unfolding host_word_def by (rule join32)

lemma host_bytes_word [simp]: "host_bytes (host_word a b c d) = [a, b, c, d]"
proof -
  have "ucast (host_word a b c d) = a" "ucast (drop_bit 8 (host_word a b c d)) = b"
    "ucast (drop_bit 16 (host_word a b c d)) = c" "ucast (drop_bit 24 (host_word a b c d)) = d"
    unfolding host_word_def
    by (intro bit_word_eqI; auto simp: bit_simps not_le dest: bit_imp_le_length)+
  then show ?thesis by (simp add: host_bytes_def)
qed

lemma host_words_append: "host_words (host_bytes w @ bs) = w # host_words bs"
  by (simp add: host_bytes_def)

lemma host_words_concat [simp]: "host_words (concat (map host_bytes ws)) = ws"
  by (induction ws) (simp_all add: host_words_append)

lemma of_uint_bytes_uint_bytes [simp]: "of_uint_bytes (uint_bytes u) = u"
  by (simp add: of_uint_bytes_def uint_bytes_def)

lemma concat_host_words: "4 dvd length bs \<Longrightarrow> concat (map host_bytes (host_words bs)) = bs"
proof (induction bs rule: host_words.induct)
  case (1 a b c d bs)
  then have "4 dvd length bs" by (simp add: dvd_def) presburger
  with 1 show ?case by simp
qed (auto dest: dvd_imp_le)

lemma uint_bytes_of_uint_bytes [simp]: "4 dvd length bs \<Longrightarrow> uint_bytes (of_uint_bytes bs) = bs"
  by (simp add: of_uint_bytes_def uint_bytes_def concat_host_words)

lemma length_host_words [simp]: "length (host_words bs) = length bs div 4"
  by (induction bs rule: host_words.induct) auto

lemma length_uint_bytes [simp]: "length (uint_bytes u) = uint_size u"
  by (cases u) (simp add: uint_bytes_def uint_size_def length_concat comp_def host_bytes_def
      sum_list_triv)

lemma uint_size_of_uint_bytes [simp]: "4 dvd length bs \<Longrightarrow> uint_size (of_uint_bytes bs) = length bs"
  by (auto simp: uint_size_def of_uint_bytes_def)

lemma uint_bytes_inj: "uint_bytes a = uint_bytes b \<longleftrightarrow> a = b"
  by (metis of_uint_bytes_uint_bytes)

lemma uint_bytes_zero [simp]: "uint_bytes (uint_zero n) = replicate (4 * n) 0"
proof (induction n)
  case 0
  show ?case by (simp add: uint_zero_def uint_bytes_def)
next
  case (Suc n)
  then show ?case by (simp add: uint_zero_def uint_bytes_def host_bytes_def numeral_eq_Suc)
qed

lemma uint_size_zero [simp]: "uint_size (uint_zero n) = 4 * n"
  by (simp add: uint_zero_def uint_size_def)

section \<open>Comparison\<close>

lemma compare_loop_val:
  "length as = length bs \<Longrightarrow>
   compare_loop as bs = (if bytes_val as < bytes_val bs then -1 else if bytes_val as > bytes_val bs then 1 else 0)"
proof (induction as bs rule: list_induct2)
  case Nil
  show ?case by simp
next
  case (Cons a as b bs)
  let ?p = "(256::nat) ^ length as"
  have bnd: "bytes_val as < ?p" "bytes_val bs < ?p"
    using bytes_val_bound [of as] bytes_val_bound [of bs] Cons.hyps by auto
  have lt: "unat x * ?p + m < unat y * ?p + n" if "x < y" "m < ?p" for x y :: byte and m n
  proof -
    from that have "Suc (unat x) * ?p \<le> unat y * ?p"
      by (intro mult_le_mono1) (simp add: word_less_nat_alt)
    with that show ?thesis by simp
  qed
  consider "a = b" | "a < b" | "b < a" by fastforce
  then show ?case
  proof cases
    case 1
    with Cons show ?thesis by simp
  next
    case 2
    with lt [of a b] bnd Cons.hyps show ?thesis by auto
  next
    case 3
    with lt [of b a] bnd Cons.hyps show ?thesis by fastforce
  qed
qed

lemma uint_val_inj: "uint_size a = uint_size b \<Longrightarrow> uint_val a = uint_val b \<Longrightarrow> a = b"
  using bytes_val_inj [of "uint_bytes a" "uint_bytes b"] by (simp add: uint_val_def uint_bytes_inj)

section \<open>Increment and decrement\<close>

text \<open>The number the words denote in array order, each word taken natively.\<close>

definition words_val :: "base_uint \<Rightarrow> nat" where
  "words_val u = be_val (2 ^ 32) (map unat (pn u))"

lemma mod_digit: "r < B \<Longrightarrow> (a * B + r) mod (p * B) = (a mod p) * B + (r :: nat)"
  using mod_mult2_eq [of "a * B + r" B p] by (simp add: mult.commute)

lemma mod_pred: "0 < V \<Longrightarrow> V < p \<Longrightarrow> (V + (p - 1)) mod p = V - (1 :: nat)"
proof -
  assume "0 < V" "V < p"
  then have "V + (p - 1) = (V - 1) + p" by simp
  then have "(V + (p - 1)) mod p = (V - 1) mod p" by (simp only: mod_add_self2)
  then show ?thesis using \<open>V < p\<close> by simp
qed

lemma unat_plus_one: "(w :: 32 word) + 1 \<noteq> 0 \<Longrightarrow> unat (w + 1) = unat w + 1"
  using unatSuc [of w] by (simp add: add.commute)

lemma unat_max32: "unat (- 1 :: 32 word) = 2 ^ 32 - 1"
  by (simp add: unsigned_minus_1_eq_mask mask_eq_exp_minus_1)

lemma unat_minus_1: "(w :: 32 word) \<noteq> 0 \<Longrightarrow> unat (w - 1) = unat w - 1"
  by (rule unat_minus_one)

text \<open>Both loops touch only the words up to the start index; \<open>B\<close> is the word base.\<close>

lemma inc_loop_step:
  "inc_loop ((zs @ [v]) @ w # ys) (length (zs @ [v]))
     = (if w + 1 = 0 then inc_loop (zs @ v # 0 # ys) (length zs) else (zs @ [v]) @ (w + 1) # ys)"
  by (simp add: Let_def nth_append list_update_append)

lemma dec_loop_step:
  "dec_loop ((zs @ [v]) @ w # ys) (length (zs @ [v]))
     = (if w = 0 then dec_loop (zs @ v # (- 1) # ys) (length zs) else (zs @ [v]) @ (w - 1) # ys)"
  by (simp add: Let_def nth_append list_update_append)

lemma words_be_bound: "B = 2 ^ 32 \<Longrightarrow> be_val B (map unat (ws :: 32 word list)) < B ^ length ws"
  using be_val_bound [of "map unat ws" B] unat_bound [where ?'a = 32] by auto

lemma inc_loop_val:
  assumes B: "B = 2 ^ 32"
  shows "\<exists>P. inc_loop (xs @ w # ys) (length xs) = P @ ys \<and> length P = Suc (length xs)
     \<and> be_val B (map unat P) = (be_val B (map unat (xs @ [w])) + 1) mod B ^ Suc (length xs)"
proof (induction xs arbitrary: w ys rule: rev_induct)
  case Nil
  have "unat (w + 1) = (unat w + 1) mod B" by (simp add: unat_word_ariths B)
  then show ?case by (intro exI [of _ "[w + 1]"]) simp
next
  case (snoc v zs)
  let ?V = "be_val B (map unat (zs @ [v]))" and ?p = "B ^ Suc (length zs)"
  show ?case
  proof (cases "w + 1 = 0")
    case True
    then have "w = - 1" by (simp add: eq_neg_iff_add_eq_0)
    then have w: "unat w + 1 = B" by (simp add: unat_max32 B)
    obtain P where P: "inc_loop (zs @ v # 0 # ys) (length zs) = P @ 0 # ys"
      "length P = Suc (length zs)" "be_val B (map unat P) = (?V + 1) mod ?p"
      using snoc.IH [of v "0 # ys"] by auto
    have "(?V * B + unat w + 1) mod (?p * B) = (?V + 1) mod ?p * B"
      using mod_digit [of 0 B "?V + 1" ?p] w B by (simp add: algebra_simps)
    then show ?thesis
      unfolding inc_loop_step using True P by (intro exI [of _ "P @ [0]"]) (simp add: algebra_simps)
  next
    case False
    then show ?thesis
      unfolding inc_loop_step using unat_plus_one [OF False] words_be_bound [OF B, of "(zs @ [v]) @ [w + 1]"]
      by (intro exI [of _ "(zs @ [v]) @ [w + 1]"]) simp
  qed
qed

lemma dec_loop_val:
  assumes B: "B = 2 ^ 32"
  shows "\<exists>P. dec_loop (xs @ w # ys) (length xs) = P @ ys \<and> length P = Suc (length xs)
     \<and> be_val B (map unat P)
         = (be_val B (map unat (xs @ [w])) + (B ^ Suc (length xs) - 1)) mod B ^ Suc (length xs)"
proof (induction xs arbitrary: w ys rule: rev_induct)
  case Nil
  have "unat (w - 1) = (unat w + (B - 1)) mod B"
  proof (cases "w = 0")
    case True
    then show ?thesis by (simp add: unat_max32 B)
  next
    case False
    then show ?thesis
      using unat_minus_1 [OF False] mod_pred [of "unat w" B] unat_bound [of w] by (simp add: B unat_gt_0)
  qed
  then show ?case by (intro exI [of _ "[w - 1]"]) simp
next
  case (snoc v zs)
  let ?V = "be_val B (map unat (zs @ [v]))" and ?p = "B ^ Suc (length zs)"
  have p: "0 < ?p" and b: "0 < B" and mx: "unat (- 1 :: 32 word) = B - 1"
    by (simp_all add: B unat_max32)
  show ?case
  proof (cases "w = 0")
    case True
    obtain P where P: "dec_loop (zs @ v # (- 1) # ys) (length zs) = P @ (- 1) # ys"
      "length P = Suc (length zs)" "be_val B (map unat P) = (?V + (?p - 1)) mod ?p"
      using snoc.IH [of v "(- 1) # ys"] by auto
    have "?V * B + (?p * B - 1) = (?V + (?p - 1)) * B + (B - 1)"
      using p b by (cases ?p; cases B) (simp_all add: algebra_simps)
    then have "(?V * B + (?p * B - 1)) mod (?p * B) = (?V + (?p - 1)) mod ?p * B + (B - 1)"
      using mod_digit [of "B - 1" B "?V + (?p - 1)" ?p] b by simp
    then show ?thesis
      unfolding dec_loop_step using True P mx
      by (intro exI [of _ "P @ [- 1]"]) (simp add: algebra_simps)
  next
    case False
    then have w: "0 < unat w" by (simp add: unat_gt_0)
    have "(?V * B + unat w + (?p * B - 1)) mod (?p * B) = ?V * B + unat w - 1"
      using w words_be_bound [OF B, of "(zs @ [v]) @ [w]"] by (intro mod_pred) (simp_all add: algebra_simps)
    then show ?thesis
      unfolding dec_loop_step using False w unat_minus_1 [OF False]
      by (intro exI [of _ "(zs @ [v]) @ [w - 1]"]) (simp add: algebra_simps)
  qed
qed

lemma uint_inc_words:
  assumes "pn u \<noteq> []"
  shows "words_val (uint_inc u) = (words_val u + 1) mod (2 ^ 32) ^ length (pn u)"
    and "length (pn (uint_inc u)) = length (pn u)"
proof -
  obtain xs w where u: "pn u = xs @ [w]" using assms by (cases "pn u" rule: rev_exhaust) auto
  from inc_loop_val [OF refl, of xs w "[]"] show "words_val (uint_inc u) = (words_val u + 1) mod (2 ^ 32) ^ length (pn u)"
    and "length (pn (uint_inc u)) = length (pn u)"
    by (auto simp: words_val_def uint_inc_def u)
qed

lemma uint_dec_words:
  assumes "pn u \<noteq> []"
  shows "words_val (uint_dec u) = (words_val u + ((2 ^ 32) ^ length (pn u) - 1)) mod (2 ^ 32) ^ length (pn u)"
    and "length (pn (uint_dec u)) = length (pn u)"
proof -
  obtain xs w where u: "pn u = xs @ [w]" using assms by (cases "pn u" rule: rev_exhaust) auto
  from dec_loop_val [OF refl, of xs w "[]"]
  show "words_val (uint_dec u) = (words_val u + ((2 ^ 32) ^ length (pn u) - 1)) mod (2 ^ 32) ^ length (pn u)"
    and "length (pn (uint_dec u)) = length (pn u)"
    by (auto simp: words_val_def uint_dec_def u)
qed

lemma words_val_inj:
  assumes "length (pn u) = length (pn v)" "words_val u = words_val v"
  shows "u = v"
proof -
  have "map unat (pn u) = map unat (pn v)"
    using assms unat_bound [where ?'a = 32] by (intro be_val_inj [of _ _ "2 ^ 32"]) (auto simp: words_val_def)
  then have "pn u = pn v" using map_injective [of unat "pn u" "pn v"] by (simp add: inj_def word_unat_eq_iff)
  then show ?thesis by simp
qed

lemma words_val_bound: "words_val u < (2 ^ 32) ^ length (pn u)"
  unfolding words_val_def using words_be_bound [OF refl, of "pn u"] by simp

section \<open>Hex text\<close>

lemma phexdigit_hexUpper: "d < 16 \<Longrightarrow> phexdigit (hexUpper d) = int d"
proof -
  assume "d < 16"
  then have "d \<in> set [0..<16]" by simp
  moreover have "\<forall>d\<in>set [0..<16]. phexdigit (hexUpper d) = int d" by code_simp
  ultimately show ?thesis by blast
qed

lemma hexUpper_plain:
  "d < 16 \<Longrightarrow> hexUpper d \<noteq> CHR 0x00 \<and> \<not> isspace (hexUpper d) \<and> hexUpper d \<noteq> CHR ''x'' \<and> hexUpper d \<noteq> CHR ''X''"
proof -
  assume "d < 16"
  then have "d \<in> set [0..<16]" by simp
  moreover have "\<forall>d\<in>set [0..<16]. hexUpper d \<noteq> CHR 0x00 \<and> \<not> isspace (hexUpper d) \<and> hexUpper d \<noteq> CHR ''x'' \<and> hexUpper d \<noteq> CHR ''X''"
    unfolding isspace_def by code_simp
  ultimately show ?thesis by blast
qed

lemma nibbles: "push_bit 4 (word_of_int (int (unat b div 16))) OR word_of_int (int (unat b mod 16)) = (b :: byte)"
proof -
  have "word_of_int (int (unat b div 16)) = drop_bit 4 b"
    by (simp only: uint_hi [symmetric] word_of_int_uint)
  moreover have "word_of_int (int (unat b mod 16)) = take_bit 4 b"
    by (simp only: uint_lo [symmetric] word_of_int_uint and_15)
  moreover have "push_bit 4 (drop_bit 4 b) OR take_bit 4 b = b"
    by (rule bit_word_eqI) (auto simp: bit_simps)
  ultimately show ?thesis by simp
qed

lemma SetHex_loop_strHex [simp]: "SetHex_loop (strHex bs) = bs"
  by (induction bs) (simp_all add: sprintf_02X_def phexdigit_hexUpper nibbles [simplified])

lemma strHex_chars: "c \<in> set (strHex bs) \<Longrightarrow> \<exists>d<16. c = hexUpper d"
proof (induction bs)
  case (Cons b bs)
  then consider "c = hexUpper (unat b div 16)" | "c = hexUpper (unat b mod 16)" | "c \<in> set (strHex bs)"
    by (auto simp: sprintf_02X_def)
  then show ?case
  proof cases
    case 1
    then show ?thesis by (intro exI [of _ "unat b div 16"]) simp
  next
    case 2
    then show ?thesis by (intro exI [of _ "unat b mod 16"]) simp
  qed (rule Cons.IH)
qed simp

lemma SetHex_text_strHex:
  "skip_0x (dropWhile isspace (c_str (strHex bs))) = strHex bs"
  "takeWhile (\<lambda>c. phexdigit c \<ge> 0) (strHex bs) = strHex bs"
proof -
  have "c_str (strHex bs) = strHex bs"
    unfolding c_str_def takeWhile_eq_all_conv by (metis strHex_chars hexUpper_plain)
  moreover have "dropWhile isspace (strHex bs) = strHex bs"
    by (cases bs) (auto simp: sprintf_02X_def hexUpper_plain [OF byte_div_16])
  moreover have "skip_0x (strHex bs) = strHex bs"
    using hexUpper_plain [of "unat (hd bs) mod 16"] by (cases bs) (auto simp: sprintf_02X_def)
  ultimately show "skip_0x (dropWhile isspace (c_str (strHex bs))) = strHex bs" by simp
  show "takeWhile (\<lambda>c. phexdigit c \<ge> 0) (strHex bs) = strHex bs"
    by (auto simp: takeWhile_eq_all_conv phexdigit_hexUpper dest!: strHex_chars)
qed

lemma phexdigit_bound: "phexdigit c < 16"
proof -
  have "\<forall>x\<in>set phexdigit_table. x < 16" by code_simp
  moreover have "length phexdigit_table = 256" by code_simp
  ultimately show ?thesis
    using of_char_less_256 [of c] by (auto simp: phexdigit_def)
qed

text \<open>The number a digit string denotes.\<close>

definition hex_val :: "string \<Rightarrow> nat" where
  "hex_val ds = be_val 16 (map (\<lambda>c. nat (phexdigit c)) ds)"

lemma unat_word_digit: "0 \<le> d \<Longrightarrow> d < 16 \<Longrightarrow> unat (word_of_int d :: byte) = nat d"
  by (simp add: unsigned_of_int nat_take_bit_eq take_bit_nat_eq)

lemma unat_hi_or_lo:
  assumes "0 \<le> h" "h < 16" "0 \<le> l" "l < 16"
  shows "unat (push_bit 4 (word_of_int h) OR word_of_int l :: byte) = nat h * 16 + nat l"
proof -
  have "take_bit 4 l = l" using assms by (simp add: take_bit_int_eq_self)
  then have nb: "\<not> bit l n" if "4 \<le> n" for n using that bit_take_bit_iff [of 4 l n] by simp
  have "push_bit 4 (word_of_int h) OR word_of_int l = push_bit 4 (word_of_int h) + (word_of_int l :: byte)"
    by (subst disjunctive_add) (auto simp: bit_simps nb)
  also have "unat \<dots> = nat h * 16 + nat l"
    using assms by (simp add: unat_word_ariths push_bit_eq_mult unat_word_digit)
  finally show ?thesis .
qed

lemma SetHex_loop_val:
  "\<forall>c\<in>set ds. 0 \<le> phexdigit c \<Longrightarrow>
   bytes_val (SetHex_loop ds) = hex_val ds * (if even (length ds) then 1 else 16)
   \<and> length (SetHex_loop ds) = (length ds + 1) div 2"
proof (induction ds rule: SetHex_loop.induct)
  case 1
  show ?case by (simp add: hex_val_def)
next
  case (2 h)
  then show ?case
    using unat_hi_or_lo [of "phexdigit h" 0] phexdigit_bound [of h] by (simp add: hex_val_def)
next
  case (3 h l rest)
  have len: "(256::nat) ^ ((length rest + 1) div 2) = 16 ^ length rest * (if even (length rest) then 1 else 16)"
    by (auto simp: power_mult elim!: evenE oddE)
  from 3 show ?case
    using unat_hi_or_lo [of "phexdigit h" "phexdigit l"] phexdigit_bound [of h] phexdigit_bound [of l] len
    by (auto simp: hex_val_def algebra_simps)
qed

lemma hex_val_drop: "\<forall>c\<in>set ds. 0 \<le> phexdigit c \<Longrightarrow> k \<le> length ds \<Longrightarrow>
   hex_val (drop (length ds - k) ds) = hex_val ds mod 16 ^ k"
proof -
  assume ds: "\<forall>c\<in>set ds. 0 \<le> phexdigit c" and k: "k \<le> length ds"
  let ?lo = "drop (length ds - k) ds" and ?hi = "take (length ds - k) ds"
  have "hex_val (?hi @ ?lo) = hex_val ?hi * 16 ^ length ?lo + hex_val ?lo"
    by (simp add: hex_val_def del: append_take_drop_id)
  moreover have "hex_val ?lo < 16 ^ length ?lo"
    unfolding hex_val_def using ds phexdigit_bound
    by (intro be_val_bound [THEN less_le_trans]) (auto dest!: in_set_dropD simp: nat_less_iff)
  ultimately show ?thesis using k by simp
qed

text \<open>What \<^verbatim>\<open>SetHex\<close> reads: the digits after leading spaces and an optional \<^verbatim>\<open>0x\<close>.\<close>

definition hex_digits :: "string \<Rightarrow> string" where
  "hex_digits str = takeWhile (\<lambda>c. phexdigit c \<ge> 0) (skip_0x (dropWhile isspace (c_str str)))"

lemma set_hex_digits: "\<forall>c\<in>set (hex_digits str). 0 \<le> phexdigit c"
  by (auto simp: hex_digits_def dest: set_takeWhileD)

lemma bytes_val_pad [simp]: "bytes_val (replicate n 0 @ bs) = bytes_val bs"
  by simp

section \<open>Properties\<close>

text \<open>C21: On values of one width, \<^verbatim>\<open>compare\<close> decides the order of the numbers the byte
  ranges denote, and all six comparison operators follow it; equality of values is equality of the
  objects.\<close>

theorem uint_compare_order:
  assumes "uint_size a = uint_size b"
  shows "(uint_lt a b \<longleftrightarrow> uint_val a < uint_val b) \<and> (uint_le a b \<longleftrightarrow> uint_val a \<le> uint_val b)
    \<and> (uint_gt a b \<longleftrightarrow> uint_val a > uint_val b) \<and> (uint_ge a b \<longleftrightarrow> uint_val a \<ge> uint_val b)
    \<and> (uint_eq a b \<longleftrightarrow> a = b) \<and> (uint_ne a b \<longleftrightarrow> a \<noteq> b)"
  using compare_loop_val [of "uint_bytes a" "uint_bytes b"] assms uint_val_inj [OF assms]
  by (auto simp: uint_lt_def uint_le_def uint_gt_def uint_ge_def uint_eq_def uint_ne_def
      uint_compare_def uint_val_def)

theorem uint_compare_order_witness:
  "uint_lt \<lparr>pn = [0, 0x01000000]\<rparr> \<lparr>pn = [0, 0x00010000]\<rparr>"
proof -
  have "uint_val \<lparr>pn = [0, 0x01000000]\<rparr> < uint_val \<lparr>pn = [0, 0x00010000]\<rparr>" by code_simp
  then show ?thesis
    using uint_compare_order [of "\<lparr>pn = [0, 0x01000000]\<rparr>" "\<lparr>pn = [0, 0x00010000]\<rparr>"]
    by (simp add: uint_size_def)
qed

text \<open>Assigning a \<^verbatim>\<open>uint64\<close> to a value of at least two words gives the value that
  denotes this number and keeps the width.\<close>

theorem uint_assign_u64_val:
  assumes "2 \<le> WIDTH"
  shows "uint_val (uint_assign_u64 WIDTH b) = unat b \<and> uint_size (uint_assign_u64 WIDTH b) = 4 * WIDTH"
proof -
  let ?bs = "replicate (4 * WIDTH - 8) 0 @ htobe64_bytes b"
  have len: "length ?bs = 4 * WIDTH" using assms by (simp add: htobe64_bytes_def)
  then have "uint_assign_u64 WIDTH b = of_uint_bytes ?bs" by (simp add: uint_assign_u64_def)
  with len show ?thesis by (simp add: uint_val_def)
qed

theorem uint_assign_u64_val_witness:
  "uint_val (uint_assign_u64 8 0x0102030405060708) = 0x0102030405060708"
  using uint_assign_u64_val [of 8 "0x0102030405060708"] by simp

text \<open>\<^verbatim>\<open>SetHex\<close> reads back what \<^verbatim>\<open>GetHex\<close> prints, at every width.\<close>

theorem SetHex_GetHex: "uint_SetHex (length (pn u)) (uint_GetHex u) = u"
proof -
  have "length (strHex (uint_bytes u)) = 2 * (4 * length (pn u))"
    by (simp add: uint_size_def)
  then show ?thesis
    by (simp add: uint_SetHex_def uint_GetHex_def Let_def SetHex_text_strHex uint_size_def)
qed

text \<open>C35: The value \<^verbatim>\<open>SetHex\<close> stores, for every text: the number of an even count of
  digits, the number modulo the width when there are too many digits, and sixteen times the number
  when the count is odd, because the last digit is put in the high half of its byte.\<close>

theorem SetHex_val:
  "uint_val (uint_SetHex WIDTH str) =
     (let ds = hex_digits str in
      if length ds > 8 * WIDTH then hex_val ds mod 16 ^ (8 * WIDTH)
      else if even (length ds) then hex_val ds else 16 * hex_val ds)"
proof -
  let ?ds = "hex_digits str"
  let ?es = "if length ?ds > 8 * WIDTH then drop (length ?ds - 8 * WIDTH) ?ds else ?ds"
  let ?bs = "replicate (4 * WIDTH - (length ?es + 1) div 2) 0 @ SetHex_loop ?es"
  have dg: "\<forall>c\<in>set ?es. 0 \<le> phexdigit c"
    using set_hex_digits [of str] by (auto dest: in_set_dropD)
  have len: "length ?bs = 4 * WIDTH" using SetHex_loop_val [OF dg] by simp
  have "uint_SetHex WIDTH str = of_uint_bytes ?bs"
    by (simp add: uint_SetHex_def Let_def hex_digits_def)
  with len have "uint_val (uint_SetHex WIDTH str) = bytes_val (SetHex_loop ?es)"
    by (simp add: uint_val_def)
  then show ?thesis
    using SetHex_loop_val [OF dg] hex_val_drop [OF set_hex_digits, of "8 * WIDTH" str]
    by (simp add: Let_def)
qed

text \<open>C36: The increment and decrement operators count modulo the width when the array is
  read word by word in native order, and undo each other.\<close>

theorem uint_inc_dec:
  assumes "pn u \<noteq> []"
  shows "words_val (uint_inc u) = (words_val u + 1) mod (2 ^ 32) ^ length (pn u)
    \<and> uint_dec (uint_inc u) = u \<and> uint_inc (uint_dec u) = u"
proof (intro conjI)
  let ?M = "((2::nat) ^ 32) ^ length (pn u)"
  have M: "0 < ?M" by simp
  have ne: "pn (uint_inc u) \<noteq> []" "pn (uint_dec u) \<noteq> []"
    using assms uint_inc_words(2) [OF assms] uint_dec_words(2) [OF assms] by auto
  show "words_val (uint_inc u) = (words_val u + 1) mod ?M"
    by (rule uint_inc_words(1) [OF assms])
  have cyc: "(words_val u + 1 + (?M - 1)) mod ?M = words_val u"
    using words_val_bound [of u] M by (simp del: power_mult)
  show "uint_dec (uint_inc u) = u"
  proof (rule words_val_inj)
    show "words_val (uint_dec (uint_inc u)) = words_val u"
      using uint_dec_words(1) [OF ne(1)] uint_inc_words [OF assms] cyc mod_add_left_eq [of "words_val u + 1" ?M "?M - 1"]
      by simp
  qed (simp add: uint_dec_words(2) [OF ne(1)] uint_inc_words(2) [OF assms])
  show "uint_inc (uint_dec u) = u"
  proof (rule words_val_inj)
    show "words_val (uint_inc (uint_dec u)) = words_val u"
      using uint_inc_words(1) [OF ne(2)] uint_dec_words [OF assms] cyc
      by (simp add: mod_Suc_eq add.commute)
  qed (simp add: uint_inc_words(2) [OF ne(2)] uint_dec_words(2) [OF assms])
qed

theorem uint_inc_dec_witness:
  "uint_dec (uint_inc \<lparr>pn = [7, 0xFFFFFFFF]\<rparr>) = \<lparr>pn = [7, 0xFFFFFFFF]\<rparr>"
  using uint_inc_dec [of "\<lparr>pn = [7, 0xFFFFFFFF]\<rparr>"] by simp

text \<open>The increment does not follow the number that \<^verbatim>\<open>compare\<close> and \<^verbatim>\<open>GetHex\<close>
  see: it carries from the last native word, whose low byte is not the low byte of the number.\<close>

lemma uint_inc_not_successor:
  "uint_val (uint_inc (uint256_of_u64 7)) = 7 + 2 ^ 24"
proof -
  have "uint_bytes (uint_inc (uint256_of_u64 7)) = replicate 28 0 @ [1, 0, 0, 7]" by code_simp
  then show ?thesis by (simp only: uint_val_def bytes_val_pad) simp
qed

end
