(* ===== verification/Key.thy ===== *)
theory Key
  imports Uint256
begin

text \<open>
  \<^verbatim>\<open>shared/key.h\<close>: \<^verbatim>\<open>CKey\<close>, the owner of one OpenSSL \<^verbatim>\<open>EC_KEY\<close>. The OpenSSL
  calls are the fields of \<open>openssl_ec\<close>, a parameter of every operation; big numbers cross that
  boundary as their big-endian bytes (\<^verbatim>\<open>BN_bn2bin\<close>, \<^verbatim>\<open>BN_bin2bn\<close>).
\<close>

record 'k openssl_ec =
  EC_KEY_new_by_curve_name :: "'k option"
  EC_KEY_set_conv_form :: "'k \<Rightarrow> 'k"
  EC_KEY_generate_key :: "'k \<Rightarrow> 'k option"
  EC_KEY_dup :: "'k \<Rightarrow> 'k option"
  EC_KEY_copy :: "'k \<Rightarrow> 'k \<Rightarrow> 'k option"
  EC_KEY_get0_private_key :: "'k \<Rightarrow> bytes option"
  EC_KEY_set_private_key :: "'k \<Rightarrow> bytes \<Rightarrow> 'k option"
  o2i_ECPublicKey :: "'k \<Rightarrow> bytes \<Rightarrow> 'k option"
  i2o_ECPublicKey :: "'k \<Rightarrow> bytes"
  ECDSA_sign :: "'k \<Rightarrow> bytes \<Rightarrow> bytes option"
  ECDSA_verify :: "'k \<Rightarrow> bytes \<Rightarrow> bytes \<Rightarrow> int"

text \<open>\<open>None\<close> is the null pointer.\<close>

record 'k CKey =
  pkey :: "'k option"
  fSet :: bool

text \<open>The default constructor sets the conversion form before it tests the pointer for null, so a
  failing allocation dereferences null and the \<^verbatim>\<open>key_error\<close> is never thrown.\<close>

definition CKey_new :: "'k openssl_ec \<Rightarrow> 'k CKey result" where
  "CKey_new os = (case EC_KEY_new_by_curve_name os of
     None \<Rightarrow> Inl Undefined_behaviour
   | Some k \<Rightarrow> Inr \<lparr>pkey = Some (EC_KEY_set_conv_form os k), fSet = False\<rparr>)"

definition CKey_copy :: "'k openssl_ec \<Rightarrow> 'k CKey \<Rightarrow> 'k CKey result" where
  "CKey_copy os b = (case pkey b of
     None \<Rightarrow> Inl Undefined_behaviour
   | Some kb \<Rightarrow> (case EC_KEY_dup os kb of
       None \<Rightarrow> Inl Undefined_behaviour
     | Some k \<Rightarrow> Inr \<lparr>pkey = Some (EC_KEY_set_conv_form os k), fSet = fSet b\<rparr>))"

definition CKey_assign :: "'k openssl_ec \<Rightarrow> 'k CKey \<Rightarrow> 'k CKey \<Rightarrow> 'k CKey result" where
  "CKey_assign os a b = (case (pkey a, pkey b) of
     (Some ka, Some kb) \<Rightarrow> (case EC_KEY_copy os ka kb of
        None \<Rightarrow> Inl (Key_error ''CKey::operator=(const CKey&) : EC_KEY_copy failed'')
      | Some k \<Rightarrow> Inr \<lparr>pkey = Some k, fSet = fSet b\<rparr>)
   | _ \<Rightarrow> Inl (Key_error ''CKey::operator=(const CKey&) : EC_KEY_copy failed''))"

definition IsNull :: "'k CKey \<Rightarrow> bool" where
  "IsNull ck = (\<not> fSet ck)"

definition MakeNewKey :: "'k openssl_ec \<Rightarrow> ('k CKey, unit) action" where
  "MakeNewKey os ck = (case Option.bind (pkey ck) (EC_KEY_generate_key os) of
     None \<Rightarrow> (Inl (Key_error ''CKey::MakeNewKey() : EC_KEY_generate_key failed''), ck)
   | Some k \<Rightarrow> (Inr (), \<lparr>pkey = Some (EC_KEY_set_conv_form os k), fSet = True\<rparr>))"

text \<open>\<^verbatim>\<open>BN_bn2bin\<close> writes the number right-aligned in the zeroed 32 bytes; a longer number
  would be written before the buffer.\<close>

definition GetPrivateKeyU :: "'k openssl_ec \<Rightarrow> 'k CKey \<Rightarrow> base_uint result" where
  "GetPrivateKeyU os ck = (case pkey ck of
     None \<Rightarrow> Inl Undefined_behaviour
   | Some k \<Rightarrow> (case EC_KEY_get0_private_key os k of
       None \<Rightarrow> Inl (Key_error ''CKey::GetPrivateKeyU: EC_KEY_get0_private_key failed'')
     | Some bn \<Rightarrow>
         if length bn > 32 then Inl Undefined_behaviour
         else Inr (of_uint_bytes (take (32 - length bn) (uint_bytes (uint_zero 8)) @ bn))))"

definition SetPrivateKeyU :: "'k openssl_ec \<Rightarrow> base_uint \<Rightarrow> bool \<Rightarrow> ('k CKey, bool) action" where
  "SetPrivateKeyU os key bThrow ck = (case pkey ck of
     None \<Rightarrow> (Inl Undefined_behaviour, ck)
   | Some k \<Rightarrow> (case EC_KEY_set_private_key os k (uint_bytes key) of
       Some k' \<Rightarrow> (Inr True, ck\<lparr>pkey := Some k', fSet := True\<rparr>)
     | None \<Rightarrow>
         if bThrow then (Inl (Key_error ''CKey::SetPrivateKeyU: EC_KEY_set_private_key failed''), ck)
         else (Inr False, ck)))"

text \<open>The constructor from a private key starts from a null \<^verbatim>\<open>pkey\<close>.\<close>

definition CKey_of_private :: "'k openssl_ec \<Rightarrow> base_uint \<Rightarrow> 'k CKey result" where
  "CKey_of_private os privateKey =
     (case SetPrivateKeyU os privateKey False \<lparr>pkey = None, fSet = False\<rparr> of
        (Inl e, _) \<Rightarrow> Inl e
      | (Inr _, ck) \<Rightarrow> Inr ck)"

definition SetPubKey_ptr :: "'k openssl_ec \<Rightarrow> bytes \<Rightarrow> ('k CKey, bool) action" where
  "SetPubKey_ptr os ptr ck = (case pkey ck of
     None \<Rightarrow> (Inr False, ck)
   | Some k \<Rightarrow> (case o2i_ECPublicKey os k ptr of
       None \<Rightarrow> (Inr False, ck)
     | Some k' \<Rightarrow> (Inr True, \<lparr>pkey = Some (EC_KEY_set_conv_form os k'), fSet = True\<rparr>)))"

text \<open>\<^verbatim>\<open>&vchPubKey[0]\<close> of an empty vector is undefined.\<close>

definition SetPubKey :: "'k openssl_ec \<Rightarrow> bytes \<Rightarrow> ('k CKey, bool) action" where
  "SetPubKey os vchPubKey ck =
     (if vchPubKey = [] then (Inl Undefined_behaviour, ck) else SetPubKey_ptr os vchPubKey ck)"

definition GetPubKey :: "'k openssl_ec \<Rightarrow> 'k CKey \<Rightarrow> bytes result" where
  "GetPubKey os ck = (let enc = (case pkey ck of None \<Rightarrow> [] | Some k \<Rightarrow> i2o_ECPublicKey os k) in
     if \<not> length enc \<le> 33 then Inl Assert_failed
     else if length enc = 0 then Inl (Key_error ''CKey::GetPubKey() : i2o_ECPublicKey failed'')
     else Inr (enc @ replicate (33 - length enc) 0))"

definition Sign :: "'k openssl_ec \<Rightarrow> 'k CKey \<Rightarrow> base_uint \<Rightarrow> bytes option result" where
  "Sign os ck hash = (case pkey ck of
     None \<Rightarrow> Inl Undefined_behaviour
   | Some k \<Rightarrow> (case ECDSA_sign os k (uint_bytes hash) of
       None \<Rightarrow> Inr None
     | Some sig \<Rightarrow>
         if length sig > 10000 \<or> sig = [] then Inl Undefined_behaviour else Inr (Some sig)))"

definition Verify_ptr :: "'k openssl_ec \<Rightarrow> 'k CKey \<Rightarrow> base_uint \<Rightarrow> bytes \<Rightarrow> bool result" where
  "Verify_ptr os ck hash sig = (case pkey ck of
     None \<Rightarrow> Inl Undefined_behaviour
   | Some k \<Rightarrow> (if ECDSA_verify os k (uint_bytes hash) sig \<noteq> 1 then Inr False else Inr True))"

definition Verify :: "'k openssl_ec \<Rightarrow> 'k CKey \<Rightarrow> base_uint \<Rightarrow> bytes \<Rightarrow> bool result" where
  "Verify os ck hash vchSig =
     (if vchSig = [] then Inl Undefined_behaviour else Verify_ptr os ck hash vchSig)"

section \<open>What the class relies on\<close>

text \<open>Documented behaviour of OpenSSL: the number read back from a key is the number set, in
  minimal big-endian form, and a key exists and can be assigned to.\<close>

definition minimal_bytes :: "bytes \<Rightarrow> bytes" where
  "minimal_bytes bs = dropWhile (\<lambda>b. b = 0) bs"

definition private_key_law :: "'k openssl_ec \<Rightarrow> bool" where
  "private_key_law os \<longleftrightarrow> (\<forall>k bs k'. EC_KEY_set_private_key os k bs = Some k' \<longrightarrow>
     EC_KEY_get0_private_key os k' = Some (minimal_bytes bs))"

lemma minimal_bytes_pad:
  "replicate (length bs - length (minimal_bytes bs)) 0 @ minimal_bytes bs = bs"
proof -
  have "takeWhile (\<lambda>b. b = 0) bs @ minimal_bytes bs = bs"
    by (simp add: minimal_bytes_def)
  moreover have "length bs - length (minimal_bytes bs) = length (takeWhile (\<lambda>b. b = 0) bs)"
    by (metis add_diff_cancel_right' length_append calculation)
  ultimately show ?thesis by (metis replicate_takeWhile)
qed

lemma length_minimal_bytes: "length (minimal_bytes bs) \<le> length bs"
  by (simp add: minimal_bytes_def length_dropWhile_le)

section \<open>Properties\<close>

text \<open>A 256-bit private key set on a key is the key read back, leading zero bytes
  included, and setting it marks the key as set.\<close>

theorem private_key_roundtrip:
  assumes "private_key_law os" and "uint_size key = 32"
    and "SetPrivateKeyU os key bThrow ck = (Inr True, ck')"
  shows "GetPrivateKeyU os ck' = Inr key \<and> \<not> IsNull ck'"
proof -
  from assms(3) obtain k k' where k: "EC_KEY_set_private_key os k (uint_bytes key) = Some k'"
    and ck': "ck' = ck\<lparr>pkey := Some k', fSet := True\<rparr>"
    by (auto simp: SetPrivateKeyU_def split: option.splits if_splits)
  let ?m = "minimal_bytes (uint_bytes key)"
  have "EC_KEY_get0_private_key os k' = Some ?m"
    using assms(1) k by (simp add: private_key_law_def)
  moreover have "length ?m \<le> 32"
    using length_minimal_bytes [of "uint_bytes key"] assms(2) by simp
  moreover have "replicate (32 - length ?m) 0 @ ?m = uint_bytes key"
    using minimal_bytes_pad [of "uint_bytes key"] assms(2) by simp
  ultimately show ?thesis by (simp add: GetPrivateKeyU_def IsNull_def ck')
qed

text \<open>An instance of the parameters: a key is its private number.\<close>

definition toy_ec :: "bytes openssl_ec" where
  "toy_ec = \<lparr>EC_KEY_new_by_curve_name = Some [], EC_KEY_set_conv_form = (\<lambda>k. k),
     EC_KEY_generate_key = (\<lambda>k. Some [5]), EC_KEY_dup = Some, EC_KEY_copy = (\<lambda>a b. Some b),
     EC_KEY_get0_private_key = Some, EC_KEY_set_private_key = (\<lambda>k bs. Some (minimal_bytes bs)),
     o2i_ECPublicKey = (\<lambda>k bs. Some bs), i2o_ECPublicKey = (\<lambda>k. k),
     ECDSA_sign = (\<lambda>k h. Some (k @ h)), ECDSA_verify = (\<lambda>k h s. if s = k @ h then 1 else 0)\<rparr>"

theorem private_key_roundtrip_witness:
  "GetPrivateKeyU toy_ec \<lparr>pkey = Some [7], fSet = True\<rparr> = Inr \<lparr>pn = [0, 0, 0, 0, 0, 0, 0, 0x07000000]\<rparr>"
proof -
  have "private_key_law toy_ec" by (simp add: private_key_law_def toy_ec_def)
  moreover have "uint_size \<lparr>pn = [0, 0, 0, 0, 0, 0, 0, 0x07000000]\<rparr> = 32" by (simp add: uint_size_def)
  moreover have "minimal_bytes (uint_bytes \<lparr>pn = [0, 0, 0, 0, 0, 0, 0, 0x07000000]\<rparr>) = [7]" by code_simp
  then have "SetPrivateKeyU toy_ec \<lparr>pn = [0, 0, 0, 0, 0, 0, 0, 0x07000000]\<rparr> False
      \<lparr>pkey = Some [], fSet = False\<rparr> = (Inr True, \<lparr>pkey = Some [7], fSet = True\<rparr>)"
    by (simp add: SetPrivateKeyU_def toy_ec_def)
  ultimately show ?thesis using private_key_roundtrip by blast
qed

text \<open>The constructor that takes a private key never returns a key.\<close>

lemma CKey_of_private_broken: "CKey_of_private os privateKey = Inl Undefined_behaviour"
  by (simp add: CKey_of_private_def SetPrivateKeyU_def)

end
