(* ===== verification/Serializer.thy ===== *)
theory Serializer
  imports Key
begin

text \<open>
  \<^verbatim>\<open>shared/Serializer.cpp\<close> and \<^verbatim>\<open>shared/Serializer.h\<close>: the byte buffer that all
  wire and ledger data goes through, and the cursor that reads it. Writers are actions on the
  buffer; readers return \<open>Inr None\<close> where the code returns \<^verbatim>\<open>false\<close>. Offsets are the
  \<^verbatim>\<open>int\<close> of the code: sums that overflow, and reads before or behind the buffer, are
  \<open>Undefined_behaviour\<close>. Out parameters are not modelled on the paths that return
  \<^verbatim>\<open>false\<close>: no caller reads them.
\<close>

record serializer =
  mData :: bytes

section \<open>Writers\<close>

definition add_bytes :: "bytes \<Rightarrow> serializer \<Rightarrow> int \<times> serializer" where
  "add_bytes bs s = (to_int (int (length (mData s))), s\<lparr>mData := mData s @ bs\<rparr>)"

definition addZeros :: "nat \<Rightarrow> serializer \<Rightarrow> int \<times> serializer" where
  "addZeros uBytes = add_bytes (replicate uBytes 0)"

definition bytes16 :: "16 word \<Rightarrow> bytes" where
  "bytes16 i = [ucast (drop_bit 8 i), ucast (i AND 0xFF)]"

definition bytes32 :: "32 word \<Rightarrow> bytes" where
  "bytes32 i = [ucast (drop_bit 24 i), ucast (drop_bit 16 i AND 0xFF), ucast (drop_bit 8 i AND 0xFF),
     ucast (i AND 0xFF)]"

definition bytes64 :: "64 word \<Rightarrow> bytes" where
  "bytes64 i = [ucast (drop_bit 56 i), ucast (drop_bit 48 i AND 0xFF), ucast (drop_bit 40 i AND 0xFF),
     ucast (drop_bit 32 i AND 0xFF), ucast (drop_bit 24 i AND 0xFF), ucast (drop_bit 16 i AND 0xFF),
     ucast (drop_bit 8 i AND 0xFF), ucast (i AND 0xFF)]"

definition add8 :: "byte \<Rightarrow> serializer \<Rightarrow> int \<times> serializer" where
  "add8 b = add_bytes [b]"

definition add16 :: "16 word \<Rightarrow> serializer \<Rightarrow> int \<times> serializer" where
  "add16 i = add_bytes (bytes16 i)"

definition add32 :: "32 word \<Rightarrow> serializer \<Rightarrow> int \<times> serializer" where
  "add32 i = add_bytes (bytes32 i)"

definition add64 :: "64 word \<Rightarrow> serializer \<Rightarrow> int \<times> serializer" where
  "add64 i = add_bytes (bytes64 i)"

definition add128 :: "base_uint \<Rightarrow> serializer \<Rightarrow> int \<times> serializer" where
  "add128 i = add_bytes (uint_bytes i)"

definition add160 :: "base_uint \<Rightarrow> serializer \<Rightarrow> int \<times> serializer" where
  "add160 i = add_bytes (uint_bytes i)"

definition add256 :: "base_uint \<Rightarrow> serializer \<Rightarrow> int \<times> serializer" where
  "add256 i = add_bytes (uint_bytes i)"

definition addRaw :: "bytes \<Rightarrow> serializer \<Rightarrow> int \<times> serializer" where
  "addRaw v = add_bytes v"

definition addRaw_s :: "serializer \<Rightarrow> serializer \<Rightarrow> int \<times> serializer" where
  "addRaw_s t = add_bytes (mData t)"

text \<open>\<^verbatim>\<open>addRaw(ptr, len)\<close>, where \<open>buf\<close> is the memory readable at \<^verbatim>\<open>ptr\<close>.\<close>

definition addRaw_ptr :: "bytes \<Rightarrow> int \<Rightarrow> (serializer, int) action" where
  "addRaw_ptr buf len s = (case vec_range buf 0 len of
     Inl e \<Rightarrow> (Inl e, s)
   | Inr bs \<Rightarrow> (let (ret, s') = add_bytes bs s in (Inr ret, s')))"

section \<open>Fixed-width readers\<close>

text \<open>\<^verbatim>\<open>(offset + n) > mData.size()\<close>: a signed sum, converted to \<^verbatim>\<open>size_t\<close> for the
  comparison.\<close>

definition beyond :: "serializer \<Rightarrow> int \<Rightarrow> int \<Rightarrow> bool result" where
  "beyond s offset n = ebind (int_add offset n) (\<lambda>e. Inr (to_size_t e > int (length (mData s))))"

definition read_at :: "serializer \<Rightarrow> int \<Rightarrow> int \<Rightarrow> bytes option result" where
  "read_at s offset n = ebind (beyond s offset n) (\<lambda>b.
     if b then Inr None else ebind (vec_range (mData s) offset n) (\<lambda>bs. Inr (Some bs)))"

definition join_bytes :: "bytes \<Rightarrow> 'a::len word" where
  "join_bytes bs = foldl (\<lambda>o' b. push_bit 8 o' OR ucast b) (ucast (hd bs)) (tl bs)"

definition map_read :: "('a \<Rightarrow> 'b) \<Rightarrow> 'a option result \<Rightarrow> 'b option result" where
  "map_read f r = ebind r (\<lambda>x. Inr (map_option f x))"

definition get16 :: "serializer \<Rightarrow> int \<Rightarrow> 16 word option result" where
  "get16 s offset = map_read join_bytes (read_at s offset 2)"

definition get32 :: "serializer \<Rightarrow> int \<Rightarrow> 32 word option result" where
  "get32 s offset = map_read join_bytes (read_at s offset 4)"

definition get64 :: "serializer \<Rightarrow> int \<Rightarrow> 64 word option result" where
  "get64 s offset = map_read join_bytes (read_at s offset 8)"

definition get128 :: "serializer \<Rightarrow> int \<Rightarrow> base_uint option result" where
  "get128 s offset = map_read of_uint_bytes (read_at s offset (128 div 8))"

definition get160 :: "serializer \<Rightarrow> int \<Rightarrow> base_uint option result" where
  "get160 s offset = map_read of_uint_bytes (read_at s offset (160 div 8))"

definition get256 :: "serializer \<Rightarrow> int \<Rightarrow> base_uint option result" where
  "get256 s offset = map_read of_uint_bytes (read_at s offset (256 div 8))"

text \<open>The overload that returns the value: the zero default when the read is out of range.\<close>

definition get256_value :: "serializer \<Rightarrow> int \<Rightarrow> base_uint result" where
  "get256_value s offset = ebind (get256 s offset) (\<lambda>r.
     Inr (case r of None \<Rightarrow> uint_zero 8 | Some v \<Rightarrow> v))"

text \<open>The comparison of \<^verbatim>\<open>get8\<close> converts the offset itself, so a negative one is out of
  range.\<close>

definition get8 :: "serializer \<Rightarrow> int \<Rightarrow> int option" where
  "get8 s offset =
     (if to_size_t offset \<ge> int (length (mData s)) then None
      else Some (uint (mData s ! nat (to_size_t offset))))"

definition getRaw :: "serializer \<Rightarrow> int \<Rightarrow> int \<Rightarrow> bytes option result" where
  "getRaw s offset len = read_at s offset len"

definition getRaw_value :: "serializer \<Rightarrow> int \<Rightarrow> int \<Rightarrow> bytes result" where
  "getRaw_value s offset len = ebind (getRaw s offset len) (\<lambda>r.
     Inr (case r of None \<Rightarrow> [] | Some bs \<Rightarrow> bs))"

definition chop :: "int \<Rightarrow> serializer \<Rightarrow> bool \<times> serializer" where
  "chop n s =
     (if to_size_t n > int (length (mData s)) then (False, s)
      else (True, s\<lparr>mData := take (length (mData s) - nat (to_size_t n)) (mData s)\<rparr>))"

definition removeLastByte :: "(serializer, int) action" where
  "removeLastByte s = (let sz = to_int (int (length (mData s)) - 1) in
     if sz < 0 then (Inl Assert_failed, s)
     else (Inr (uint (mData s ! nat sz)), s\<lparr>mData := take (nat sz) (mData s)\<rparr>))"

definition getLength :: "serializer \<Rightarrow> int" where
  "getLength s = to_int (int (length (mData s)))"

definition getString :: "serializer \<Rightarrow> string result" where
  "getString s =
     (if mData s = [] then Inl Undefined_behaviour else Inr (map char_of_byte (mData s)))"

definition erase :: "serializer \<Rightarrow> serializer" where
  "erase s = s\<lparr>mData := []\<rparr>"

definition secureErase :: "serializer \<Rightarrow> serializer result" where
  "secureErase s = (if mData s = [] then Inl Undefined_behaviour
     else Inr (erase (s\<lparr>mData := replicate (length (mData s)) 0\<rparr>)))"

section \<open>Hashes and signatures\<close>

text \<open>The digests of OpenSSL are parameters.\<close>

definition hash_size :: "bytes \<Rightarrow> int \<Rightarrow> int" where
  "hash_size d sz = (if sz < 0 \<or> to_size_t sz > int (length d) then to_int (int (length d)) else sz)"

text \<open>\<^verbatim>\<open>front()\<close> of an empty vector is undefined.\<close>

definition hash_prefix :: "bytes \<Rightarrow> int \<Rightarrow> bytes result" where
  "hash_prefix d sz =
     (if d = [] then Inl Undefined_behaviour else vec_range d 0 (hash_size d sz))"

definition getRIPEMD160 :: "(bytes \<Rightarrow> bytes) \<Rightarrow> serializer \<Rightarrow> int \<Rightarrow> base_uint result" where
  "getRIPEMD160 RIPEMD160 s sz =
     ebind (hash_prefix (mData s) sz) (\<lambda>bs. Inr (of_uint_bytes (RIPEMD160 bs)))"

definition getSHA256 :: "(bytes \<Rightarrow> bytes) \<Rightarrow> serializer \<Rightarrow> int \<Rightarrow> base_uint result" where
  "getSHA256 SHA256 s sz =
     ebind (hash_prefix (mData s) sz) (\<lambda>bs. Inr (of_uint_bytes (SHA256 bs)))"

text \<open>The digest fills two 256-bit values and the first is returned.\<close>

definition first_half :: "bytes \<Rightarrow> base_uint" where
  "first_half digest = of_uint_bytes (take 32 digest)"

definition getSHA512Half_data :: "(bytes \<Rightarrow> bytes) \<Rightarrow> bytes \<Rightarrow> int \<Rightarrow> base_uint result" where
  "getSHA512Half_data SHA512 d sz = ebind (hash_prefix d sz) (\<lambda>bs. Inr (first_half (SHA512 bs)))"

definition getSHA512Half :: "(bytes \<Rightarrow> bytes) \<Rightarrow> serializer \<Rightarrow> int \<Rightarrow> base_uint result" where
  "getSHA512Half SHA512 s sz = getSHA512Half_data SHA512 (mData s) sz"

definition getSHA512Half_ptr :: "(bytes \<Rightarrow> bytes) \<Rightarrow> bytes \<Rightarrow> int \<Rightarrow> base_uint result" where
  "getSHA512Half_ptr SHA512 buf len =
     ebind (vec_range buf 0 (to_size_t len)) (\<lambda>bs. Inr (first_half (SHA512 bs)))"

definition getSHA512Half_str :: "(bytes \<Rightarrow> bytes) \<Rightarrow> string \<Rightarrow> base_uint result" where
  "getSHA512Half_str SHA512 strData =
     getSHA512Half_ptr SHA512 (map byte_of_char strData @ [0]) (to_int (int (length strData)))"

definition checkSignature_at ::
  "'k openssl_ec \<Rightarrow> (bytes \<Rightarrow> bytes) \<Rightarrow> serializer \<Rightarrow> int \<Rightarrow> int \<Rightarrow> bool result" where
  "checkSignature_at os SHA512 s pubkeyOffset signatureOffset =
     ebind (getRaw s pubkeyOffset 65) (\<lambda>rp. case rp of None \<Rightarrow> Inr False | Some pubkey \<Rightarrow>
     ebind (getRaw s signatureOffset 72) (\<lambda>rs. case rs of None \<Rightarrow> Inr False | Some signature \<Rightarrow>
     ebind (CKey_new os) (\<lambda>k0. case SetPubKey os pubkey k0 of
         (Inl e, _) \<Rightarrow> Inl e
       | (Inr False, _) \<Rightarrow> Inr False
       | (Inr True, pubCKey) \<Rightarrow>
           ebind (getSHA512Half SHA512 s signatureOffset) (\<lambda>h. Verify os pubCKey h signature))))"

definition checkSignature ::
  "'k openssl_ec \<Rightarrow> (bytes \<Rightarrow> bytes) \<Rightarrow> serializer \<Rightarrow> bytes \<Rightarrow> 'k CKey \<Rightarrow> bool result" where
  "checkSignature os SHA512 s signature key =
     ebind (getSHA512Half SHA512 s (- 1)) (\<lambda>h. Verify os key h signature)"

definition makeSignature ::
  "'k openssl_ec \<Rightarrow> (bytes \<Rightarrow> bytes) \<Rightarrow> serializer \<Rightarrow> 'k CKey \<Rightarrow> bytes option result" where
  "makeSignature os SHA512 s key = ebind (getSHA512Half SHA512 s (- 1)) (\<lambda>h. Sign os key h)"

definition addSignature ::
  "'k openssl_ec \<Rightarrow> (bytes \<Rightarrow> bytes) \<Rightarrow> 'k CKey \<Rightarrow> (serializer, bool) action" where
  "addSignature os SHA512 key s =
     (case ebind (getSHA512Half SHA512 s (- 1)) (\<lambda>h. Sign os key h) of
        Inl e \<Rightarrow> (Inl e, s)
      | Inr None \<Rightarrow> (Inr False, s)
      | Inr (Some signature) \<Rightarrow>
          if length signature \<noteq> 72 then (Inl Assert_failed, s)
          else (Inr True, snd (addRaw signature s)))"

section \<open>Facts on writing\<close>

lemma mData_add_bytes [simp]: "mData (snd (add_bytes bs s)) = mData s @ bs"
  by (simp add: add_bytes_def)

lemma fst_add_bytes [simp]:
  "int (length (mData s)) \<le> INT_MAX \<Longrightarrow> fst (add_bytes bs s) = int (length (mData s))"
  by (simp add: add_bytes_def in_int_of_nat INT_MAX_def)

lemmas add_defs = add8_def add16_def add32_def add64_def add128_def add160_def add256_def
  addRaw_def addRaw_s_def addZeros_def

lemma length_fixed_bytes [simp]:
  "length (bytes16 w16) = 2" "length (bytes32 w32) = 4" "length (bytes64 w64) = 8"
  by (simp_all add: bytes16_def bytes32_def bytes64_def)

lemma join_bytes_fixed [codec_simps]:
  "join_bytes (bytes16 w16) = w16" "join_bytes (bytes32 w32) = w32" "join_bytes (bytes64 w64) = w64"
  using join16 join32 join64
  by (simp_all add: join_bytes_def bytes16_def bytes32_def bytes64_def codec_simps)

section \<open>Facts on reading\<close>

lemma to_size_t_in_int: "0 \<le> x \<Longrightarrow> x \<le> INT_MAX \<Longrightarrow> to_size_t x = x"
  by (simp add: INT_MAX_def)

lemma beyond_ok [result_simps]:
  "0 \<le> offset \<Longrightarrow> 0 \<le> n \<Longrightarrow> offset + n \<le> INT_MAX \<Longrightarrow>
   beyond s offset n = Inr (offset + n > int (length (mData s)))"
  by (simp add: beyond_def int_add_def in_int_def INT_MIN_def to_size_t_in_int)

text \<open>At an offset inside the \<^verbatim>\<open>int\<close> range a read returns the slice when it fits and
  \<^verbatim>\<open>false\<close> when it does not.\<close>

lemma read_at_cases:
  assumes "0 \<le> offset" "0 \<le> n" "offset + n \<le> INT_MAX"
  shows "read_at s offset n =
    (if offset + n \<le> int (length (mData s)) then Inr (Some (take (nat n) (drop (nat offset) (mData s))))
     else Inr None)"
  using assms by (simp add: read_at_def beyond_ok vec_range_def)

lemma read_at_middle:
  assumes "mData s = pre @ bs @ post" and "int (length (mData s)) \<le> INT_MAX"
    and "n = int (length bs)"
  shows "read_at s (int (length pre)) n = Inr (Some bs)"
  using assms by (subst read_at_cases) simp_all

lemma get8_cases:
  assumes "0 \<le> offset" "offset \<le> INT_MAX"
  shows "get8 s offset =
    (if offset < int (length (mData s)) then Some (uint (mData s ! nat offset)) else None)"
  using assms by (simp add: get8_def to_size_t_in_int)

lemma get8_middle:
  assumes "mData s = pre @ b # post" and "int (length (mData s)) \<le> INT_MAX"
  shows "get8 s (int (length pre)) = Some (uint b)"
  using assms by (subst get8_cases) simp_all

lemma map_read_simps [simp]:
  "map_read f (Inl e) = Inl e" "map_read f (Inr None) = Inr None"
  "map_read f (Inr (Some x)) = Inr (Some (f x))"
  by (simp_all add: map_read_def)

lemma map_read_eq_iff:
  "map_read f r = Inr None \<longleftrightarrow> r = Inr None"
  "map_read f r = Inr (Some y) \<longleftrightarrow> (\<exists>x. r = Inr (Some x) \<and> y = f x)"
  "map_read f r = Inl e \<longleftrightarrow> r = Inl e"
  by (auto simp: map_read_def ebind_def split: sum.splits)

lemmas fixed_read_defs = get16_def get32_def get64_def get128_def get160_def get256_def getRaw_def

lemma get8_bounds: "get8 s offset = Some b \<Longrightarrow> 0 \<le> b \<and> b < 256"
  using uint_bounded [of "mData s ! nat (to_size_t offset)"]
  by (auto simp: get8_def split: if_splits)

text \<open>\<^verbatim>\<open>get8\<close> is total: no offset makes it read outside the buffer.\<close>

lemma get8_in_range:
  "in_int offset \<Longrightarrow> get8 s offset = Some b \<Longrightarrow> int (length (mData s)) \<le> INT_MAX \<Longrightarrow>
   0 \<le> offset \<and> offset < int (length (mData s)) \<and> b = uint (mData s ! nat offset)"
proof -
  assume i: "in_int offset" and g: "get8 s offset = Some b" and l: "int (length (mData s)) \<le> INT_MAX"
  have "0 \<le> offset"
  proof (rule ccontr)
    assume "\<not> 0 \<le> offset"
    moreover have "to_size_t offset = offset + 18446744073709551616"
      using i calculation mod_pos_pos_trivial [of "offset + 18446744073709551616" "18446744073709551616"]
      by (simp add: to_size_t_def in_int_def INT_MIN_def)
    ultimately show False using i g l by (auto simp: get8_def in_int_def INT_MIN_def INT_MAX_def split: if_splits)
  qed
  then show ?thesis using i g by (auto simp: get8_cases in_int_def split: if_splits)
qed

section \<open>Properties\<close>

text \<open>A fixed-width field written at the end of a buffer is read back at the offset the
  writer returned, whatever is appended behind it, for all six widths.\<close>

theorem fixed_width_roundtrip:
  assumes "int (length (mData s)) + 32 + int (length post) \<le> INT_MAX"
    and "uint_size i128 = 16" "uint_size i160 = 20" "uint_size i256 = 32"
  shows "(case add16 i16 s of (ret, s') \<Rightarrow> get16 (snd (addRaw post s')) ret) = Inr (Some i16)
    \<and> (case add32 i32 s of (ret, s') \<Rightarrow> get32 (snd (addRaw post s')) ret) = Inr (Some i32)
    \<and> (case add64 i64 s of (ret, s') \<Rightarrow> get64 (snd (addRaw post s')) ret) = Inr (Some i64)
    \<and> (case add128 i128 s of (ret, s') \<Rightarrow> get128 (snd (addRaw post s')) ret) = Inr (Some i128)
    \<and> (case add160 i160 s of (ret, s') \<Rightarrow> get160 (snd (addRaw post s')) ret) = Inr (Some i160)
    \<and> (case add256 i256 s of (ret, s') \<Rightarrow> get256 (snd (addRaw post s')) ret) = Inr (Some i256)"
proof -
  have at: "case add_bytes bs s of (ret, s') \<Rightarrow> read_at (snd (addRaw post s')) ret n = Inr (Some bs)"
    if "n = int (length bs)" "length bs \<le> 32" for bs n
    using that assms(1) read_at_middle [of _ "mData s" bs post n]
    by (simp add: add_bytes_def addRaw_def in_int_of_nat INT_MAX_def)
  show ?thesis
    using at [of 2 "bytes16 i16"] at [of 4 "bytes32 i32"] at [of 8 "bytes64 i64"]
      at [of 16 "uint_bytes i128"] at [of 20 "uint_bytes i160"] at [of 32 "uint_bytes i256"] assms
    by (simp add: fixed_read_defs add_defs split_beta codec_simps)
qed

theorem fixed_width_roundtrip_witness:
  "(case add32 0x01020304 \<lparr>mData = [9]\<rparr> of (ret, s') \<Rightarrow> get32 (snd (addRaw [8] s')) ret)
     = Inr (Some 0x01020304)"
  using fixed_width_roundtrip [of "\<lparr>mData = [9]\<rparr>" "[8]" "uint_zero 4" "uint_zero 5" "uint_zero 8" 0 "0x01020304" 0]
  by (simp add: INT_MAX_def uint_size_def uint_zero_def)

end
