(* ===== verification/VarLen.thy ===== *)
theory VarLen
  imports Serializer
begin

text \<open>
  The variable-length part of \<^verbatim>\<open>shared/Serializer.cpp\<close>: the one to three byte length
  prefix, \<^verbatim>\<open>addVL\<close> and \<^verbatim>\<open>getVL\<close>, and the tagged lists built from them.
\<close>

section \<open>The length prefix\<close>

definition encodeVL :: "int \<Rightarrow> bytes result" where
  "encodeVL len =
     (if len \<le> 192 then Inr [word_of_int len]
      else if len \<le> 12480 then
        (let l = len - 193 in Inr [193 + word_of_int (drop_bit 8 l), word_of_int (l AND 0xFF)])
      else if len \<le> 918744 then
        (let l = len - 12481 in
         Inr [241 + word_of_int (drop_bit 16 l), word_of_int (drop_bit 8 l AND 0xFF),
           word_of_int (l AND 0xFF)])
      else Inl (Overflow_error ''lenlen''))"

text \<open>The third test is written \<^verbatim>\<open>length >= 918744\<close>.\<close>

definition encodeLengthLength :: "int \<Rightarrow> int result" where
  "encodeLengthLength len =
     (if len < 0 then Inl (Overflow_error ''len<0'')
      else if len \<le> 192 then Inr 1
      else if len \<le> 12480 then Inr 2
      else if len \<ge> 918744 then Inr 3
      else Inl (Overflow_error ''len>918644''))"

definition lengthVL :: "int \<Rightarrow> int result" where
  "lengthVL len = ebind (encodeLengthLength len) (\<lambda>n. int_add len n)"

definition decodeLengthLength :: "int \<Rightarrow> int result" where
  "decodeLengthLength b1 =
     (if b1 < 0 then Inl (Overflow_error ''b1<0'')
      else if b1 \<le> 192 then Inr 1
      else if b1 \<le> 240 then Inr 2
      else if b1 \<le> 254 then Inr 3
      else Inl (Overflow_error ''b1>254''))"

definition decodeVLLength1 :: "int \<Rightarrow> int result" where
  "decodeVLLength1 b1 =
     (if b1 < 0 then Inl (Overflow_error ''b1<0'')
      else if b1 > 254 then Inl (Overflow_error ''b1>254'')
      else Inr b1)"

definition decodeVLLength2 :: "int \<Rightarrow> int \<Rightarrow> int result" where
  "decodeVLLength2 b1 b2 =
     (if b1 < 193 then Inl (Overflow_error ''b1<193'')
      else if b1 > 240 then Inl (Overflow_error ''b1>240'')
      else int_add (193 + (b1 - 193) * 256) b2)"

definition decodeVLLength3 :: "int \<Rightarrow> int \<Rightarrow> int \<Rightarrow> int result" where
  "decodeVLLength3 b1 b2 b3 =
     (if b1 < 241 then Inl (Overflow_error ''b1<241'')
      else if b1 > 254 then Inl (Overflow_error ''b1>254'')
      else ebind (int_add 0 (b2 * 256)) (\<lambda>m.
           ebind (int_add (12481 + (b1 - 241) * 65536) m) (\<lambda>n. int_add n b3)))"

section \<open>Length-prefixed data\<close>

text \<open>\<^verbatim>\<open>encodeVL(vector.size())\<close> runs before the buffer changes; the assertion calls
  \<^verbatim>\<open>encodeLengthLength\<close> after it has.\<close>

definition addVL :: "bytes \<Rightarrow> (serializer, int) action" where
  "addVL v s =
     (let n = to_int (int (length v)) in
      case encodeVL n of
        Inl e \<Rightarrow> (Inl e, s)
      | Inr pre \<Rightarrow>
          let (ret, s1) = addRaw pre s; (_, s2) = addRaw v s1 in
          (case encodeLengthLength n of
             Inl e \<Rightarrow> (Inl e, s2)
           | Inr ll \<Rightarrow>
               if int (length (mData s2)) = to_size_t (ret + int (length v) + ll) then (Inr ret, s2)
               else (Inl Assert_failed, s2)))"

definition addVL_ptr :: "bytes \<Rightarrow> int \<Rightarrow> (serializer, int) action" where
  "addVL_ptr buf len s =
     (case encodeVL len of
        Inl e \<Rightarrow> (Inl e, s)
      | Inr pre \<Rightarrow> (let (ret, s1) = addRaw pre s in
          if len \<noteq> 0 then sbind (addRaw_ptr buf len) (\<lambda>_. slift (Inr ret)) s1 else (Inr ret, s1)))"

text \<open>The body of the \<^verbatim>\<open>try\<close> block that \<^verbatim>\<open>getVL\<close> and \<^verbatim>\<open>getVLLength\<close> share: the data
  length and the offset behind the prefix.\<close>

definition vl_length :: "serializer \<Rightarrow> int \<Rightarrow> int \<Rightarrow> int \<Rightarrow> (int \<times> int) option result" where
  "vl_length s b1 lenLen offset =
     (if lenLen = 1 then ebind (decodeVLLength1 b1) (\<lambda>d. Inr (Some (d, offset)))
      else if lenLen = 2 then
        ebind (int_add offset 1) (\<lambda>o2. case get8 s offset of None \<Rightarrow> Inr None | Some b2 \<Rightarrow>
        ebind (decodeVLLength2 b1 b2) (\<lambda>d. Inr (Some (d, o2))))
      else if lenLen = 3 then
        ebind (int_add offset 1) (\<lambda>o2. case get8 s offset of None \<Rightarrow> Inr None | Some b2 \<Rightarrow>
        ebind (int_add o2 1) (\<lambda>o3. case get8 s o2 of None \<Rightarrow> Inr None | Some b3 \<Rightarrow>
        ebind (decodeVLLength3 b1 b2 b3) (\<lambda>d. Inr (Some (d, o3)))))
      else Inr None)"

text \<open>\<^verbatim>\<open>decodeLengthLength\<close> is called before the \<^verbatim>\<open>try\<close> block is entered.\<close>

definition vl_prefix :: "serializer \<Rightarrow> int \<Rightarrow> (int \<times> int \<times> int) option result" where
  "vl_prefix s offset =
     ebind (int_add offset 1) (\<lambda>o1. case get8 s offset of None \<Rightarrow> Inr None | Some b1 \<Rightarrow>
     ebind (decodeLengthLength b1) (\<lambda>lenLen.
     ebind (catch_all (vl_length s b1 lenLen o1) (Inr None)) (\<lambda>r.
     Inr (map_option (\<lambda>(datLen, o'). (lenLen, datLen, o')) r))))"

definition getVL :: "serializer \<Rightarrow> int \<Rightarrow> (bytes \<times> int) option result" where
  "getVL s offset =
     ebind (vl_prefix s offset) (\<lambda>r. case r of None \<Rightarrow> Inr None | Some (lenLen, datLen, o') \<Rightarrow>
     ebind (int_add lenLen datLen) (\<lambda>len.
     map_read (\<lambda>dat. (dat, len)) (getRaw s o' datLen)))"

definition getVLLength :: "serializer \<Rightarrow> int \<Rightarrow> int option result" where
  "getVLLength s offset = map_read (\<lambda>(lenLen, datLen, o'). datLen) (vl_prefix s offset)"

section \<open>Tagged lists\<close>

type_synonym TaggedListItem = "int \<times> bytes"

fun add_items :: "TaggedListItem list \<Rightarrow> (serializer, unit) action" where
  "add_items [] s = (Inr (), s)"
| "add_items ((tag, v) # items) s =
     (let (_, s1) = add8 (word_of_int tag) s in
      case addVL v s1 of
        (Inl e, s2) \<Rightarrow> (Inl e, s2)
      | (Inr _, s2) \<Rightarrow> add_items items s2)"

definition addTaggedList :: "TaggedListItem list \<Rightarrow> (serializer, int) action" where
  "addTaggedList items s =
     (let n = to_int (int (length items)) in
      if n > 255 then (Inr (- 1), s)
      else let (ret, s1) = add8 (word_of_int n) s in
        if n \<noteq> 0 then sbind (add_items items) (\<lambda>_. slift (Inr ret)) s1 else (Inr ret, s1))"

text \<open>The sum mixes \<^verbatim>\<open>int\<close> and \<^verbatim>\<open>size_t\<close>, so it wraps and is converted back.\<close>

fun items_length :: "int \<Rightarrow> TaggedListItem list \<Rightarrow> int result" where
  "items_length ret [] = Inr ret"
| "items_length ret ((tag, v) # items) =
     ebind (encodeLengthLength (to_int (int (length v)))) (\<lambda>n.
     items_length (to_int (ret + (1 + int (length v) + n))) items)"

definition getTaggedListLength :: "TaggedListItem list \<Rightarrow> int result" where
  "getTaggedListLength items =
     (let n = to_int (int (length items)) in
      if n > 255 then Inr (- 1)
      else if n \<noteq> 0 then items_length 1 items else Inr 1)"

fun get_items :: "serializer \<Rightarrow> nat \<Rightarrow> int \<Rightarrow> (TaggedListItem list \<times> int) option result" where
  "get_items s 0 offset = Inr (Some ([], offset))"
| "get_items s (Suc n) offset =
     ebind (int_add offset 1) (\<lambda>o1. case get8 s offset of None \<Rightarrow> Inr None | Some tag \<Rightarrow>
     ebind (getVL s o1) (\<lambda>r. case r of None \<Rightarrow> Inr None | Some (v, len) \<Rightarrow>
     ebind (int_add o1 len) (\<lambda>o2.
     map_read (\<lambda>(items, o'). ((tag, v) # items, o')) (get_items s n o2))))"

definition getTaggedList :: "serializer \<Rightarrow> int \<Rightarrow> (TaggedListItem list \<times> int) option result" where
  "getTaggedList s offset =
     ebind (int_add offset 1) (\<lambda>o1. case get8 s offset of None \<Rightarrow> Inr None | Some numElem \<Rightarrow>
     map_read (\<lambda>(items, o'). (items, o' - offset)) (get_items s (nat numElem) o1))"

section \<open>The length prefix reads back\<close>

lemma uint_byte_of_int: "0 \<le> x \<Longrightarrow> x < 256 \<Longrightarrow> uint (word_of_int x :: byte) = x"
  by (simp add: unsigned_of_int take_bit_int_eq_self)

lemma uint_byte_of_nat: "n < 256 \<Longrightarrow> uint (word_of_nat n :: byte) = int n"
  using uint_byte_of_int [of "int n"] by simp

lemma encodeVL_eq:
  "encodeVL n =
     (if n \<le> 192 then Inr [word_of_int n]
      else if n \<le> 12480 then Inr [word_of_int (193 + (n - 193) div 256), word_of_int ((n - 193) mod 256)]
      else if n \<le> 918744 then
        Inr [word_of_int (241 + (n - 12481) div 65536), word_of_int ((n - 12481) div 256 mod 256),
          word_of_int ((n - 12481) mod 256)]
      else Inl (Overflow_error ''lenlen''))"
  by (simp add: encodeVL_def Let_def drop_bit_eq_div and_255_int)

text \<open>The number of prefix bytes that a length really takes.\<close>

definition prefix_size :: "int \<Rightarrow> int" where
  "prefix_size n = (if n \<le> 192 then 1 else if n \<le> 12480 then 2 else 3)"

lemma length_encodeVL: "encodeVL n = Inr p \<Longrightarrow> int (length p) = prefix_size n"
  by (auto simp: encodeVL_eq prefix_size_def split: if_splits)

lemma encodeVL_ok: "n \<le> 918744 \<Longrightarrow> \<exists>p. encodeVL n = Inr p"
  by (simp add: encodeVL_eq)

lemma in_int_small: "0 \<le> x \<Longrightarrow> x \<le> INT_MAX \<Longrightarrow> in_int x"
  by (simp add: in_int_def INT_MIN_def)

lemma int_add_small [result_simps]: "0 \<le> a + b \<Longrightarrow> a + b \<le> INT_MAX \<Longrightarrow> int_add a b = Inr (a + b)"
  by (simp add: int_add_def in_int_small)

text \<open>The decoders on byte values.\<close>

lemma decode2_byte [result_simps]:
  "193 \<le> b1 \<Longrightarrow> b1 \<le> 240 \<Longrightarrow> 0 \<le> b2 \<Longrightarrow> b2 < 256 \<Longrightarrow>
   decodeVLLength2 b1 b2 = Inr (193 + (b1 - 193) * 256 + b2)"
  by (simp add: decodeVLLength2_def int_add_small INT_MAX_def)

lemma decode3_byte [result_simps]:
  "241 \<le> b1 \<Longrightarrow> b1 \<le> 254 \<Longrightarrow> 0 \<le> b2 \<Longrightarrow> b2 < 256 \<Longrightarrow> 0 \<le> b3 \<Longrightarrow> b3 < 256 \<Longrightarrow>
   decodeVLLength3 b1 b2 b3 = Inr (12481 + (b1 - 241) * 65536 + b2 * 256 + b3)"
  by (simp add: decodeVLLength3_def int_add_small INT_MAX_def)

text \<open>What the prefix reader does with any bytes at an offset inside the buffer.\<close>

lemma vl_prefix_one:
  assumes "get8 s offset = Some b1" "b1 \<le> 192" "0 \<le> offset" "offset + 1 \<le> INT_MAX"
  shows "vl_prefix s offset = Inr (Some (1, b1, offset + 1))"
  using assms get8_bounds [OF assms(1)]
  by (simp add: vl_prefix_def int_add_small decodeLengthLength_def vl_length_def decodeVLLength1_def)

lemma vl_prefix_two:
  assumes "get8 s offset = Some b1" "192 < b1" "b1 \<le> 240" "0 \<le> offset" "offset + 2 \<le> INT_MAX"
  shows "vl_prefix s offset = (case get8 s (offset + 1) of None \<Rightarrow> Inr None
     | Some b2 \<Rightarrow> Inr (Some (2, 193 + (b1 - 193) * 256 + b2, offset + 2)))"
  using assms get8_bounds [of s "offset + 1"]
  by (cases "get8 s (offset + 1)")
    (simp_all add: vl_prefix_def int_add_small decodeLengthLength_def vl_length_def decode2_byte)

lemma vl_prefix_three:
  assumes "get8 s offset = Some b1" "240 < b1" "b1 \<le> 254" "0 \<le> offset" "offset + 3 \<le> INT_MAX"
  shows "vl_prefix s offset = (case get8 s (offset + 1) of None \<Rightarrow> Inr None
     | Some b2 \<Rightarrow> (case get8 s (offset + 2) of None \<Rightarrow> Inr None
       | Some b3 \<Rightarrow> Inr (Some (3, 12481 + (b1 - 241) * 65536 + b2 * 256 + b3, offset + 3))))"
  using assms get8_bounds [of s "offset + 1"] get8_bounds [of s "offset + 2"]
  by (cases "get8 s (offset + 1)"; cases "get8 s (offset + 2)")
    (simp_all add: vl_prefix_def int_add_small decodeLengthLength_def vl_length_def decode3_byte ac_simps)

lemma vl_prefix_bad:
  assumes "get8 s offset = Some 255" "0 \<le> offset" "offset + 1 \<le> INT_MAX"
  shows "vl_prefix s offset = Inl (Overflow_error ''b1>254'')"
  using assms by (simp add: vl_prefix_def int_add_small decodeLengthLength_def)

lemma vl_prefix_none:
  assumes "get8 s offset = None" "0 \<le> offset" "offset + 1 \<le> INT_MAX"
  shows "vl_prefix s offset = Inr None"
  using assms by (simp add: vl_prefix_def int_add_small)

lemma split3: "(l :: int) = l div 65536 * 65536 + l div 256 mod 256 * 256 + l mod 256"
proof -
  have "l = l div 256 * 256 + l mod 256" and "l div 256 = l div 256 div 256 * 256 + l div 256 mod 256"
    by simp_all
  moreover have "l div 256 div 256 = l div 65536" using zdiv_zmult2_eq [of 256 l 256] by simp
  ultimately show ?thesis by linarith
qed

lemma vl_prefix_encode:
  assumes p: "encodeVL n = Inr p" and n: "0 \<le> n"
    and s: "mData s = pre @ p @ post" and len: "int (length (mData s)) \<le> INT_MAX"
  shows "vl_prefix s (int (length pre)) = Inr (Some (int (length p), n, int (length pre) + int (length p)))"
proof -
  let ?o = "int (length pre)"
  have i0: "get8 s ?o = Some (uint b)" if "p = b # bs" for b bs
    using that s len get8_middle [of s pre b "bs @ post"] by simp
  have i1: "get8 s (?o + 1) = Some (uint c)" if "p = b # c # bs" for b c bs
    using that s len get8_middle [of s "pre @ [b]" c "bs @ post"] by (simp add: ac_simps)
  have i2: "get8 s (?o + 2) = Some (uint d)" if "p = [b, c, d]" for b c d
    using that s len get8_middle [of s "pre @ [b, c]" d post] by (simp add: ac_simps)
  consider "n \<le> 192" | "192 < n" "n \<le> 12480" | "12480 < n" "n \<le> 918744"
    using p by (fastforce simp: encodeVL_eq split: if_splits)
  then show ?thesis
  proof cases
    case 1
    then show ?thesis
      using p n i0 s len by (subst vl_prefix_one) (auto simp: encodeVL_eq uint_byte_of_int)
  next
    case 2
    define b1 b2 where b: "b1 = 193 + (n - 193) div 256" "b2 = (n - 193) mod 256"
    have pe: "p = [word_of_int b1, word_of_int b2]" using 2 p by (simp add: encodeVL_eq b)
    have n: "n = 193 + (b1 - 193) * 256 + b2" and r: "193 \<le> b1" "b1 \<le> 240" "0 \<le> b2" "b2 < 256"
      using 2 by (simp_all add: b)
    have "get8 s ?o = Some b1" "get8 s (?o + 1) = Some b2"
      using i0 [OF pe] i1 [OF pe] uint_byte_of_int [of b1] uint_byte_of_int [of b2] r by simp_all
    then show ?thesis using vl_prefix_two [of s ?o b1] r s len by (simp add: pe n)
  next
    case 3
    define b1 b2 b3 where b: "b1 = 241 + (n - 12481) div 65536" "b2 = (n - 12481) div 256 mod 256"
      "b3 = (n - 12481) mod 256"
    have pe: "p = [word_of_int b1, word_of_int b2, word_of_int b3]" using 3 p by (simp add: encodeVL_eq b)
    have n: "n = 12481 + (b1 - 241) * 65536 + b2 * 256 + b3"
      using split3 [of "n - 12481"] by (simp add: b)
    have r: "241 \<le> b1" "b1 \<le> 254" "0 \<le> b2" "b2 < 256" "0 \<le> b3" "b3 < 256"
      using 3 by (simp_all add: b)
    have "get8 s ?o = Some b1" "get8 s (?o + 1) = Some b2" "get8 s (?o + 2) = Some b3"
      using i0 [OF pe] i1 [OF pe] i2 [OF pe] uint_byte_of_int [of b1] uint_byte_of_int [of b2]
        uint_byte_of_int [of b3] r by simp_all
    then show ?thesis using vl_prefix_three [of s ?o b1] r s len by (simp add: pe n)
  qed
qed

lemma getVL_encode:
  assumes p: "encodeVL (int (length v)) = Inr p"
    and s: "mData s = pre @ p @ v @ post" and len: "int (length (mData s)) \<le> INT_MAX"
  shows "getVL s (int (length pre)) = Inr (Some (v, int (length p) + int (length v)))"
proof -
  have "vl_prefix s (int (length pre))
      = Inr (Some (int (length p), int (length v), int (length (pre @ p))))"
    using vl_prefix_encode [OF p, of s pre "v @ post"] s len by simp
  moreover have "read_at s (int (length (pre @ p))) (int (length v)) = Inr (Some v)"
    using s len by (intro read_at_middle [of s "pre @ p" v post]) simp_all
  ultimately show ?thesis using s len by (simp add: getVL_def getRaw_def int_add_small)
qed

section \<open>Writing length-prefixed data\<close>

text \<open>What \<^verbatim>\<open>addVL\<close> appends.\<close>

definition vl_bytes :: "bytes \<Rightarrow> bytes" where
  "vl_bytes v = (case encodeVL (int (length v)) of Inl _ \<Rightarrow> [] | Inr p \<Rightarrow> p @ v)"

lemma vl_bytes_eq: "encodeVL (int (length v)) = Inr p \<Longrightarrow> vl_bytes v = p @ v"
  by (simp add: vl_bytes_def)

lemma length_vl_bytes:
  "length v \<le> 918744 \<Longrightarrow> int (length (vl_bytes v)) = prefix_size (int (length v)) + int (length v)"
  using encodeVL_ok [of "int (length v)"] by (auto simp: vl_bytes_eq length_encodeVL)

lemma to_int_small: "n \<le> 918744 \<Longrightarrow> to_int (int n) = int n"
  by (simp add: in_int_of_nat)

lemma addVL_short:
  assumes v: "length v \<le> 12480" and s: "int (length (mData s)) \<le> INT_MAX"
  shows "addVL v s = (Inr (int (length (mData s))), s\<lparr>mData := mData s @ vl_bytes v\<rparr>)"
proof -
  obtain p where p: "encodeVL (int (length v)) = Inr p" using encodeVL_ok v by force
  have "encodeLengthLength (int (length v)) = Inr (int (length p))"
    using v length_encodeVL [OF p] by (simp add: encodeLengthLength_def prefix_size_def)
  moreover have "int (length p) \<le> 2" using v length_encodeVL [OF p] by (simp add: prefix_size_def)
  moreover have "to_int (int (length (mData s))) = int (length (mData s))"
    using s by (simp add: in_int_of_nat INT_MAX_def)
  ultimately show ?thesis
    using p v s by (simp add: addVL_def to_int_small vl_bytes_eq add_defs add_bytes_def Let_def
        to_size_t_def INT_MAX_def)
qed

lemma addVL_middle:
  assumes "12480 < length v" "length v < 918744"
  shows "addVL v s = (Inl (Overflow_error ''len>918644''), s\<lparr>mData := mData s @ vl_bytes v\<rparr>)"
proof -
  obtain p where p: "encodeVL (int (length v)) = Inr p" using encodeVL_ok assms by force
  then show ?thesis
    using assms by (simp add: addVL_def to_int_small vl_bytes_eq add_defs add_bytes_def
        encodeLengthLength_def split_beta)
qed

lemma addVL_max:
  assumes "length v = 918744" and s: "int (length (mData s)) \<le> INT_MAX"
  shows "addVL v s = (Inr (int (length (mData s))), s\<lparr>mData := mData s @ vl_bytes v\<rparr>)"
proof -
  obtain p where p: "encodeVL 918744 = Inr p" using encodeVL_ok [of 918744] by auto
  then have "length p = 3" using length_encodeVL [OF p] by (simp add: prefix_size_def)
  moreover have "to_int (int (length (mData s))) = int (length (mData s))"
    using s by (simp add: in_int_of_nat INT_MAX_def)
  moreover have "to_int 918744 = 918744" using to_int_small [of 918744] by simp
  ultimately show ?thesis
    using p assms vl_bytes_eq [of v p] by (simp add: addVL_def add_defs add_bytes_def Let_def
        encodeLengthLength_def to_size_t_def INT_MAX_def)
qed

lemma addVL_long:
  assumes "918744 < length v" "length v \<le> 2147483647"
  shows "addVL v s = (Inl (Overflow_error ''lenlen''), s)"
  using assms by (simp add: addVL_def encodeVL_eq in_int_of_nat)

lemma get_after_vl:
  assumes "length v \<le> 918744" and "mData s = pre @ vl_bytes v @ post"
    and "int (length (mData s)) \<le> INT_MAX"
  shows "getVL s (int (length pre)) = Inr (Some (v, int (length (vl_bytes v))))"
proof -
  obtain p where p: "encodeVL (int (length v)) = Inr p" using encodeVL_ok assms(1) by force
  then show ?thesis using assms getVL_encode [OF p, of s pre post] by (simp add: vl_bytes_eq)
qed

section \<open>Tagged lists\<close>

definition item_bytes :: "TaggedListItem \<Rightarrow> bytes" where
  "item_bytes it = word_of_int (fst it) # vl_bytes (snd it)"

text \<open>The items that a tagged list carries faithfully: a tag of one byte, and data whose length
  \<^verbatim>\<open>addVL\<close> accepts.\<close>

definition item_ok :: "TaggedListItem \<Rightarrow> bool" where
  "item_ok it \<longleftrightarrow> 0 \<le> fst it \<and> fst it < 256 \<and> length (snd it) \<le> 12480"

definition items_bytes :: "TaggedListItem list \<Rightarrow> bytes" where
  "items_bytes items = concat (map item_bytes items)"

lemma items_bytes_simps [simp]:
  "items_bytes [] = []" "items_bytes (it # items) = item_bytes it @ items_bytes items"
  by (simp_all add: items_bytes_def)

lemma add_items_ok:
  assumes "\<forall>it\<in>set items. length (snd it) \<le> 12480"
    and "int (length (mData s)) + int (length (items_bytes items)) \<le> INT_MAX"
  shows "add_items items s = (Inr (), s\<lparr>mData := mData s @ items_bytes items\<rparr>)"
  using assms
proof (induction items arbitrary: s)
  case (Cons it items)
  obtain tag v where it: "it = (tag, v)" by (cases it)
  let ?s1 = "s\<lparr>mData := mData s @ [word_of_int tag]\<rparr>"
  let ?s2 = "s\<lparr>mData := mData s @ item_bytes it\<rparr>"
  have "addVL v ?s1 = (Inr (int (length (mData ?s1))), ?s2)"
    using Cons.prems it addVL_short [of v ?s1] by (simp add: item_bytes_def)
  moreover have "add_items items ?s2 = (Inr (), s\<lparr>mData := mData s @ items_bytes (it # items)\<rparr>)"
    using Cons.prems Cons.IH [of ?s2] by simp
  ultimately show ?case by (simp add: it add_defs add_bytes_def)
qed simp

lemma items_length_ok:
  assumes "\<forall>it\<in>set items. length (snd it) \<le> 12480"
    and "0 \<le> r" "r + int (length (items_bytes items)) \<le> INT_MAX"
  shows "items_length r items = Inr (r + int (length (items_bytes items)))"
  using assms
proof (induction items arbitrary: r)
  case (Cons it items)
  obtain tag v where it: "it = (tag, v)" by (cases it)
  have v: "length v \<le> 12480" using Cons.prems it by simp
  then have "encodeLengthLength (int (length v)) = Inr (prefix_size (int (length v)))"
    by (simp add: encodeLengthLength_def prefix_size_def)
  moreover have l: "int (length (item_bytes it)) = 1 + int (length v) + prefix_size (int (length v))"
    using v by (simp add: it item_bytes_def length_vl_bytes)
  moreover have "to_int (r + int (length (item_bytes it))) = r + int (length (item_bytes it))"
    using Cons.prems by (simp add: in_int_small)
  moreover have "items_length (r + int (length (item_bytes it))) items
      = Inr (r + int (length (items_bytes (it # items))))"
    using Cons.prems Cons.IH [of "r + int (length (item_bytes it))"] by (simp add: add.assoc)
  ultimately show ?case using v by (simp add: it to_int_small)
qed simp

section \<open>Reading hostile data\<close>

text \<open>The lengths that a prefix can announce.\<close>

lemma vl_prefix_bounds:
  assumes "vl_prefix s offset = Inr (Some (lenLen, datLen, o'))" "0 \<le> offset" "offset + 3 \<le> INT_MAX"
  shows "o' = offset + lenLen \<and> 1 \<le> lenLen \<and> lenLen \<le> 3 \<and> 0 \<le> datLen \<and> datLen \<le> 929984"
proof (cases "get8 s offset")
  case None
  then show ?thesis using assms vl_prefix_none [OF None] by simp
next
  case (Some b1)
  note b1 = get8_bounds [OF Some]
  consider "b1 \<le> 192" | "192 < b1" "b1 \<le> 240" | "240 < b1" "b1 \<le> 254" | "b1 = 255"
    using b1 by linarith
  then show ?thesis
  proof cases
    case 1
    then show ?thesis using assms b1 vl_prefix_one [OF Some 1] by simp
  next
    case 2
    then show ?thesis
      using assms b1 vl_prefix_two [OF Some 2] get8_bounds [of s "offset + 1"] by (auto split: option.splits)
  next
    case 3
    then show ?thesis
      using assms b1 vl_prefix_three [OF Some 3] get8_bounds [of s "offset + 1"]
        get8_bounds [of s "offset + 2"] by (auto split: option.splits)
  next
    case 4
    then show ?thesis using assms vl_prefix_bad [of s offset] Some by simp
  qed
qed

lemma vl_prefix_error:
  assumes "vl_prefix s offset = Inl e" "0 \<le> offset" "offset + 3 \<le> INT_MAX"
  shows "get8 s offset = Some 255 \<and> e = Overflow_error ''b1>254''"
proof (cases "get8 s offset")
  case None
  then show ?thesis using assms vl_prefix_none [OF None] by simp
next
  case (Some b1)
  note b1 = get8_bounds [OF Some]
  consider "b1 \<le> 192" | "192 < b1" "b1 \<le> 240" | "240 < b1" "b1 \<le> 254" | "b1 = 255"
    using b1 by linarith
  then show ?thesis
  proof cases
    case 1
    then show ?thesis using assms vl_prefix_one [OF Some 1] by simp
  next
    case 2
    then show ?thesis using assms vl_prefix_two [OF Some 2] by (auto split: option.splits)
  next
    case 3
    then show ?thesis using assms vl_prefix_three [OF Some 3] by (auto split: option.splits)
  next
    case 4
    then show ?thesis using assms vl_prefix_bad [of s offset] Some by simp
  qed
qed

section \<open>Properties\<close>

text \<open>C5: The outcome of \<^verbatim>\<open>addVL\<close> for every length of data. Up to 12480 bytes, and for
  exactly 918744, it appends the prefix and the data and returns the old end of the buffer; from
  12481 to 918743 it throws after the bytes are already appended, although the prefix has an
  encoding for these lengths; longer data throws and leaves the buffer unchanged.\<close>

theorem addVL_outcome:
  assumes "int (length (mData s)) \<le> INT_MAX" and "length v \<le> 2147483647"
  shows "addVL v s =
    (if length v \<le> 12480 \<or> length v = 918744
     then (Inr (int (length (mData s))), s\<lparr>mData := mData s @ vl_bytes v\<rparr>)
     else if length v < 918744
     then (Inl (Overflow_error ''len>918644''), s\<lparr>mData := mData s @ vl_bytes v\<rparr>)
     else (Inl (Overflow_error ''lenlen''), s))"
proof -
  consider "length v \<le> 12480" | "12480 < length v" "length v < 918744" | "length v = 918744"
    | "918744 < length v" by linarith
  then show ?thesis
  proof cases
    case 1
    then show ?thesis by (simp only: addVL_short [OF 1 assms(1)] simp_thms if_True)
  next
    case 2
    then show ?thesis by (simp add: addVL_middle [OF 2])
  next
    case 3
    then show ?thesis by (simp add: addVL_max [OF 3 assms(1)])
  next
    case 4
    then show ?thesis by (simp add: addVL_long [OF 4 assms(2)])
  qed
qed

theorem addVL_outcome_witness:
  "addVL (replicate 12481 0) \<lparr>mData = []\<rparr> =
     (Inl (Overflow_error ''len>918644''), \<lparr>mData = vl_bytes (replicate 12481 0)\<rparr>)"
  using addVL_outcome [of "\<lparr>mData = []\<rparr>" "replicate 12481 0"] by (simp add: INT_MAX_def)



end
