(* ===== verification/SerializerFields.thy ===== *)
theory SerializerFields
  imports VarLen
begin

text \<open>
  \<^verbatim>\<open>SerializerIterator\<close> of \<^verbatim>\<open>shared/Serializer.cpp\<close>, and the contract that every
  kind of field of the serializer keeps: the locale \<open>field_codec\<close> says that a reader finds a
  value where its encoding stands, \<open>field_writer\<close> that a writer appends exactly that encoding.
  Both are interpreted on the readers and writers of the code; sequences of fields, tagged lists
  and the iterator are clients.
\<close>

section \<open>The iterator\<close>

record serializer_iterator =
  mSerializer :: serializer
  mPos :: int

definition iterator :: "serializer \<Rightarrow> serializer_iterator" where
  "iterator s = \<lparr>mSerializer = s, mPos = 0\<rparr>"

definition it_reset :: "serializer_iterator \<Rightarrow> serializer_iterator" where
  "it_reset it = it\<lparr>mPos := 0\<rparr>"

definition it_setPos :: "int \<Rightarrow> serializer_iterator \<Rightarrow> serializer_iterator" where
  "it_setPos p it = it\<lparr>mPos := p\<rparr>"

definition getBytesLeft :: "serializer_iterator \<Rightarrow> int" where
  "getBytesLeft it = to_int (int (length (mData (mSerializer it))) - mPos it)"

text \<open>The shape of all iterator reads: throw when the serializer returns \<^verbatim>\<open>false\<close>, and
  advance by the length read.\<close>

definition it_read ::
  "string \<Rightarrow> (serializer \<Rightarrow> int \<Rightarrow> ('a \<times> int) option result) \<Rightarrow> (serializer_iterator, 'a) action" where
  "it_read msg rd it = (case rd (mSerializer it) (mPos it) of
     Inl e \<Rightarrow> (Inl e, it)
   | Inr None \<Rightarrow> (Inl (Runtime_error msg), it)
   | Inr (Some (x, n)) \<Rightarrow> (case int_add (mPos it) n of
       Inl e \<Rightarrow> (Inl e, it)
     | Inr p \<Rightarrow> (Inr x, it\<lparr>mPos := p\<rparr>)))"

definition sized :: "int \<Rightarrow> (serializer \<Rightarrow> int \<Rightarrow> 'a option result) \<Rightarrow>
    serializer \<Rightarrow> int \<Rightarrow> ('a \<times> int) option result" where
  "sized n rd s offset = map_read (\<lambda>x. (x, n)) (rd s offset)"

definition rd8 :: "serializer \<Rightarrow> int \<Rightarrow> (byte \<times> int) option result" where
  "rd8 = sized 1 (\<lambda>s offset. Inr (map_option word_of_int (get8 s offset)))"

definition it_get8 :: "(serializer_iterator, byte) action" where
  "it_get8 = it_read ''invalid serializer get8'' rd8"

definition it_get16 :: "(serializer_iterator, 16 word) action" where
  "it_get16 = it_read ''invalid serializer get16'' (sized (16 div 8) get16)"

definition it_get32 :: "(serializer_iterator, 32 word) action" where
  "it_get32 = it_read ''invalid serializer get32'' (sized (32 div 8) get32)"

definition it_get64 :: "(serializer_iterator, 64 word) action" where
  "it_get64 = it_read ''invalid serializer get64'' (sized (64 div 8) get64)"

definition it_get128 :: "(serializer_iterator, base_uint) action" where
  "it_get128 = it_read ''invalid serializer get128'' (sized (128 div 8) get128)"

definition it_get160 :: "(serializer_iterator, base_uint) action" where
  "it_get160 = it_read ''invalid serializer get160'' (sized (160 div 8) get160)"

definition it_get256 :: "(serializer_iterator, base_uint) action" where
  "it_get256 = it_read ''invalid serializer get256'' (sized (256 div 8) get256)"

definition it_getVL :: "(serializer_iterator, bytes) action" where
  "it_getVL = it_read ''invalid serializer getVL'' getVL"

definition it_getTaggedList :: "(serializer_iterator, TaggedListItem list) action" where
  "it_getTaggedList = it_read ''invalid serializer getTL'' getTaggedList"

text \<open>The raw read moves the cursor first and has no failure path of its own.\<close>

definition it_getRaw :: "int \<Rightarrow> (serializer_iterator, bytes) action" where
  "it_getRaw iLength it = (case int_add (mPos it) iLength of
     Inl e \<Rightarrow> (Inl e, it)
   | Inr p \<Rightarrow> (getRaw_value (mSerializer it) (mPos it) iLength, it\<lparr>mPos := p\<rparr>))"

section \<open>The contract of a field\<close>

text \<open>Reading \<open>n\<close> values of one kind, one after the other.\<close>

fun read_n :: "(serializer \<Rightarrow> int \<Rightarrow> ('a \<times> int) option result) \<Rightarrow> serializer \<Rightarrow> nat \<Rightarrow> int \<Rightarrow>
    ('a list \<times> int) option result" where
  "read_n rd s 0 offset = Inr (Some ([], offset))"
| "read_n rd s (Suc n) offset = ebind (rd s offset) (\<lambda>r. case r of None \<Rightarrow> Inr None | Some (x, len) \<Rightarrow>
     ebind (int_add offset len) (\<lambda>o'. map_read (\<lambda>(xs, e). (x # xs, e)) (read_n rd s n o')))"

locale field_codec =
  fixes enc :: "'a \<Rightarrow> bytes" and ok :: "'a \<Rightarrow> bool"
    and rd :: "serializer \<Rightarrow> int \<Rightarrow> ('a \<times> int) option result"
  assumes rd_enc: "ok x \<Longrightarrow> mData s = pre @ enc x @ post \<Longrightarrow> int (length (mData s)) \<le> INT_MAX
    \<Longrightarrow> rd s (int (length pre)) = Inr (Some (x, int (length (enc x))))"
begin

text \<open>No encoding of a value is a prefix of the encoding of another one.\<close>

lemma enc_prefix_free:
  assumes "ok x" "ok y" and eq: "enc x @ p = enc y @ q" and "int (length (enc x @ p)) \<le> INT_MAX"
  shows "x = y \<and> p = q"
proof -
  have "rd \<lparr>mData = enc x @ p\<rparr> 0 = Inr (Some (x, int (length (enc x))))"
    using assms rd_enc [of x _ "[]" p] by simp
  moreover have "rd \<lparr>mData = enc x @ p\<rparr> 0 = Inr (Some (y, int (length (enc y))))"
    using assms rd_enc [of y "\<lparr>mData = enc x @ p\<rparr>" "[]" q] by simp
  ultimately show ?thesis using eq by simp
qed

lemma read_n_enc:
  assumes "\<forall>x\<in>set xs. ok x" "mData s = pre @ concat (map enc xs) @ post"
    and "int (length (mData s)) \<le> INT_MAX"
  shows "read_n rd s (length xs) (int (length pre))
    = Inr (Some (xs, int (length pre) + int (length (concat (map enc xs)))))"
  using assms
proof (induction xs arbitrary: pre)
  case (Cons x xs)
  have "rd s (int (length pre)) = Inr (Some (x, int (length (enc x))))"
    using Cons.prems rd_enc [of x s pre "concat (map enc xs) @ post"] by simp
  moreover have "int_add (int (length pre)) (int (length (enc x))) = Inr (int (length (pre @ enc x)))"
    using Cons.prems by (simp add: int_add_small)
  ultimately show ?case using Cons.prems Cons.IH [of "pre @ enc x"] by simp
qed simp

lemma it_read_enc:
  assumes "ok x" "mData (mSerializer it) = pre @ enc x @ post" "mPos it = int (length pre)"
    and "int (length (mData (mSerializer it))) \<le> INT_MAX"
  shows "it_read msg rd it = (Inr x, it\<lparr>mPos := int (length (pre @ enc x))\<rparr>)"
  using assms rd_enc [of x "mSerializer it" pre post] by (simp add: it_read_def int_add_small)

end

locale field_writer = field_codec enc ok rd
  for enc :: "'a \<Rightarrow> bytes" and ok :: "'a \<Rightarrow> bool"
    and rd :: "serializer \<Rightarrow> int \<Rightarrow> ('a \<times> int) option result" +
  fixes put :: "'a \<Rightarrow> (serializer, int) action"
  assumes put_enc: "ok x \<Longrightarrow> int (length (mData s)) + int (length (enc x)) \<le> INT_MAX \<Longrightarrow>
    put x s = (Inr (int (length (mData s))), s\<lparr>mData := mData s @ enc x\<rparr>)"
begin

text \<open>A value is read back at the offset its writer returned, whatever is added later.\<close>

lemma put_rd:
  assumes "ok x" "put x s = (Inr ret, s')" "mData s'' = mData s' @ later"
    and "int (length (mData s)) + int (length (enc x)) + int (length later) \<le> INT_MAX"
  shows "rd s'' ret = Inr (Some (x, int (length (mData s')) - int (length (mData s))))"
  using assms put_enc [of x s] rd_enc [of x s'' "mData s" later] by auto

end

definition total :: "('a \<Rightarrow> serializer \<Rightarrow> int \<times> serializer) \<Rightarrow> 'a \<Rightarrow> (serializer, int) action" where
  "total add x s = (case add x s of (ret, s') \<Rightarrow> (Inr ret, s'))"

section \<open>The fields of the serializer keep the contract\<close>

lemma total_put:
  assumes "\<And>x. add x = add_bytes (enc x)"
    and "int (length (mData s)) + int (length (enc x)) \<le> INT_MAX"
  shows "total add x s = (Inr (int (length (mData s))), s\<lparr>mData := mData s @ enc x\<rparr>)"
  using assms by (simp add: total_def add_bytes_def in_int_of_nat INT_MAX_def)

lemma sized_rd:
  assumes "\<And>s offset. rd s offset = map_read f (read_at s offset n)" "f (enc x) = x"
    and "n = int (length (enc x))" "mData s = pre @ enc x @ post" "int (length (mData s)) \<le> INT_MAX"
  shows "sized n rd s (int (length pre)) = Inr (Some (x, int (length (enc x))))"
  using assms read_at_middle [of s pre "enc x" post n] by (simp add: sized_def)

interpretation f8: field_writer "\<lambda>b. [b]" "\<lambda>_. True" rd8 "total add8"
proof (unfold_locales, goal_cases)
  case (1 x s pre post)
  then show ?case using get8_middle [of s pre x post] by (simp add: rd8_def sized_def)
next
  case (2 x s)
  then show ?case by (intro total_put [of add8 "\<lambda>b. [b]"]) (simp_all add: add_defs)
qed

interpretation f16: field_writer bytes16 "\<lambda>_. True" "sized (16 div 8) get16" "total add16"
proof (unfold_locales, goal_cases)
  case (1 x s pre post)
  then show ?case by (intro sized_rd [of get16 join_bytes]) (simp_all add: get16_def codec_simps)
next
  case (2 x s)
  then show ?case by (intro total_put) (simp_all add: add_defs)
qed

interpretation f32: field_writer bytes32 "\<lambda>_. True" "sized (32 div 8) get32" "total add32"
proof (unfold_locales, goal_cases)
  case (1 x s pre post)
  then show ?case by (intro sized_rd [of get32 join_bytes]) (simp_all add: get32_def codec_simps)
next
  case (2 x s)
  then show ?case by (intro total_put) (simp_all add: add_defs)
qed

interpretation f64: field_writer bytes64 "\<lambda>_. True" "sized (64 div 8) get64" "total add64"
proof (unfold_locales, goal_cases)
  case (1 x s pre post)
  then show ?case by (intro sized_rd [of get64 join_bytes]) (simp_all add: get64_def codec_simps)
next
  case (2 x s)
  then show ?case by (intro total_put) (simp_all add: add_defs)
qed

interpretation f128: field_writer uint_bytes "\<lambda>u. uint_size u = 16" "sized (128 div 8) get128" "total add128"
proof (unfold_locales, goal_cases)
  case (1 x s pre post)
  then show ?case by (intro sized_rd [of get128 of_uint_bytes]) (simp_all add: get128_def)
next
  case (2 x s)
  then show ?case by (intro total_put) (simp_all add: add_defs)
qed

interpretation f160: field_writer uint_bytes "\<lambda>u. uint_size u = 20" "sized (160 div 8) get160" "total add160"
proof (unfold_locales, goal_cases)
  case (1 x s pre post)
  then show ?case by (intro sized_rd [of get160 of_uint_bytes]) (simp_all add: get160_def)
next
  case (2 x s)
  then show ?case by (intro total_put) (simp_all add: add_defs)
qed

interpretation f256: field_writer uint_bytes "\<lambda>u. uint_size u = 32" "sized (256 div 8) get256" "total add256"
proof (unfold_locales, goal_cases)
  case (1 x s pre post)
  then show ?case by (intro sized_rd [of get256 of_uint_bytes]) (simp_all add: get256_def)
next
  case (2 x s)
  then show ?case by (intro total_put) (simp_all add: add_defs)
qed

interpretation fVL: field_writer vl_bytes "\<lambda>v. length v \<le> 12480" getVL addVL
proof (unfold_locales, goal_cases)
  case (1 x s pre post)
  then show ?case by (intro get_after_vl) simp_all
next
  case (2 x s)
  then show ?case by (intro addVL_short) simp_all
qed

text \<open>The reader reads longer data too, although \<^verbatim>\<open>addVL\<close> refuses to write it.\<close>

interpretation fVLlong: field_codec vl_bytes "\<lambda>v. length v \<le> 918744" getVL
  by unfold_locales (rule get_after_vl)

section \<open>Tagged lists as a client\<close>

definition get_item :: "serializer \<Rightarrow> int \<Rightarrow> (TaggedListItem \<times> int) option result" where
  "get_item s offset =
     ebind (int_add offset 1) (\<lambda>o1. case get8 s offset of None \<Rightarrow> Inr None | Some tag \<Rightarrow>
     map_read (\<lambda>(v, len). ((tag, v), 1 + len)) (getVL s o1))"

lemma get_items_read_n: "get_items s n offset = read_n get_item s n offset"
proof (induction n arbitrary: offset)
  case (Suc n)
  show ?case
    by (auto simp: get_item_def int_add_def map_read_def ebind_def Suc.IH ac_simps
        split: option.split sum.split if_splits)
qed simp

interpretation fitem: field_codec item_bytes item_ok get_item
proof (unfold_locales, goal_cases)
  case (1 it s pre post)
  have "get8 s (int (length pre)) = Some (fst it)"
    using 1 get8_middle [of s pre "word_of_int (fst it)"]
    by (simp add: item_bytes_def item_ok_def uint_byte_of_int)
  moreover have "getVL s (int (length (pre @ [word_of_int (fst it)])))
      = Inr (Some (snd it, int (length (vl_bytes (snd it)))))"
    using 1 by (intro fVL.rd_enc [of _ _ _ post]) (simp_all add: item_bytes_def item_ok_def)
  ultimately show ?case using 1 by (simp add: get_item_def int_add_small item_bytes_def add.commute)
qed

definition tl_ok :: "TaggedListItem list \<Rightarrow> bool" where
  "tl_ok items \<longleftrightarrow> length items \<le> 255 \<and> (\<forall>it\<in>set items. item_ok it)"

definition tl_bytes :: "TaggedListItem list \<Rightarrow> bytes" where
  "tl_bytes items = word_of_int (int (length items)) # items_bytes items"

interpretation fTL: field_writer tl_bytes tl_ok getTaggedList addTaggedList
proof (unfold_locales, goal_cases)
  case (1 items s pre post)
  let ?n = "word_of_int (int (length items)) :: byte"
  have n: "get8 s (int (length pre)) = Some (int (length items))"
    using 1 get8_middle [of s pre ?n "items_bytes items @ post"]
    by (simp add: tl_bytes_def tl_ok_def uint_byte_of_nat)
  have "read_n get_item s (length items) (int (length (pre @ [?n])))
      = Inr (Some (items, int (length (pre @ [?n])) + int (length (items_bytes items))))"
    using 1 fitem.read_n_enc [of items s "pre @ [?n]" post]
    by (simp add: tl_bytes_def tl_ok_def items_bytes_def)
  with n 1 show ?case
    by (simp add: getTaggedList_def get_items_read_n int_add_small tl_bytes_def add.commute)
next
  case (2 items s)
  let ?s1 = "s\<lparr>mData := mData s @ [word_of_int (int (length items))]\<rparr>"
  have "add_items items ?s1 = (Inr (), s\<lparr>mData := mData s @ tl_bytes items\<rparr>)"
    using 2 add_items_ok [of items ?s1] by (simp add: tl_bytes_def tl_ok_def item_ok_def)
  with 2 show ?case
    by (simp add: addTaggedList_def to_int_small tl_ok_def tl_bytes_def add_defs add_bytes_def sbind_def
        in_int_small)
qed

section \<open>Sequences of fields\<close>

text \<open>A message is a sequence of fields; its layout is the sequence of their kinds.\<close>

datatype field =
    F8 byte | F16 "16 word" | F32 "32 word" | F64 "64 word"
  | F128 base_uint | F160 base_uint | F256 base_uint
  | FVL bytes | FTL "TaggedListItem list"

datatype kind = K8 | K16 | K32 | K64 | K128 | K160 | K256 | KVL | KTL

fun kind_of :: "field \<Rightarrow> kind" where
  "kind_of (F8 _) = K8" | "kind_of (F16 _) = K16" | "kind_of (F32 _) = K32" | "kind_of (F64 _) = K64"
| "kind_of (F128 _) = K128" | "kind_of (F160 _) = K160" | "kind_of (F256 _) = K256"
| "kind_of (FVL _) = KVL" | "kind_of (FTL _) = KTL"

fun put_field :: "field \<Rightarrow> (serializer, int) action" where
  "put_field (F8 x) = total add8 x" | "put_field (F16 x) = total add16 x"
| "put_field (F32 x) = total add32 x" | "put_field (F64 x) = total add64 x"
| "put_field (F128 x) = total add128 x" | "put_field (F160 x) = total add160 x"
| "put_field (F256 x) = total add256 x" | "put_field (FVL x) = addVL x"
| "put_field (FTL x) = addTaggedList x"

definition map_action :: "('a \<Rightarrow> 'b) \<Rightarrow> ('s, 'a) action \<Rightarrow> ('s, 'b) action" where
  "map_action f m = sbind m (\<lambda>x. slift (Inr (f x)))"

fun get_field :: "kind \<Rightarrow> (serializer_iterator, field) action" where
  "get_field K8 = map_action F8 it_get8" | "get_field K16 = map_action F16 it_get16"
| "get_field K32 = map_action F32 it_get32" | "get_field K64 = map_action F64 it_get64"
| "get_field K128 = map_action F128 it_get128" | "get_field K160 = map_action F160 it_get160"
| "get_field K256 = map_action F256 it_get256" | "get_field KVL = map_action FVL it_getVL"
| "get_field KTL = map_action FTL it_getTaggedList"

fun field_bytes :: "field \<Rightarrow> bytes" where
  "field_bytes (F8 x) = [x]" | "field_bytes (F16 x) = bytes16 x" | "field_bytes (F32 x) = bytes32 x"
| "field_bytes (F64 x) = bytes64 x" | "field_bytes (F128 x) = uint_bytes x"
| "field_bytes (F160 x) = uint_bytes x" | "field_bytes (F256 x) = uint_bytes x"
| "field_bytes (FVL x) = vl_bytes x" | "field_bytes (FTL x) = tl_bytes x"

fun field_ok :: "field \<Rightarrow> bool" where
  "field_ok (F128 x) = (uint_size x = 16)" | "field_ok (F160 x) = (uint_size x = 20)"
| "field_ok (F256 x) = (uint_size x = 32)" | "field_ok (FVL x) = (length x \<le> 12480)"
| "field_ok (FTL x) = tl_ok x" | "field_ok _ = True"

fun put_fields :: "field list \<Rightarrow> (serializer, unit) action" where
  "put_fields [] = slift (Inr ())"
| "put_fields (f # fs) = sbind (put_field f) (\<lambda>_. put_fields fs)"

fun get_fields :: "kind list \<Rightarrow> (serializer_iterator, field list) action" where
  "get_fields [] = slift (Inr [])"
| "get_fields (k # ks) = sbind (get_field k) (\<lambda>f. map_action ((#) f) (get_fields ks))"

lemma put_field_ok:
  assumes "field_ok f" "int (length (mData s)) + int (length (field_bytes f)) \<le> INT_MAX"
  shows "put_field f s = (Inr (int (length (mData s))), s\<lparr>mData := mData s @ field_bytes f\<rparr>)"
  using assms
  by (cases f) (simp_all add: f8.put_enc f16.put_enc f32.put_enc f64.put_enc f128.put_enc f160.put_enc
      f256.put_enc fVL.put_enc fTL.put_enc)

lemma map_action_ok: "m s = (Inr x, s') \<Longrightarrow> map_action f m s = (Inr (f x), s')"
  by (simp add: map_action_def sbind_def)

lemmas it_get_defs = it_get8_def it_get16_def it_get32_def it_get64_def it_get128_def it_get160_def
  it_get256_def it_getVL_def it_getTaggedList_def

lemma get_field_ok:
  assumes "field_ok f" "mData (mSerializer it) = pre @ field_bytes f @ post" "mPos it = int (length pre)"
    and "int (length (mData (mSerializer it))) \<le> INT_MAX"
  shows "get_field (kind_of f) it = (Inr f, it\<lparr>mPos := int (length (pre @ field_bytes f))\<rparr>)"
proof (cases f)
  case (F8 x)
  with assms show ?thesis
    using f8.it_read_enc [where x = x and it = it and pre = pre and post = post]
    by (simp add: it_get_defs map_action_ok)
next
  case (F16 x)
  with assms show ?thesis
    using f16.it_read_enc [where x = x and it = it and pre = pre and post = post]
    by (simp add: it_get_defs map_action_ok)
next
  case (F32 x)
  with assms show ?thesis
    using f32.it_read_enc [where x = x and it = it and pre = pre and post = post]
    by (simp add: it_get_defs map_action_ok)
next
  case (F64 x)
  with assms show ?thesis
    using f64.it_read_enc [where x = x and it = it and pre = pre and post = post]
    by (simp add: it_get_defs map_action_ok)
next
  case (F128 x)
  with assms show ?thesis
    using f128.it_read_enc [where x = x and it = it and pre = pre and post = post]
    by (simp add: it_get_defs map_action_ok)
next
  case (F160 x)
  with assms show ?thesis
    using f160.it_read_enc [where x = x and it = it and pre = pre and post = post]
    by (simp add: it_get_defs map_action_ok)
next
  case (F256 x)
  with assms show ?thesis
    using f256.it_read_enc [where x = x and it = it and pre = pre and post = post]
    by (simp add: it_get_defs map_action_ok)
next
  case (FVL x)
  with assms show ?thesis
    using fVL.it_read_enc [where x = x and it = it and pre = pre and post = post]
    by (simp add: it_get_defs map_action_ok)
next
  case (FTL x)
  with assms show ?thesis
    using fTL.it_read_enc [where x = x and it = it and pre = pre and post = post]
    by (simp add: it_get_defs map_action_ok)
qed

lemma put_fields_ok:
  assumes "\<forall>f\<in>set fs. field_ok f"
    and "int (length (mData s)) + int (length (concat (map field_bytes fs))) \<le> INT_MAX"
  shows "put_fields fs s = (Inr (), s\<lparr>mData := mData s @ concat (map field_bytes fs)\<rparr>)"
  using assms
proof (induction fs arbitrary: s)
  case (Cons f fs)
  let ?s1 = "s\<lparr>mData := mData s @ field_bytes f\<rparr>"
  have "put_field f s = (Inr (int (length (mData s))), ?s1)"
    using Cons.prems by (intro put_field_ok) simp_all
  then show ?case using Cons.prems Cons.IH [of ?s1] by (simp add: sbind_def)
qed simp

lemma get_fields_ok:
  assumes "\<forall>f\<in>set fs. field_ok f" "mData (mSerializer it) = pre @ concat (map field_bytes fs) @ post"
    and "mPos it = int (length pre)" "int (length (mData (mSerializer it))) \<le> INT_MAX"
  shows "get_fields (map kind_of fs) it
    = (Inr fs, it\<lparr>mPos := int (length (pre @ concat (map field_bytes fs)))\<rparr>)"
  using assms
proof (induction fs arbitrary: pre it)
  case (Cons f fs)
  let ?it = "it\<lparr>mPos := int (length (pre @ field_bytes f))\<rparr>"
  have "get_field (kind_of f) it = (Inr f, ?it)"
    using Cons.prems by (intro get_field_ok [of f it pre "concat (map field_bytes fs) @ post"]) simp_all
  moreover have "get_fields (map kind_of fs) ?it
      = (Inr fs, ?it\<lparr>mPos := int (length ((pre @ field_bytes f) @ concat (map field_bytes fs)))\<rparr>)"
    using Cons.prems by (intro Cons.IH) simp_all
  ultimately show ?case by (simp add: sbind_def map_action_def)
qed simp

section \<open>Properties\<close>

text \<open>C1: Any sequence of fields written with the \<^verbatim>\<open>add\<close> functions, one after the
  other, is read back by an iterator that asks for the same kinds in the same order, and the iterator
  ends at the end of what was written.\<close>

theorem fields_roundtrip:
  assumes "\<forall>f\<in>set fs. field_ok f" and "int (length (concat (map field_bytes fs))) \<le> INT_MAX"
  shows "\<exists>s. put_fields fs \<lparr>mData = []\<rparr> = (Inr (), s) \<and>
     (\<exists>it. get_fields (map kind_of fs) (iterator s) = (Inr fs, it) \<and> getBytesLeft it = 0)"
  using assms put_fields_ok [of fs "\<lparr>mData = []\<rparr>"]
    get_fields_ok [of fs "iterator \<lparr>mData = concat (map field_bytes fs)\<rparr>" "[]" "[]"]
  by (simp add: iterator_def getBytesLeft_def to_int_def)

theorem fields_roundtrip_witness:
  "\<exists>s. put_fields [F16 5, FVL [1, 2], FTL [(3, [4])]] \<lparr>mData = []\<rparr> = (Inr (), s) \<and>
     (\<exists>it. get_fields [K16, KVL, KTL] (iterator s) = (Inr [F16 5, FVL [1, 2], FTL [(3, [4])]], it)
        \<and> getBytesLeft it = 0)"
proof -
  have "length (concat (map field_bytes [F16 5, FVL [1, 2], FTL [(3, [4])]])) = 9" by code_simp
  then show ?thesis
    using fields_roundtrip [of "[F16 5, FVL [1, 2], FTL [(3, [4])]]"]
    by (simp add: tl_ok_def item_ok_def INT_MAX_def)
qed

text \<open>Length-prefixed data of up to 12480 bytes is read back at the offset
  \<^verbatim>\<open>addVL\<close> returned, with the number of bytes it took, whatever was in the buffer before and is
  appended later; \<^verbatim>\<open>getVLLength\<close> there gives the length of the data.\<close>

theorem addVL_getVL:
  assumes "length v \<le> 12480"
    and "int (length (mData s)) + int (length v) + 2 + int (length later) \<le> INT_MAX"
  shows "\<exists>ret s'. addVL v s = (Inr ret, s') \<and>
     getVL (snd (addRaw later s')) ret = Inr (Some (v, int (length (mData s')) - int (length (mData s))))
     \<and> getVLLength (snd (addRaw later s')) ret = Inr (Some (int (length v)))"
proof -
  let ?s' = "s\<lparr>mData := mData s @ vl_bytes v\<rparr>"
  obtain p where p: "encodeVL (int (length v)) = Inr p" using encodeVL_ok assms(1) by force
  have l: "int (length (vl_bytes v)) \<le> int (length v) + 2"
    using assms(1) by (simp add: length_vl_bytes prefix_size_def)
  have put: "addVL v s = (Inr (int (length (mData s))), ?s')"
    using assms l by (intro fVL.put_enc) simp_all
  moreover have "getVL (snd (addRaw later ?s')) (int (length (mData s)))
      = Inr (Some (v, int (length (mData ?s')) - int (length (mData s))))"
    using assms l put by (intro fVL.put_rd [of v s _ _ _ later]) (simp_all add: addRaw_def)
  moreover have "getVLLength (snd (addRaw later ?s')) (int (length (mData s))) = Inr (Some (int (length v)))"
    using assms l vl_prefix_encode [OF p, of "snd (addRaw later ?s')" "mData s" "v @ later"]
    by (simp add: getVLLength_def addRaw_def vl_bytes_eq [OF p])
  ultimately show ?thesis by blast
qed

theorem addVL_getVL_witness:
  "\<exists>ret s'. addVL (replicate 200 7) \<lparr>mData = [1]\<rparr> = (Inr ret, s') \<and>
     getVL (snd (addRaw [9] s')) ret = Inr (Some (replicate 200 7, int (length (mData s')) - 1))
     \<and> getVLLength (snd (addRaw [9] s')) ret = Inr (Some 200)"
  using addVL_getVL [of "replicate 200 7" "\<lparr>mData = [1]\<rparr>" "[9]"] by (simp add: INT_MAX_def)

text \<open>A tagged list of at most 255 items, with tags of one byte and data that
  \<^verbatim>\<open>addVL\<close> accepts, is read back where it was written, and \<^verbatim>\<open>getTaggedListLength\<close> tells
  how many bytes it takes.\<close>

theorem tagged_list_roundtrip:
  assumes "tl_ok items" and "int (length (mData s)) + int (length (tl_bytes items)) \<le> INT_MAX"
  shows "\<exists>ret s' n. addTaggedList items s = (Inr ret, s') \<and> getTaggedList s' ret = Inr (Some (items, n))
     \<and> getTaggedListLength items = Inr n \<and> int (length (mData s')) = int (length (mData s)) + n"
proof -
  let ?s' = "s\<lparr>mData := mData s @ tl_bytes items\<rparr>"
  have put: "addTaggedList items s = (Inr (int (length (mData s))), ?s')"
    using assms by (intro fTL.put_enc)
  moreover have "getTaggedList ?s' (int (length (mData s))) = Inr (Some (items, int (length (tl_bytes items))))"
    using assms fTL.put_rd [OF _ put, of ?s' "[]"] by simp
  moreover have "items_length 1 items = Inr (int (length (tl_bytes items)))"
    using assms items_length_ok [of items 1] by (simp add: tl_ok_def item_ok_def tl_bytes_def)
  then have "getTaggedListLength items = Inr (int (length (tl_bytes items)))"
    using assms(1) by (cases items)
      (simp_all add: getTaggedListLength_def tl_ok_def to_int_small tl_bytes_def in_int_small INT_MAX_def)
  ultimately show ?thesis by fastforce
qed

theorem tagged_list_roundtrip_witness:
  "\<exists>ret s' n. addTaggedList [(5, [1, 2, 3]), (6, [])] \<lparr>mData = [0]\<rparr> = (Inr ret, s')
     \<and> getTaggedList s' ret = Inr (Some ([(5, [1, 2, 3]), (6, [])], n))
     \<and> getTaggedListLength [(5, [1, 2, 3]), (6, [])] = Inr n \<and> int (length (mData s')) = 1 + n"
proof -
  have "length (tl_bytes [(5, [1, 2, 3]), (6, [])]) = 8" by code_simp
  then show ?thesis
    using tagged_list_roundtrip [of "[(5, [1, 2, 3]), (6, [])]" "\<lparr>mData = [0]\<rparr>"]
    by (simp add: tl_ok_def item_ok_def INT_MAX_def)
qed

text \<open>The raw read of the iterator does not report a read behind the end: it returns no bytes and
  still moves the cursor there.\<close>

lemma it_getRaw_silent:
  "it_getRaw 5 (iterator \<lparr>mData = [1, 2]\<rparr>) = (Inr [], \<lparr>mSerializer = \<lparr>mData = [1, 2]\<rparr>, mPos = 5\<rparr>)"
  by code_simp

end
