(* ===== verification/ParseSection.thy ===== *)
theory ParseSection
  imports Uint256
begin

text \<open>
  \<^verbatim>\<open>shared/ParseSection.cpp\<close>: the reader of configuration files and of the node lists that
  other domains publish. A \<^verbatim>\<open>section\<close> is a map from names to lines; the boost string algorithms
  are modelled on the character lists they work on.
\<close>

type_synonym sections = "string \<Rightarrow> string list option"

definition CR :: char where "CR = CHR 0x0D"
definition LF :: char where "LF = CHR 0x0A"

text \<open>\<^verbatim>\<open>replace_all(strData, "\r\n", "\n")\<close> and \<^verbatim>\<open>replace_all(strData, "\r", "\n")\<close>.\<close>

fun replace_crlf :: "string \<Rightarrow> string" where
  "replace_crlf (a # b # cs) = (if a = CR \<and> b = LF then LF # replace_crlf cs else a # replace_crlf (b # cs))"
| "replace_crlf cs = cs"

definition replace_cr :: "string \<Rightarrow> string" where
  "replace_cr cs = map (\<lambda>c. if c = CR then LF else c) cs"

text \<open>\<^verbatim>\<open>split\<close> without compression: every separator ends a piece.\<close>

fun split_on :: "char \<Rightarrow> string \<Rightarrow> string list" where
  "split_on d [] = [[]]"
| "split_on d (c # cs) = (if c = d then [] # split_on d cs
     else (c # hd (split_on d cs)) # tl (split_on d cs))"

definition trim :: "string \<Rightarrow> string" where
  "trim s = rev (dropWhile isspace (rev (dropWhile isspace s)))"

definition is_header :: "string \<Rightarrow> bool" where
  "is_header l \<longleftrightarrow> hd l = CHR ''['' \<and> last l = CHR '']''"

text \<open>One iteration: the current section name and the result so far.
  \<^verbatim>\<open>secResult[strSection]\<close> creates a missing entry.\<close>

definition parse_line :: "bool \<Rightarrow> string \<times> sections \<Rightarrow> string \<Rightarrow> string \<times> sections" where
  "parse_line bTrim st strValue = (let (strSection, secResult) = st in
     if strValue = [] \<or> hd strValue = CHR ''#'' then st
     else if is_header strValue then
       (let strSection' = take (length strValue - 2) (tl strValue) in
        (strSection', secResult(strSection' \<mapsto> [])))
     else let strValue' = (if bTrim then trim strValue else strValue) in
       if strValue' \<noteq> [] then
         (strSection, secResult(strSection \<mapsto> (case secResult strSection of None \<Rightarrow> [] | Some vs \<Rightarrow> vs) @ [strValue']))
       else st)"

definition ParseSection :: "string \<Rightarrow> bool \<Rightarrow> sections" where
  "ParseSection strInput bTrim =
     (let strData = replace_cr (replace_crlf strInput); vLines = split_on LF strData in
      snd (foldl (parse_line bTrim) ([], [[] \<mapsto> []]) vLines))"

definition sectionEntries :: "sections \<Rightarrow> string \<Rightarrow> string list option" where
  "sectionEntries secSource strSection = secSource strSection"

text \<open>The test for null is the wrong way round.\<close>

definition sectionCount :: "sections \<Rightarrow> string \<Rightarrow> int result" where
  "sectionCount secSource strSection = (case sectionEntries secSource strSection of
     Some _ \<Rightarrow> Inr (- 1)
   | None \<Rightarrow> Inl Undefined_behaviour)"

definition sectionSingleB :: "sections \<Rightarrow> string \<Rightarrow> string \<Rightarrow> bool \<times> string" where
  "sectionSingleB secSource strSection strValue = (case sectionEntries secSource strSection of
     Some [v] \<Rightarrow> (True, v)
   | _ \<Rightarrow> (False, strValue))"

section \<open>Lines\<close>

lemma split_on_not_Nil [simp]: "split_on d cs \<noteq> []"
  by (induction cs) auto

lemma split_on_line: "d \<notin> set l \<Longrightarrow> split_on d (l @ d # cs) = l # split_on d cs"
  by (induction l) auto

lemma split_on_lines:
  "\<forall>l\<in>set ls. d \<notin> set l \<Longrightarrow> split_on d (concat (map (\<lambda>l. l @ [d]) ls)) = ls @ [[]]"
  by (induction ls) (simp_all add: split_on_line)

lemma replace_crlf_id: "CR \<notin> set cs \<Longrightarrow> replace_crlf cs = cs"
  by (induction cs rule: replace_crlf.induct) auto

lemma replace_cr_id: "CR \<notin> set cs \<Longrightarrow> replace_cr cs = cs"
  unfolding replace_cr_def by (induction cs) auto

lemma CR_neq_LF [simp]: "CR \<noteq> LF" "LF \<noteq> CR"
  by (simp_all add: CR_def LF_def)

text \<open>A text in the two other line-end conventions.\<close>

definition dos :: "string \<Rightarrow> string" where
  "dos cs = concat (map (\<lambda>c. if c = LF then [CR, LF] else [c]) cs)"

definition mac :: "string \<Rightarrow> string" where
  "mac cs = map (\<lambda>c. if c = LF then CR else c) cs"

lemma replace_crlf_dos: "CR \<notin> set cs \<Longrightarrow> replace_crlf (dos cs) = cs"
proof (induction cs)
  case (Cons c cs)
  show ?case
  proof (cases "c = LF")
    case True
    with Cons show ?thesis by (simp add: dos_def)
  next
    case False
    with Cons have "replace_crlf (c # dos cs) = c # replace_crlf (dos cs)"
      by (cases "dos cs") auto
    with False Cons show ?thesis by (simp add: dos_def)
  qed
qed (simp add: dos_def)

lemma replace_crlf_mac: "CR \<notin> set cs \<Longrightarrow> replace_crlf (mac cs) = mac cs"
proof -
  have "LF \<notin> set xs \<Longrightarrow> replace_crlf xs = xs" for xs
    by (induction xs rule: replace_crlf.induct) auto
  moreover assume "CR \<notin> set cs"
  then have "LF \<notin> set (mac cs)" by (auto simp: mac_def split: if_splits)
  ultimately show "replace_crlf (mac cs) = mac cs" .
qed

lemma replace_cr_mac: "CR \<notin> set cs \<Longrightarrow> replace_cr (mac cs) = cs"
  unfolding replace_cr_def mac_def by (induction cs) auto

section \<open>Sections\<close>

text \<open>Entries that the reader keeps as they are.\<close>

definition plain_entry :: "bool \<Rightarrow> string \<Rightarrow> bool" where
  "plain_entry bTrim e \<longleftrightarrow> e \<noteq> [] \<and> hd e \<noteq> CHR ''#'' \<and> \<not> is_header e \<and> CR \<notin> set e \<and> LF \<notin> set e
     \<and> (bTrim \<longrightarrow> trim e = e)"

definition plain_section :: "bool \<Rightarrow> string \<times> string list \<Rightarrow> bool" where
  "plain_section bTrim s \<longleftrightarrow> CR \<notin> set (fst s) \<and> LF \<notin> set (fst s) \<and> (\<forall>e\<in>set (snd s). plain_entry bTrim e)"

definition section_lines :: "string \<times> string list \<Rightarrow> string list" where
  "section_lines s = (CHR ''['' # fst s @ [CHR '']'']) # snd s"

definition render :: "(string \<times> string list) list \<Rightarrow> string" where
  "render secs = concat (map (\<lambda>l. l @ [LF]) (concat (map section_lines secs)))"

lemma parse_header: "parse_line bTrim (cur, res) (CHR ''['' # name @ [CHR '']'']) = (name, res(name \<mapsto> []))"
  by (simp add: parse_line_def is_header_def)

lemma parse_entries:
  "\<forall>e\<in>set es. plain_entry bTrim e \<Longrightarrow> res cur = Some vs \<Longrightarrow>
   foldl (parse_line bTrim) (cur, res) es = (cur, res(cur \<mapsto> vs @ es))"
proof (induction es arbitrary: res vs)
  case Nil
  then show ?case by (simp add: map_upd_triv)
next
  case (Cons e es)
  then have "parse_line bTrim (cur, res) e = (cur, res(cur \<mapsto> vs @ [e]))"
    by (auto simp: parse_line_def plain_entry_def)
  with Cons.prems Cons.IH [of "res(cur \<mapsto> vs @ [e])" "vs @ [e]"] show ?case
    by (simp add: fun_upd_same del: fun_upd_apply)
qed

lemma parse_section:
  assumes "plain_section bTrim s"
  shows "foldl (parse_line bTrim) (cur, res) (section_lines s) = (fst s, res(fst s \<mapsto> snd s))"
  using assms parse_entries [of "snd s" bTrim "res(fst s \<mapsto> [])" "fst s" "[]"]
  by (simp add: section_lines_def parse_header plain_section_def)

lemma parse_sections:
  assumes "\<forall>s\<in>set secs. plain_section bTrim s" "distinct (map fst secs)"
  shows "snd (foldl (parse_line bTrim) (cur, res) (concat (map section_lines secs))) = res ++ map_of secs"
  using assms
proof (induction secs arbitrary: cur res)
  case (Cons s secs)
  have "map_of secs (fst s) = None" using Cons.prems by (simp add: map_of_eq_None_iff)
  then have "res(fst s \<mapsto> snd s) ++ map_of secs = res ++ (map_of secs)(fst s \<mapsto> snd s)"
    by (auto simp: fun_eq_iff map_add_def split: option.splits)
  with Cons show ?case by (simp add: parse_section del: fun_upd_apply)
qed simp

lemma chars_of_plain_lines:
  assumes "\<forall>s\<in>set secs. plain_section bTrim s"
  shows "\<forall>l\<in>set (concat (map section_lines secs)). CR \<notin> set l \<and> LF \<notin> set l"
  using assms by (auto simp: section_lines_def plain_section_def plain_entry_def CR_def LF_def)

lemma CR_notin_render:
  assumes "\<forall>s\<in>set secs. plain_section bTrim s"
  shows "CR \<notin> set (render secs)"
  using chars_of_plain_lines [OF assms] by (auto simp: render_def)

section \<open>Properties\<close>

text \<open>C28: A file of named sections, each a header line followed by its entries, is read
  into exactly these sections, beside the default section, whichever of the three line-end conventions
  the file uses.\<close>

theorem ParseSection_render:
  assumes "\<forall>s\<in>set secs. plain_section bTrim s" and "distinct (map fst secs)"
    and "strInput \<in> {render secs, dos (render secs), mac (render secs)}"
  shows "ParseSection strInput bTrim = [[] \<mapsto> []] ++ map_of secs"
proof -
  let ?ls = "concat (map section_lines secs)"
  note cr = CR_notin_render [OF assms(1)]
  have "replace_cr (replace_crlf strInput) = render secs"
    using assms(3) cr
    by (auto simp: replace_crlf_dos replace_crlf_mac replace_cr_mac replace_crlf_id replace_cr_id)
  moreover have "split_on LF (render secs) = ?ls @ [[]]"
    using chars_of_plain_lines [OF assms(1)] unfolding render_def by (intro split_on_lines) blast
  moreover have "parse_line bTrim st [] = st" for st by (simp add: parse_line_def split_beta)
  ultimately show ?thesis
    using parse_sections [OF assms(1,2)] by (simp add: ParseSection_def)
qed

theorem ParseSection_render_witness:
  "ParseSection (dos (render [(''ips'', [''1.2.3.4'']), (''domains'', [])])) True
     = [[] \<mapsto> [], ''ips'' \<mapsto> [''1.2.3.4''], ''domains'' \<mapsto> []]"
  using ParseSection_render [of "[(''ips'', [''1.2.3.4'']), (''domains'', [])]" True
      "dos (render [(''ips'', [''1.2.3.4'']), (''domains'', [])])"]
  by (auto simp: plain_section_def plain_entry_def is_header_def trim_def isspace_def CR_def LF_def)

end
