(* ===== verification/Rfc1751Dict.thy ===== *)
theory Rfc1751Dict
  imports Uint256
begin

text \<open>
  The dictionary \<^verbatim>\<open>pcDict\<close> of \<^verbatim>\<open>shared/rfc1751.cpp\<close>: 571 words of one to three
  letters, then 1477 words of four letters. What the search and the decoder rely on is checked here:
  both parts are strictly ascending in the order of \<^verbatim>\<open>std::string::compare\<close>, and no word is
  empty or contains white space or a NUL.
\<close>

section \<open>The words\<close>

definition shortWords0 :: "string list" where
  "shortWords0 = [
     ''A'', ''ABE'', ''ACE'', ''ACT'', ''AD'', ''ADA'', ''ADD'', ''AGO'', ''AID'', ''AIM'', ''AIR'',
     ''ALL'', ''ALP'', ''AM'', ''AMY'', ''AN'', ''ANA'', ''AND'', ''ANN'', ''ANT'', ''ANY'', ''APE'',
     ''APS'', ''APT'', ''ARC'', ''ARE'', ''ARK'', ''ARM'', ''ART'', ''AS'', ''ASH'', ''ASK'', ''AT'',
     ''ATE'', ''AUG'', ''AUK'', ''AVE'', ''AWE'', ''AWK'', ''AWL'', ''AWN'', ''AX'', ''AYE'', ''BAD'',
     ''BAG'', ''BAH'', ''BAM'', ''BAN'', ''BAR'', ''BAT'', ''BAY'', ''BE'', ''BED'', ''BEE'', ''BEG'',
     ''BEN'', ''BET'', ''BEY'', ''BIB'', ''BID'', ''BIG'', ''BIN'', ''BIT'', ''BOB'', ''BOG'', ''BON'',
     ''BOO'', ''BOP'', ''BOW'', ''BOY'', ''BUB'', ''BUD'', ''BUG'', ''BUM'', ''BUN'', ''BUS'', ''BUT'',
     ''BUY'', ''BY'', ''BYE'', ''CAB'', ''CAL'', ''CAM'', ''CAN'', ''CAP'', ''CAR'', ''CAT'', ''CAW'',
     ''COD'', ''COG'', ''COL'', ''CON'', ''COO'', ''COP'', ''COT'']"

definition shortWords1 :: "string list" where
  "shortWords1 = [
     ''COW'', ''COY'', ''CRY'', ''CUB'', ''CUE'', ''CUP'', ''CUR'', ''CUT'', ''DAB'', ''DAD'', ''DAM'',
     ''DAN'', ''DAR'', ''DAY'', ''DEE'', ''DEL'', ''DEN'', ''DES'', ''DEW'', ''DID'', ''DIE'', ''DIG'',
     ''DIN'', ''DIP'', ''DO'', ''DOE'', ''DOG'', ''DON'', ''DOT'', ''DOW'', ''DRY'', ''DUB'', ''DUD'',
     ''DUE'', ''DUG'', ''DUN'', ''EAR'', ''EAT'', ''ED'', ''EEL'', ''EGG'', ''EGO'', ''ELI'', ''ELK'',
     ''ELM'', ''ELY'', ''EM'', ''END'', ''EST'', ''ETC'', ''EVA'', ''EVE'', ''EWE'', ''EYE'', ''FAD'',
     ''FAN'', ''FAR'', ''FAT'', ''FAY'', ''FED'', ''FEE'', ''FEW'', ''FIB'', ''FIG'', ''FIN'', ''FIR'',
     ''FIT'', ''FLO'', ''FLY'', ''FOE'', ''FOG'', ''FOR'', ''FRY'', ''FUM'', ''FUN'', ''FUR'', ''GAB'',
     ''GAD'', ''GAG'', ''GAL'', ''GAM'', ''GAP'', ''GAS'', ''GAY'', ''GEE'', ''GEL'', ''GEM'', ''GET'',
     ''GIG'', ''GIL'', ''GIN'', ''GO'', ''GOT'', ''GUM'', ''GUN'']"

definition shortWords2 :: "string list" where
  "shortWords2 = [
     ''GUS'', ''GUT'', ''GUY'', ''GYM'', ''GYP'', ''HA'', ''HAD'', ''HAL'', ''HAM'', ''HAN'', ''HAP'',
     ''HAS'', ''HAT'', ''HAW'', ''HAY'', ''HE'', ''HEM'', ''HEN'', ''HER'', ''HEW'', ''HEY'', ''HI'',
     ''HID'', ''HIM'', ''HIP'', ''HIS'', ''HIT'', ''HO'', ''HOB'', ''HOC'', ''HOE'', ''HOG'', ''HOP'',
     ''HOT'', ''HOW'', ''HUB'', ''HUE'', ''HUG'', ''HUH'', ''HUM'', ''HUT'', ''I'', ''ICY'', ''IDA'',
     ''IF'', ''IKE'', ''ILL'', ''INK'', ''INN'', ''IO'', ''ION'', ''IQ'', ''IRA'', ''IRE'', ''IRK'',
     ''IS'', ''IT'', ''ITS'', ''IVY'', ''JAB'', ''JAG'', ''JAM'', ''JAN'', ''JAR'', ''JAW'', ''JAY'',
     ''JET'', ''JIG'', ''JIM'', ''JO'', ''JOB'', ''JOE'', ''JOG'', ''JOT'', ''JOY'', ''JUG'', ''JUT'',
     ''KAY'', ''KEG'', ''KEN'', ''KEY'', ''KID'', ''KIM'', ''KIN'', ''KIT'', ''LA'', ''LAB'', ''LAC'',
     ''LAD'', ''LAG'', ''LAM'', ''LAP'', ''LAW'', ''LAY'', ''LEA'']"

definition shortWords3 :: "string list" where
  "shortWords3 = [
     ''LED'', ''LEE'', ''LEG'', ''LEN'', ''LEO'', ''LET'', ''LEW'', ''LID'', ''LIE'', ''LIN'', ''LIP'',
     ''LIT'', ''LO'', ''LOB'', ''LOG'', ''LOP'', ''LOS'', ''LOT'', ''LOU'', ''LOW'', ''LOY'', ''LUG'',
     ''LYE'', ''MA'', ''MAC'', ''MAD'', ''MAE'', ''MAN'', ''MAO'', ''MAP'', ''MAT'', ''MAW'', ''MAY'',
     ''ME'', ''MEG'', ''MEL'', ''MEN'', ''MET'', ''MEW'', ''MID'', ''MIN'', ''MIT'', ''MOB'', ''MOD'',
     ''MOE'', ''MOO'', ''MOP'', ''MOS'', ''MOT'', ''MOW'', ''MUD'', ''MUG'', ''MUM'', ''MY'', ''NAB'',
     ''NAG'', ''NAN'', ''NAP'', ''NAT'', ''NAY'', ''NE'', ''NED'', ''NEE'', ''NET'', ''NEW'', ''NIB'',
     ''NIL'', ''NIP'', ''NIT'', ''NO'', ''NOB'', ''NOD'', ''NON'', ''NOR'', ''NOT'', ''NOV'', ''NOW'',
     ''NU'', ''NUN'', ''NUT'', ''O'', ''OAF'', ''OAK'', ''OAR'', ''OAT'', ''ODD'', ''ODE'', ''OF'',
     ''OFF'', ''OFT'', ''OH'', ''OIL'', ''OK'', ''OLD'', ''ON'']"

definition shortWords4 :: "string list" where
  "shortWords4 = [
     ''ONE'', ''OR'', ''ORB'', ''ORE'', ''ORR'', ''OS'', ''OTT'', ''OUR'', ''OUT'', ''OVA'', ''OW'',
     ''OWE'', ''OWL'', ''OWN'', ''OX'', ''PA'', ''PAD'', ''PAL'', ''PAM'', ''PAN'', ''PAP'', ''PAR'',
     ''PAT'', ''PAW'', ''PAY'', ''PEA'', ''PEG'', ''PEN'', ''PEP'', ''PER'', ''PET'', ''PEW'', ''PHI'',
     ''PI'', ''PIE'', ''PIN'', ''PIT'', ''PLY'', ''PO'', ''POD'', ''POE'', ''POP'', ''POT'', ''POW'',
     ''PRO'', ''PRY'', ''PUB'', ''PUG'', ''PUN'', ''PUP'', ''PUT'', ''QUO'', ''RAG'', ''RAM'', ''RAN'',
     ''RAP'', ''RAT'', ''RAW'', ''RAY'', ''REB'', ''RED'', ''REP'', ''RET'', ''RIB'', ''RID'', ''RIG'',
     ''RIM'', ''RIO'', ''RIP'', ''ROB'', ''ROD'', ''ROE'', ''RON'', ''ROT'', ''ROW'', ''ROY'', ''RUB'',
     ''RUE'', ''RUG'', ''RUM'', ''RUN'', ''RYE'', ''SAC'', ''SAD'', ''SAG'', ''SAL'', ''SAM'', ''SAN'',
     ''SAP'', ''SAT'', ''SAW'', ''SAY'', ''SEA'', ''SEC'', ''SEE'']"

definition shortWords5 :: "string list" where
  "shortWords5 = [
     ''SEN'', ''SET'', ''SEW'', ''SHE'', ''SHY'', ''SIN'', ''SIP'', ''SIR'', ''SIS'', ''SIT'', ''SKI'',
     ''SKY'', ''SLY'', ''SO'', ''SOB'', ''SOD'', ''SON'', ''SOP'', ''SOW'', ''SOY'', ''SPA'', ''SPY'',
     ''SUB'', ''SUD'', ''SUE'', ''SUM'', ''SUN'', ''SUP'', ''TAB'', ''TAD'', ''TAG'', ''TAN'', ''TAP'',
     ''TAR'', ''TEA'', ''TED'', ''TEE'', ''TEN'', ''THE'', ''THY'', ''TIC'', ''TIE'', ''TIM'', ''TIN'',
     ''TIP'', ''TO'', ''TOE'', ''TOG'', ''TOM'', ''TON'', ''TOO'', ''TOP'', ''TOW'', ''TOY'', ''TRY'',
     ''TUB'', ''TUG'', ''TUM'', ''TUN'', ''TWO'', ''UN'', ''UP'', ''US'', ''USE'', ''VAN'', ''VAT'',
     ''VET'', ''VIE'', ''WAD'', ''WAG'', ''WAR'', ''WAS'', ''WAY'', ''WE'', ''WEB'', ''WED'', ''WEE'',
     ''WET'', ''WHO'', ''WHY'', ''WIN'', ''WIT'', ''WOK'', ''WON'', ''WOO'', ''WOW'', ''WRY'', ''WU'',
     ''YAM'', ''YAP'', ''YAW'', ''YE'', ''YEA'', ''YES'', ''YET'', ''YOU'']"

definition longWords0 :: "string list" where
  "longWords0 = [
     ''ABED'', ''ABEL'', ''ABET'', ''ABLE'', ''ABUT'', ''ACHE'', ''ACID'', ''ACME'', ''ACRE'', ''ACTA'',
     ''ACTS'', ''ADAM'', ''ADDS'', ''ADEN'', ''AFAR'', ''AFRO'', ''AGEE'', ''AHEM'', ''AHOY'', ''AIDA'',
     ''AIDE'', ''AIDS'', ''AIRY'', ''AJAR'', ''AKIN'', ''ALAN'', ''ALEC'', ''ALGA'', ''ALIA'', ''ALLY'',
     ''ALMA'', ''ALOE'', ''ALSO'', ''ALTO'', ''ALUM'', ''ALVA'', ''AMEN'', ''AMES'', ''AMID'', ''AMMO'',
     ''AMOK'', ''AMOS'', ''AMRA'', ''ANDY'', ''ANEW'', ''ANNA'', ''ANNE'', ''ANTE'', ''ANTI'', ''AQUA'',
     ''ARAB'', ''ARCH'', ''AREA'', ''ARGO'', ''ARID'', ''ARMY'', ''ARTS'', ''ARTY'', ''ASIA'', ''ASKS'',
     ''ATOM'', ''AUNT'', ''AURA'', ''AUTO'', ''AVER'', ''AVID'', ''AVIS'', ''AVON'', ''AVOW'', ''AWAY'',
     ''AWRY'', ''BABE'', ''BABY'', ''BACH'', ''BACK'', ''BADE'', ''BAIL'', ''BAIT'', ''BAKE'', ''BALD'',
     ''BALE'', ''BALI'', ''BALK'', ''BALL'', ''BALM'', ''BAND'', ''BANE'', ''BANG'', ''BANK'', ''BARB'',
     ''BARD'', ''BARE'', ''BARK'', ''BARN'', ''BARR'', ''BASE'', ''BASH'', ''BASK'']"

definition longWords1 :: "string list" where
  "longWords1 = [
     ''BASS'', ''BATE'', ''BATH'', ''BAWD'', ''BAWL'', ''BEAD'', ''BEAK'', ''BEAM'', ''BEAN'', ''BEAR'',
     ''BEAT'', ''BEAU'', ''BECK'', ''BEEF'', ''BEEN'', ''BEER'', ''BEET'', ''BELA'', ''BELL'', ''BELT'',
     ''BEND'', ''BENT'', ''BERG'', ''BERN'', ''BERT'', ''BESS'', ''BEST'', ''BETA'', ''BETH'', ''BHOY'',
     ''BIAS'', ''BIDE'', ''BIEN'', ''BILE'', ''BILK'', ''BILL'', ''BIND'', ''BING'', ''BIRD'', ''BITE'',
     ''BITS'', ''BLAB'', ''BLAT'', ''BLED'', ''BLEW'', ''BLOB'', ''BLOC'', ''BLOT'', ''BLOW'', ''BLUE'',
     ''BLUM'', ''BLUR'', ''BOAR'', ''BOAT'', ''BOCA'', ''BOCK'', ''BODE'', ''BODY'', ''BOGY'', ''BOHR'',
     ''BOIL'', ''BOLD'', ''BOLO'', ''BOLT'', ''BOMB'', ''BONA'', ''BOND'', ''BONE'', ''BONG'', ''BONN'',
     ''BONY'', ''BOOK'', ''BOOM'', ''BOON'', ''BOOT'', ''BORE'', ''BORG'', ''BORN'', ''BOSE'', ''BOSS'',
     ''BOTH'', ''BOUT'', ''BOWL'', ''BOYD'', ''BRAD'', ''BRAE'', ''BRAG'', ''BRAN'', ''BRAY'', ''BRED'',
     ''BREW'', ''BRIG'', ''BRIM'', ''BROW'', ''BUCK'', ''BUDD'', ''BUFF'', ''BULB'']"

definition longWords2 :: "string list" where
  "longWords2 = [
     ''BULK'', ''BULL'', ''BUNK'', ''BUNT'', ''BUOY'', ''BURG'', ''BURL'', ''BURN'', ''BURR'', ''BURT'',
     ''BURY'', ''BUSH'', ''BUSS'', ''BUST'', ''BUSY'', ''BYTE'', ''CADY'', ''CAFE'', ''CAGE'', ''CAIN'',
     ''CAKE'', ''CALF'', ''CALL'', ''CALM'', ''CAME'', ''CANE'', ''CANT'', ''CARD'', ''CARE'', ''CARL'',
     ''CARR'', ''CART'', ''CASE'', ''CASH'', ''CASK'', ''CAST'', ''CAVE'', ''CEIL'', ''CELL'', ''CENT'',
     ''CERN'', ''CHAD'', ''CHAR'', ''CHAT'', ''CHAW'', ''CHEF'', ''CHEN'', ''CHEW'', ''CHIC'', ''CHIN'',
     ''CHOU'', ''CHOW'', ''CHUB'', ''CHUG'', ''CHUM'', ''CITE'', ''CITY'', ''CLAD'', ''CLAM'', ''CLAN'',
     ''CLAW'', ''CLAY'', ''CLOD'', ''CLOG'', ''CLOT'', ''CLUB'', ''CLUE'', ''COAL'', ''COAT'', ''COCA'',
     ''COCK'', ''COCO'', ''CODA'', ''CODE'', ''CODY'', ''COED'', ''COIL'', ''COIN'', ''COKE'', ''COLA'',
     ''COLD'', ''COLT'', ''COMA'', ''COMB'', ''COME'', ''COOK'', ''COOL'', ''COON'', ''COOT'', ''CORD'',
     ''CORE'', ''CORK'', ''CORN'', ''COST'', ''COVE'', ''COWL'', ''CRAB'', ''CRAG'', ''CRAM'']"

definition longWords3 :: "string list" where
  "longWords3 = [
     ''CRAY'', ''CREW'', ''CRIB'', ''CROW'', ''CRUD'', ''CUBA'', ''CUBE'', ''CUFF'', ''CULL'', ''CULT'',
     ''CUNY'', ''CURB'', ''CURD'', ''CURE'', ''CURL'', ''CURT'', ''CUTS'', ''DADE'', ''DALE'', ''DAME'',
     ''DANA'', ''DANE'', ''DANG'', ''DANK'', ''DARE'', ''DARK'', ''DARN'', ''DART'', ''DASH'', ''DATA'',
     ''DATE'', ''DAVE'', ''DAVY'', ''DAWN'', ''DAYS'', ''DEAD'', ''DEAF'', ''DEAL'', ''DEAN'', ''DEAR'',
     ''DEBT'', ''DECK'', ''DEED'', ''DEEM'', ''DEER'', ''DEFT'', ''DEFY'', ''DELL'', ''DENT'', ''DENY'',
     ''DESK'', ''DIAL'', ''DICE'', ''DIED'', ''DIET'', ''DIME'', ''DINE'', ''DING'', ''DINT'', ''DIRE'',
     ''DIRT'', ''DISC'', ''DISH'', ''DISK'', ''DIVE'', ''DOCK'', ''DOES'', ''DOLE'', ''DOLL'', ''DOLT'',
     ''DOME'', ''DONE'', ''DOOM'', ''DOOR'', ''DORA'', ''DOSE'', ''DOTE'', ''DOUG'', ''DOUR'', ''DOVE'',
     ''DOWN'', ''DRAB'', ''DRAG'', ''DRAM'', ''DRAW'', ''DREW'', ''DRUB'', ''DRUG'', ''DRUM'', ''DUAL'',
     ''DUCK'', ''DUCT'', ''DUEL'', ''DUET'', ''DUKE'', ''DULL'', ''DUMB'', ''DUNE'']"

definition longWords4 :: "string list" where
  "longWords4 = [
     ''DUNK'', ''DUSK'', ''DUST'', ''DUTY'', ''EACH'', ''EARL'', ''EARN'', ''EASE'', ''EAST'', ''EASY'',
     ''EBEN'', ''ECHO'', ''EDDY'', ''EDEN'', ''EDGE'', ''EDGY'', ''EDIT'', ''EDNA'', ''EGAN'', ''ELAN'',
     ''ELBA'', ''ELLA'', ''ELSE'', ''EMIL'', ''EMIT'', ''EMMA'', ''ENDS'', ''ERIC'', ''EROS'', ''EVEN'',
     ''EVER'', ''EVIL'', ''EYED'', ''FACE'', ''FACT'', ''FADE'', ''FAIL'', ''FAIN'', ''FAIR'', ''FAKE'',
     ''FALL'', ''FAME'', ''FANG'', ''FARM'', ''FAST'', ''FATE'', ''FAWN'', ''FEAR'', ''FEAT'', ''FEED'',
     ''FEEL'', ''FEET'', ''FELL'', ''FELT'', ''FEND'', ''FERN'', ''FEST'', ''FEUD'', ''FIEF'', ''FIGS'',
     ''FILE'', ''FILL'', ''FILM'', ''FIND'', ''FINE'', ''FINK'', ''FIRE'', ''FIRM'', ''FISH'', ''FISK'',
     ''FIST'', ''FITS'', ''FIVE'', ''FLAG'', ''FLAK'', ''FLAM'', ''FLAT'', ''FLAW'', ''FLEA'', ''FLED'',
     ''FLEW'', ''FLIT'', ''FLOC'', ''FLOG'', ''FLOW'', ''FLUB'', ''FLUE'', ''FOAL'', ''FOAM'', ''FOGY'',
     ''FOIL'', ''FOLD'', ''FOLK'', ''FOND'', ''FONT'', ''FOOD'', ''FOOL'', ''FOOT'', ''FORD'']"

definition longWords5 :: "string list" where
  "longWords5 = [
     ''FORE'', ''FORK'', ''FORM'', ''FORT'', ''FOSS'', ''FOUL'', ''FOUR'', ''FOWL'', ''FRAU'', ''FRAY'',
     ''FRED'', ''FREE'', ''FRET'', ''FREY'', ''FROG'', ''FROM'', ''FUEL'', ''FULL'', ''FUME'', ''FUND'',
     ''FUNK'', ''FURY'', ''FUSE'', ''FUSS'', ''GAFF'', ''GAGE'', ''GAIL'', ''GAIN'', ''GAIT'', ''GALA'',
     ''GALE'', ''GALL'', ''GALT'', ''GAME'', ''GANG'', ''GARB'', ''GARY'', ''GASH'', ''GATE'', ''GAUL'',
     ''GAUR'', ''GAVE'', ''GAWK'', ''GEAR'', ''GELD'', ''GENE'', ''GENT'', ''GERM'', ''GETS'', ''GIBE'',
     ''GIFT'', ''GILD'', ''GILL'', ''GILT'', ''GINA'', ''GIRD'', ''GIRL'', ''GIST'', ''GIVE'', ''GLAD'',
     ''GLEE'', ''GLEN'', ''GLIB'', ''GLOB'', ''GLOM'', ''GLOW'', ''GLUE'', ''GLUM'', ''GLUT'', ''GOAD'',
     ''GOAL'', ''GOAT'', ''GOER'', ''GOES'', ''GOLD'', ''GOLF'', ''GONE'', ''GONG'', ''GOOD'', ''GOOF'',
     ''GORE'', ''GORY'', ''GOSH'', ''GOUT'', ''GOWN'', ''GRAB'', ''GRAD'', ''GRAY'', ''GREG'', ''GREW'',
     ''GREY'', ''GRID'', ''GRIM'', ''GRIN'', ''GRIT'', ''GROW'', ''GRUB'', ''GULF'']"

definition longWords6 :: "string list" where
  "longWords6 = [
     ''GULL'', ''GUNK'', ''GURU'', ''GUSH'', ''GUST'', ''GWEN'', ''GWYN'', ''HAAG'', ''HAAS'', ''HACK'',
     ''HAIL'', ''HAIR'', ''HALE'', ''HALF'', ''HALL'', ''HALO'', ''HALT'', ''HAND'', ''HANG'', ''HANK'',
     ''HANS'', ''HARD'', ''HARK'', ''HARM'', ''HART'', ''HASH'', ''HAST'', ''HATE'', ''HATH'', ''HAUL'',
     ''HAVE'', ''HAWK'', ''HAYS'', ''HEAD'', ''HEAL'', ''HEAR'', ''HEAT'', ''HEBE'', ''HECK'', ''HEED'',
     ''HEEL'', ''HEFT'', ''HELD'', ''HELL'', ''HELM'', ''HERB'', ''HERD'', ''HERE'', ''HERO'', ''HERS'',
     ''HESS'', ''HEWN'', ''HICK'', ''HIDE'', ''HIGH'', ''HIKE'', ''HILL'', ''HILT'', ''HIND'', ''HINT'',
     ''HIRE'', ''HISS'', ''HIVE'', ''HOBO'', ''HOCK'', ''HOFF'', ''HOLD'', ''HOLE'', ''HOLM'', ''HOLT'',
     ''HOME'', ''HONE'', ''HONK'', ''HOOD'', ''HOOF'', ''HOOK'', ''HOOT'', ''HORN'', ''HOSE'', ''HOST'',
     ''HOUR'', ''HOVE'', ''HOWE'', ''HOWL'', ''HOYT'', ''HUCK'', ''HUED'', ''HUFF'', ''HUGE'', ''HUGH'',
     ''HUGO'', ''HULK'', ''HULL'', ''HUNK'', ''HUNT'', ''HURD'', ''HURL'', ''HURT'', ''HUSH'']"

definition longWords7 :: "string list" where
  "longWords7 = [
     ''HYDE'', ''HYMN'', ''IBIS'', ''ICON'', ''IDEA'', ''IDLE'', ''IFFY'', ''INCA'', ''INCH'', ''INTO'',
     ''IONS'', ''IOTA'', ''IOWA'', ''IRIS'', ''IRMA'', ''IRON'', ''ISLE'', ''ITCH'', ''ITEM'', ''IVAN'',
     ''JACK'', ''JADE'', ''JAIL'', ''JAKE'', ''JANE'', ''JAVA'', ''JEAN'', ''JEFF'', ''JERK'', ''JESS'',
     ''JEST'', ''JIBE'', ''JILL'', ''JILT'', ''JIVE'', ''JOAN'', ''JOBS'', ''JOCK'', ''JOEL'', ''JOEY'',
     ''JOHN'', ''JOIN'', ''JOKE'', ''JOLT'', ''JOVE'', ''JUDD'', ''JUDE'', ''JUDO'', ''JUDY'', ''JUJU'',
     ''JUKE'', ''JULY'', ''JUNE'', ''JUNK'', ''JUNO'', ''JURY'', ''JUST'', ''JUTE'', ''KAHN'', ''KALE'',
     ''KANE'', ''KANT'', ''KARL'', ''KATE'', ''KEEL'', ''KEEN'', ''KENO'', ''KENT'', ''KERN'', ''KERR'',
     ''KEYS'', ''KICK'', ''KILL'', ''KIND'', ''KING'', ''KIRK'', ''KISS'', ''KITE'', ''KLAN'', ''KNEE'',
     ''KNEW'', ''KNIT'', ''KNOB'', ''KNOT'', ''KNOW'', ''KOCH'', ''KONG'', ''KUDO'', ''KURD'', ''KURT'',
     ''KYLE'', ''LACE'', ''LACK'', ''LACY'', ''LADY'', ''LAID'', ''LAIN'', ''LAIR'']"

definition longWords8 :: "string list" where
  "longWords8 = [
     ''LAKE'', ''LAMB'', ''LAME'', ''LAND'', ''LANE'', ''LANG'', ''LARD'', ''LARK'', ''LASS'', ''LAST'',
     ''LATE'', ''LAUD'', ''LAVA'', ''LAWN'', ''LAWS'', ''LAYS'', ''LEAD'', ''LEAF'', ''LEAK'', ''LEAN'',
     ''LEAR'', ''LEEK'', ''LEER'', ''LEFT'', ''LEND'', ''LENS'', ''LENT'', ''LEON'', ''LESK'', ''LESS'',
     ''LEST'', ''LETS'', ''LIAR'', ''LICE'', ''LICK'', ''LIED'', ''LIEN'', ''LIES'', ''LIEU'', ''LIFE'',
     ''LIFT'', ''LIKE'', ''LILA'', ''LILT'', ''LILY'', ''LIMA'', ''LIMB'', ''LIME'', ''LIND'', ''LINE'',
     ''LINK'', ''LINT'', ''LION'', ''LISA'', ''LIST'', ''LIVE'', ''LOAD'', ''LOAF'', ''LOAM'', ''LOAN'',
     ''LOCK'', ''LOFT'', ''LOGE'', ''LOIS'', ''LOLA'', ''LONE'', ''LONG'', ''LOOK'', ''LOON'', ''LOOT'',
     ''LORD'', ''LORE'', ''LOSE'', ''LOSS'', ''LOST'', ''LOUD'', ''LOVE'', ''LOWE'', ''LUCK'', ''LUCY'',
     ''LUGE'', ''LUKE'', ''LULU'', ''LUND'', ''LUNG'', ''LURA'', ''LURE'', ''LURK'', ''LUSH'', ''LUST'',
     ''LYLE'', ''LYNN'', ''LYON'', ''LYRA'', ''MACE'', ''MADE'', ''MAGI'', ''MAID'', ''MAIL'']"

definition longWords9 :: "string list" where
  "longWords9 = [
     ''MAIN'', ''MAKE'', ''MALE'', ''MALI'', ''MALL'', ''MALT'', ''MANA'', ''MANN'', ''MANY'', ''MARC'',
     ''MARE'', ''MARK'', ''MARS'', ''MART'', ''MARY'', ''MASH'', ''MASK'', ''MASS'', ''MAST'', ''MATE'',
     ''MATH'', ''MAUL'', ''MAYO'', ''MEAD'', ''MEAL'', ''MEAN'', ''MEAT'', ''MEEK'', ''MEET'', ''MELD'',
     ''MELT'', ''MEMO'', ''MEND'', ''MENU'', ''MERT'', ''MESH'', ''MESS'', ''MICE'', ''MIKE'', ''MILD'',
     ''MILE'', ''MILK'', ''MILL'', ''MILT'', ''MIMI'', ''MIND'', ''MINE'', ''MINI'', ''MINK'', ''MINT'',
     ''MIRE'', ''MISS'', ''MIST'', ''MITE'', ''MITT'', ''MOAN'', ''MOAT'', ''MOCK'', ''MODE'', ''MOLD'',
     ''MOLE'', ''MOLL'', ''MOLT'', ''MONA'', ''MONK'', ''MONT'', ''MOOD'', ''MOON'', ''MOOR'', ''MOOT'',
     ''MORE'', ''MORN'', ''MORT'', ''MOSS'', ''MOST'', ''MOTH'', ''MOVE'', ''MUCH'', ''MUCK'', ''MUDD'',
     ''MUFF'', ''MULE'', ''MULL'', ''MURK'', ''MUSH'', ''MUST'', ''MUTE'', ''MUTT'', ''MYRA'', ''MYTH'',
     ''NAGY'', ''NAIL'', ''NAIR'', ''NAME'', ''NARY'', ''NASH'', ''NAVE'', ''NAVY'']"

definition longWords10 :: "string list" where
  "longWords10 = [
     ''NEAL'', ''NEAR'', ''NEAT'', ''NECK'', ''NEED'', ''NEIL'', ''NELL'', ''NEON'', ''NERO'', ''NESS'',
     ''NEST'', ''NEWS'', ''NEWT'', ''NIBS'', ''NICE'', ''NICK'', ''NILE'', ''NINA'', ''NINE'', ''NOAH'',
     ''NODE'', ''NOEL'', ''NOLL'', ''NONE'', ''NOOK'', ''NOON'', ''NORM'', ''NOSE'', ''NOTE'', ''NOUN'',
     ''NOVA'', ''NUDE'', ''NULL'', ''NUMB'', ''OATH'', ''OBEY'', ''OBOE'', ''ODIN'', ''OHIO'', ''OILY'',
     ''OINT'', ''OKAY'', ''OLAF'', ''OLDY'', ''OLGA'', ''OLIN'', ''OMAN'', ''OMEN'', ''OMIT'', ''ONCE'',
     ''ONES'', ''ONLY'', ''ONTO'', ''ONUS'', ''ORAL'', ''ORGY'', ''OSLO'', ''OTIS'', ''OTTO'', ''OUCH'',
     ''OUST'', ''OUTS'', ''OVAL'', ''OVEN'', ''OVER'', ''OWLY'', ''OWNS'', ''QUAD'', ''QUIT'', ''QUOD'',
     ''RACE'', ''RACK'', ''RACY'', ''RAFT'', ''RAGE'', ''RAID'', ''RAIL'', ''RAIN'', ''RAKE'', ''RANK'',
     ''RANT'', ''RARE'', ''RASH'', ''RATE'', ''RAVE'', ''RAYS'', ''READ'', ''REAL'', ''REAM'', ''REAR'',
     ''RECK'', ''REED'', ''REEF'', ''REEK'', ''REEL'', ''REID'', ''REIN'', ''RENA'', ''REND'']"

definition longWords11 :: "string list" where
  "longWords11 = [
     ''RENT'', ''REST'', ''RICE'', ''RICH'', ''RICK'', ''RIDE'', ''RIFT'', ''RILL'', ''RIME'', ''RING'',
     ''RINK'', ''RISE'', ''RISK'', ''RITE'', ''ROAD'', ''ROAM'', ''ROAR'', ''ROBE'', ''ROCK'', ''RODE'',
     ''ROIL'', ''ROLL'', ''ROME'', ''ROOD'', ''ROOF'', ''ROOK'', ''ROOM'', ''ROOT'', ''ROSA'', ''ROSE'',
     ''ROSS'', ''ROSY'', ''ROTH'', ''ROUT'', ''ROVE'', ''ROWE'', ''ROWS'', ''RUBE'', ''RUBY'', ''RUDE'',
     ''RUDY'', ''RUIN'', ''RULE'', ''RUNG'', ''RUNS'', ''RUNT'', ''RUSE'', ''RUSH'', ''RUSK'', ''RUSS'',
     ''RUST'', ''RUTH'', ''SACK'', ''SAFE'', ''SAGE'', ''SAID'', ''SAIL'', ''SALE'', ''SALK'', ''SALT'',
     ''SAME'', ''SAND'', ''SANE'', ''SANG'', ''SANK'', ''SARA'', ''SAUL'', ''SAVE'', ''SAYS'', ''SCAN'',
     ''SCAR'', ''SCAT'', ''SCOT'', ''SEAL'', ''SEAM'', ''SEAR'', ''SEAT'', ''SEED'', ''SEEK'', ''SEEM'',
     ''SEEN'', ''SEES'', ''SELF'', ''SELL'', ''SEND'', ''SENT'', ''SETS'', ''SEWN'', ''SHAG'', ''SHAM'',
     ''SHAW'', ''SHAY'', ''SHED'', ''SHIM'', ''SHIN'', ''SHOD'', ''SHOE'', ''SHOT'']"

definition longWords12 :: "string list" where
  "longWords12 = [
     ''SHOW'', ''SHUN'', ''SHUT'', ''SICK'', ''SIDE'', ''SIFT'', ''SIGH'', ''SIGN'', ''SILK'', ''SILL'',
     ''SILO'', ''SILT'', ''SINE'', ''SING'', ''SINK'', ''SIRE'', ''SITE'', ''SITS'', ''SITU'', ''SKAT'',
     ''SKEW'', ''SKID'', ''SKIM'', ''SKIN'', ''SKIT'', ''SLAB'', ''SLAM'', ''SLAT'', ''SLAY'', ''SLED'',
     ''SLEW'', ''SLID'', ''SLIM'', ''SLIT'', ''SLOB'', ''SLOG'', ''SLOT'', ''SLOW'', ''SLUG'', ''SLUM'',
     ''SLUR'', ''SMOG'', ''SMUG'', ''SNAG'', ''SNOB'', ''SNOW'', ''SNUB'', ''SNUG'', ''SOAK'', ''SOAR'',
     ''SOCK'', ''SODA'', ''SOFA'', ''SOFT'', ''SOIL'', ''SOLD'', ''SOME'', ''SONG'', ''SOON'', ''SOOT'',
     ''SORE'', ''SORT'', ''SOUL'', ''SOUR'', ''SOWN'', ''STAB'', ''STAG'', ''STAN'', ''STAR'', ''STAY'',
     ''STEM'', ''STEW'', ''STIR'', ''STOW'', ''STUB'', ''STUN'', ''SUCH'', ''SUDS'', ''SUIT'', ''SULK'',
     ''SUMS'', ''SUNG'', ''SUNK'', ''SURE'', ''SURF'', ''SWAB'', ''SWAG'', ''SWAM'', ''SWAN'', ''SWAT'',
     ''SWAY'', ''SWIM'', ''SWUM'', ''TACK'', ''TACT'', ''TAIL'', ''TAKE'', ''TALE'', ''TALK'']"

definition longWords13 :: "string list" where
  "longWords13 = [
     ''TALL'', ''TANK'', ''TASK'', ''TATE'', ''TAUT'', ''TEAL'', ''TEAM'', ''TEAR'', ''TECH'', ''TEEM'',
     ''TEEN'', ''TEET'', ''TELL'', ''TEND'', ''TENT'', ''TERM'', ''TERN'', ''TESS'', ''TEST'', ''THAN'',
     ''THAT'', ''THEE'', ''THEM'', ''THEN'', ''THEY'', ''THIN'', ''THIS'', ''THUD'', ''THUG'', ''TICK'',
     ''TIDE'', ''TIDY'', ''TIED'', ''TIER'', ''TILE'', ''TILL'', ''TILT'', ''TIME'', ''TINA'', ''TINE'',
     ''TINT'', ''TINY'', ''TIRE'', ''TOAD'', ''TOGO'', ''TOIL'', ''TOLD'', ''TOLL'', ''TONE'', ''TONG'',
     ''TONY'', ''TOOK'', ''TOOL'', ''TOOT'', ''TORE'', ''TORN'', ''TOTE'', ''TOUR'', ''TOUT'', ''TOWN'',
     ''TRAG'', ''TRAM'', ''TRAY'', ''TREE'', ''TREK'', ''TRIG'', ''TRIM'', ''TRIO'', ''TROD'', ''TROT'',
     ''TROY'', ''TRUE'', ''TUBA'', ''TUBE'', ''TUCK'', ''TUFT'', ''TUNA'', ''TUNE'', ''TUNG'', ''TURF'',
     ''TURN'', ''TUSK'', ''TWIG'', ''TWIN'', ''TWIT'', ''ULAN'', ''UNIT'', ''URGE'', ''USED'', ''USER'',
     ''USES'', ''UTAH'', ''VAIL'', ''VAIN'', ''VALE'', ''VARY'', ''VASE'', ''VAST'']"

definition longWords14 :: "string list" where
  "longWords14 = [
     ''VEAL'', ''VEDA'', ''VEIL'', ''VEIN'', ''VEND'', ''VENT'', ''VERB'', ''VERY'', ''VETO'', ''VICE'',
     ''VIEW'', ''VINE'', ''VISE'', ''VOID'', ''VOLT'', ''VOTE'', ''WACK'', ''WADE'', ''WAGE'', ''WAIL'',
     ''WAIT'', ''WAKE'', ''WALE'', ''WALK'', ''WALL'', ''WALT'', ''WAND'', ''WANE'', ''WANG'', ''WANT'',
     ''WARD'', ''WARM'', ''WARN'', ''WART'', ''WASH'', ''WAST'', ''WATS'', ''WATT'', ''WAVE'', ''WAVY'',
     ''WAYS'', ''WEAK'', ''WEAL'', ''WEAN'', ''WEAR'', ''WEED'', ''WEEK'', ''WEIR'', ''WELD'', ''WELL'',
     ''WELT'', ''WENT'', ''WERE'', ''WERT'', ''WEST'', ''WHAM'', ''WHAT'', ''WHEE'', ''WHEN'', ''WHET'',
     ''WHOA'', ''WHOM'', ''WICK'', ''WIFE'', ''WILD'', ''WILL'', ''WIND'', ''WINE'', ''WING'', ''WINK'',
     ''WINO'', ''WIRE'', ''WISE'', ''WISH'', ''WITH'', ''WOLF'', ''WONT'', ''WOOD'', ''WOOL'', ''WORD'',
     ''WORE'', ''WORK'', ''WORM'', ''WORN'', ''WOVE'', ''WRIT'', ''WYNN'', ''YALE'', ''YANG'', ''YANK'',
     ''YARD'', ''YARN'', ''YAWL'', ''YAWN'', ''YEAH'', ''YEAR'', ''YELL'', ''YOGA'', ''YOKE'']"

definition shortWords :: "string list" where
  "shortWords = shortWords0 @ shortWords1 @ shortWords2 @ shortWords3 @ shortWords4 @ shortWords5"

definition longWords :: "string list" where
  "longWords = longWords0 @ longWords1 @ longWords2 @ longWords3 @ longWords4 @ longWords5 @ longWords6 @ longWords7
     @ longWords8 @ longWords9 @ longWords10 @ longWords11 @ longWords12 @ longWords13 @ longWords14"

definition pcDict :: "string list" where
  "pcDict = shortWords @ longWords"

section \<open>The order of strings\<close>

text \<open>The sign of \<^verbatim>\<open>std::string::compare\<close>: characters as unsigned numbers, then the length.\<close>

fun str_compare :: "string \<Rightarrow> string \<Rightarrow> int" where
  "str_compare [] [] = 0"
| "str_compare [] (b # bs) = - 1"
| "str_compare (a # as) [] = 1"
| "str_compare (a # as) (b # bs) =
     (if (of_char a :: nat) < of_char b then - 1
      else if (of_char b :: nat) < of_char a then 1
      else str_compare as bs)"

text \<open>The same order, decided on the bits of the characters.\<close>

fun bits_less :: "bool list \<Rightarrow> bool list \<Rightarrow> bool" where
  "bits_less (a # as) (b # bs) = (if a = b then bits_less as bs else b)"
| "bits_less _ _ = False"

fun char_bits :: "char \<Rightarrow> bool list" where
  "char_bits (Char b0 b1 b2 b3 b4 b5 b6 b7) = [b7, b6, b5, b4, b3, b2, b1, b0]"

fun str_less :: "string \<Rightarrow> string \<Rightarrow> bool" where
  "str_less _ [] = False"
| "str_less [] (b # bs) = True"
| "str_less (a # as) (b # bs) = (if a = b then str_less as bs else bits_less (char_bits a) (char_bits b))"

lemma bits_less_val:
  "length xs = length ys \<Longrightarrow> bits_less xs ys \<longleftrightarrow> be_val 2 (map of_bool xs) < be_val 2 (map of_bool ys)"
proof (induction xs ys rule: list_induct2)
  case (Cons x xs y ys)
  have "be_val 2 (map of_bool zs) < 2 ^ length (map of_bool zs :: nat list)" for zs
    by (rule be_val_bound) auto
  from this [of xs] this [of ys] show ?case using Cons by (cases x; cases y) auto
qed simp

lemma length_char_bits [simp]: "length (char_bits c) = 8"
  by (cases c) simp

lemma char_bits_val: "be_val 2 (map of_bool (char_bits c)) = (of_char c :: nat)"
  by (cases c) (simp add: of_char_def algebra_simps)

lemma char_less: "bits_less (char_bits a) (char_bits b) \<longleftrightarrow> (of_char a :: nat) < of_char b"
  by (simp add: bits_less_val char_bits_val)

lemma str_compare_less: "str_compare a b < 0 \<longleftrightarrow> str_less a b"
  by (induction a b rule: str_compare.induct) (auto simp: char_less)

lemma str_compare_zero: "str_compare a b = 0 \<longleftrightarrow> a = b"
  by (induction a b rule: str_compare.induct) auto

lemma str_compare_sym: "str_compare b a = - str_compare a b"
  by (induction a b rule: str_compare.induct) auto

lemma str_less_trans: "str_less a b \<Longrightarrow> str_less b c \<Longrightarrow> str_less a c"
proof (induction a arbitrary: b c)
  case Nil
  then show ?case by (cases b; cases c) auto
next
  case (Cons x a)
  then show ?case by (cases b; cases c) (auto simp: char_less split: if_splits)
qed

text \<open>Ascending words with lengths between \<open>p\<close> and \<open>q\<close> and without white space and NUL, above \<open>a\<close>.\<close>

fun chain :: "nat \<Rightarrow> nat \<Rightarrow> string \<Rightarrow> string list \<Rightarrow> bool" where
  "chain p q a [] = True"
| "chain p q a (b # l) = (str_less a b \<and> p \<le> length b \<and> length b \<le> q \<and> list_all (\<lambda>c. \<not> isspace c \<and> c \<noteq> CHR 0x00) b
     \<and> chain p q b l)"

lemma chain_append:
  "chain p q a (xs @ ys) \<longleftrightarrow> chain p q a xs \<and> chain p q (if xs = [] then a else last xs) ys"
  by (induction xs arbitrary: a) auto

lemma chain_sorted: "chain p q a l \<Longrightarrow> sorted_wrt str_less (a # l)"
proof (induction l arbitrary: a)
  case (Cons b l)
  have "sorted_wrt str_less (b # l)" using Cons.IH [of b] Cons.prems by simp
  then show ?case using Cons.prems str_less_trans by auto
qed simp

lemma chain_word: "chain p q a l \<Longrightarrow> w \<in> set l \<Longrightarrow> p \<le> length w \<and> length w \<le> q \<and> (\<forall>c\<in>set w. \<not> isspace c \<and> c \<noteq> CHR 0x00)"
  by (induction l arbitrary: a) (auto simp: list_all_iff)

section \<open>The words are in order\<close>

lemma chain_shortWords0: "chain 1 3 [] shortWords0"
  by code_simp

lemma chain_shortWords1: "chain 1 3 ''COT'' shortWords1"
  by code_simp

lemma chain_shortWords2: "chain 1 3 ''GUN'' shortWords2"
  by code_simp

lemma chain_shortWords3: "chain 1 3 ''LEA'' shortWords3"
  by code_simp

lemma chain_shortWords4: "chain 1 3 ''ON'' shortWords4"
  by code_simp

lemma chain_shortWords5: "chain 1 3 ''SEE'' shortWords5"
  by code_simp

lemma chain_longWords0: "chain 4 4 [] longWords0"
  by code_simp

lemma chain_longWords1: "chain 4 4 ''BASK'' longWords1"
  by code_simp

lemma chain_longWords2: "chain 4 4 ''BULB'' longWords2"
  by code_simp

lemma chain_longWords3: "chain 4 4 ''CRAM'' longWords3"
  by code_simp

lemma chain_longWords4: "chain 4 4 ''DUNE'' longWords4"
  by code_simp

lemma chain_longWords5: "chain 4 4 ''FORD'' longWords5"
  by code_simp

lemma chain_longWords6: "chain 4 4 ''GULF'' longWords6"
  by code_simp

lemma chain_longWords7: "chain 4 4 ''HUSH'' longWords7"
  by code_simp

lemma chain_longWords8: "chain 4 4 ''LAIR'' longWords8"
  by code_simp

lemma chain_longWords9: "chain 4 4 ''MAIL'' longWords9"
  by code_simp

lemma chain_longWords10: "chain 4 4 ''NAVY'' longWords10"
  by code_simp

lemma chain_longWords11: "chain 4 4 ''REND'' longWords11"
  by code_simp

lemma chain_longWords12: "chain 4 4 ''SHOT'' longWords12"
  by code_simp

lemma chain_longWords13: "chain 4 4 ''TALK'' longWords13"
  by code_simp

lemma chain_longWords14: "chain 4 4 ''VAST'' longWords14"
  by code_simp

lemma ends_shortWords0: "length shortWords0 = 95 \<and> last shortWords0 = ''COT'' \<and> shortWords0 \<noteq> []"
  by (simp add: shortWords0_def)

lemma ends_shortWords1: "length shortWords1 = 95 \<and> last shortWords1 = ''GUN'' \<and> shortWords1 \<noteq> []"
  by (simp add: shortWords1_def)

lemma ends_shortWords2: "length shortWords2 = 95 \<and> last shortWords2 = ''LEA'' \<and> shortWords2 \<noteq> []"
  by (simp add: shortWords2_def)

lemma ends_shortWords3: "length shortWords3 = 95 \<and> last shortWords3 = ''ON'' \<and> shortWords3 \<noteq> []"
  by (simp add: shortWords3_def)

lemma ends_shortWords4: "length shortWords4 = 95 \<and> last shortWords4 = ''SEE'' \<and> shortWords4 \<noteq> []"
  by (simp add: shortWords4_def)

lemma ends_shortWords5: "length shortWords5 = 96 \<and> last shortWords5 = ''YOU'' \<and> shortWords5 \<noteq> []"
  by (simp add: shortWords5_def)

lemma ends_longWords0: "length longWords0 = 98 \<and> last longWords0 = ''BASK'' \<and> longWords0 \<noteq> []"
  by (simp add: longWords0_def)

lemma ends_longWords1: "length longWords1 = 98 \<and> last longWords1 = ''BULB'' \<and> longWords1 \<noteq> []"
  by (simp add: longWords1_def)

lemma ends_longWords2: "length longWords2 = 99 \<and> last longWords2 = ''CRAM'' \<and> longWords2 \<noteq> []"
  by (simp add: longWords2_def)

lemma ends_longWords3: "length longWords3 = 98 \<and> last longWords3 = ''DUNE'' \<and> longWords3 \<noteq> []"
  by (simp add: longWords3_def)

lemma ends_longWords4: "length longWords4 = 99 \<and> last longWords4 = ''FORD'' \<and> longWords4 \<noteq> []"
  by (simp add: longWords4_def)

lemma ends_longWords5: "length longWords5 = 98 \<and> last longWords5 = ''GULF'' \<and> longWords5 \<noteq> []"
  by (simp add: longWords5_def)

lemma ends_longWords6: "length longWords6 = 99 \<and> last longWords6 = ''HUSH'' \<and> longWords6 \<noteq> []"
  by (simp add: longWords6_def)

lemma ends_longWords7: "length longWords7 = 98 \<and> last longWords7 = ''LAIR'' \<and> longWords7 \<noteq> []"
  by (simp add: longWords7_def)

lemma ends_longWords8: "length longWords8 = 99 \<and> last longWords8 = ''MAIL'' \<and> longWords8 \<noteq> []"
  by (simp add: longWords8_def)

lemma ends_longWords9: "length longWords9 = 98 \<and> last longWords9 = ''NAVY'' \<and> longWords9 \<noteq> []"
  by (simp add: longWords9_def)

lemma ends_longWords10: "length longWords10 = 99 \<and> last longWords10 = ''REND'' \<and> longWords10 \<noteq> []"
  by (simp add: longWords10_def)

lemma ends_longWords11: "length longWords11 = 98 \<and> last longWords11 = ''SHOT'' \<and> longWords11 \<noteq> []"
  by (simp add: longWords11_def)

lemma ends_longWords12: "length longWords12 = 99 \<and> last longWords12 = ''TALK'' \<and> longWords12 \<noteq> []"
  by (simp add: longWords12_def)

lemma ends_longWords13: "length longWords13 = 98 \<and> last longWords13 = ''VAST'' \<and> longWords13 \<noteq> []"
  by (simp add: longWords13_def)

lemma ends_longWords14: "length longWords14 = 99 \<and> last longWords14 = ''YOKE'' \<and> longWords14 \<noteq> []"
  by (simp add: longWords14_def)

lemmas chain_short = chain_shortWords0 chain_shortWords1 chain_shortWords2 chain_shortWords3
  chain_shortWords4 chain_shortWords5

lemmas ends_short = ends_shortWords0 ends_shortWords1 ends_shortWords2 ends_shortWords3
  ends_shortWords4 ends_shortWords5

lemmas chain_long = chain_longWords0 chain_longWords1 chain_longWords2 chain_longWords3 chain_longWords4
  chain_longWords5 chain_longWords6 chain_longWords7 chain_longWords8 chain_longWords9 chain_longWords10
  chain_longWords11 chain_longWords12 chain_longWords13 chain_longWords14

lemmas ends_long = ends_longWords0 ends_longWords1 ends_longWords2 ends_longWords3 ends_longWords4
  ends_longWords5 ends_longWords6 ends_longWords7 ends_longWords8 ends_longWords9 ends_longWords10
  ends_longWords11 ends_longWords12 ends_longWords13 ends_longWords14

lemma length_shortWords: "length shortWords = 571"
  by (simp add: shortWords_def ends_short)

lemma length_longWords: "length longWords = 1477"
  by (simp add: longWords_def ends_long)

lemma length_pcDict [simp]: "length pcDict = 2048"
  by (simp add: pcDict_def length_shortWords length_longWords)

lemma chain_shortWords: "chain 1 3 [] shortWords"
  by (simp add: shortWords_def chain_append chain_short [simplified One_nat_def] ends_short)

lemma chain_longWords: "chain 4 4 [] longWords"
  by (simp add: longWords_def chain_append chain_long ends_long)

lemma pcDict_less:
  assumes "i < j" "j < 571 \<or> 571 \<le> i \<and> j < 2048"
  shows "str_less (pcDict ! i) (pcDict ! j)"
proof (cases "j < 571")
  case True
  have "sorted_wrt str_less shortWords" using chain_sorted [OF chain_shortWords] by simp
  then show ?thesis
    using assms True by (simp add: pcDict_def nth_append length_shortWords sorted_wrt_iff_nth_less)
next
  case False
  have "sorted_wrt str_less longWords" using chain_sorted [OF chain_longWords] by simp
  then show ?thesis
    using assms False sorted_wrt_nth_less [of str_less longWords "i - 571" "j - 571"]
    by (auto simp: pcDict_def nth_append length_shortWords length_longWords)
qed

text \<open>The length of a word tells which part it is in.\<close>

lemma pcDict_word:
  assumes "i < 2048"
  shows "1 \<le> length (pcDict ! i) \<and> length (pcDict ! i) \<le> 4 \<and> (length (pcDict ! i) < 4 \<longleftrightarrow> i < 571)
     \<and> (\<forall>c\<in>set (pcDict ! i). \<not> isspace c)"
proof (cases "i < 571")
  case True
  then have "pcDict ! i \<in> set shortWords" by (simp add: pcDict_def nth_append length_shortWords)
  from chain_word [OF chain_shortWords this] True show ?thesis by auto
next
  case False
  then have "pcDict ! i \<in> set longWords"
    using assms by (simp add: pcDict_def nth_append length_shortWords length_longWords)
  from chain_word [OF chain_longWords this] False show ?thesis by auto
qed

lemma pcDict_no_NUL: "w \<in> set pcDict \<Longrightarrow> CHR 0x00 \<notin> set w"
  using chain_word [OF chain_shortWords, of w] chain_word [OF chain_longWords, of w] by (auto simp: pcDict_def)

end
