(* ===== verification/Rfc1751.thy ===== *)
theory Rfc1751
  imports Rfc1751Dict ParseSection "HOL-Library.Signed_Division"
begin

text \<open>
  \<^verbatim>\<open>shared/rfc1751.cpp\<close>: 64-bit halves of a key as six English words each. \<^verbatim>\<open>extract\<close>
  always loads three bytes, also where the third (and in the parity loops the second) lies behind the
  nine byte buffer or is not initialised yet; the parameter \<open>mem\<close> gives the values found there, and
  the results are shown not to depend on it.
\<close>

section \<open>Bits\<close>

definition char_at :: "(nat \<Rightarrow> byte) \<Rightarrow> bytes \<Rightarrow> nat \<Rightarrow> byte" where
  "char_at mem s i = (if i < length s then s ! i else mem i)"

definition extract_bits :: "(nat \<Rightarrow> byte) \<Rightarrow> bytes \<Rightarrow> int \<Rightarrow> int \<Rightarrow> int result" where
  "extract_bits mem s start len =
     (if \<not> (len \<le> 11 \<and> start \<ge> 0 \<and> len \<ge> 0 \<and> start + len \<le> 66) then Inl Assert_failed
      else let cl = uint (char_at mem s (nat (start div 8)));
               cc = uint (char_at mem s (nat (start div 8) + 1));
               cr = uint (char_at mem s (nat (start div 8) + 2));
               x = push_bit 8 (push_bit 8 cl OR cc) OR cr;
               x' = drop_bit (nat (24 - (len + start mod 8))) x
           in Inr (x' AND drop_bit (nat (16 - len)) 0xFFFF))"

text \<open>\<^verbatim>\<open>for (p = 0, i = 0; i < 64; i += 2) p += extract(s, i, 2)\<close>.\<close>

fun parity_loop :: "(nat \<Rightarrow> byte) \<Rightarrow> bytes \<Rightarrow> nat \<Rightarrow> int \<Rightarrow> int \<Rightarrow> int result" where
  "parity_loop mem s 0 i p = Inr p"
| "parity_loop mem s (Suc n) i p = ebind (extract_bits mem s i 2) (\<lambda>x. parity_loop mem s n (i + 2) (p + x))"

definition parity :: "(nat \<Rightarrow> byte) \<Rightarrow> bytes \<Rightarrow> int result" where
  "parity mem s = parity_loop mem s 32 0 0"

definition word_at :: "(nat \<Rightarrow> byte) \<Rightarrow> bytes \<Rightarrow> int \<Rightarrow> string result" where
  "word_at mem s start = ebind (extract_bits mem s start 11) (\<lambda>v. vec_at pcDict v)"

text \<open>\<^verbatim>\<open>memcpy\<close> copies eight bytes of a string that ends with a NUL.\<close>

definition btoe :: "(nat \<Rightarrow> byte) \<Rightarrow> bytes \<Rightarrow> string result" where
  "btoe mem strData =
     (if length strData + 1 < 8 then Inl Undefined_behaviour
      else let caBuffer = take 8 (strData @ [0]) in
        ebind (parity mem caBuffer) (\<lambda>p.
        let ca = caBuffer @ [word_of_int (push_bit 6 p)] in
        ebind (word_at mem ca 0) (\<lambda>w0. ebind (word_at mem ca 11) (\<lambda>w1. ebind (word_at mem ca 22) (\<lambda>w2.
        ebind (word_at mem ca 33) (\<lambda>w3. ebind (word_at mem ca 44) (\<lambda>w4. ebind (word_at mem ca 55) (\<lambda>w5.
        Inr (w0 @ '' '' @ w1 @ '' '' @ w2 @ '' '' @ w3 @ '' '' @ w4 @ '' '' @ w5)))))))))"

definition or_at :: "nat \<Rightarrow> byte \<Rightarrow> bytes \<Rightarrow> bytes result" where
  "or_at i c s = (if i < length s then Inr (s[i := s ! i OR c]) else Inl Undefined_behaviour)"

definition insert_bits :: "bytes \<Rightarrow> int \<Rightarrow> int \<Rightarrow> int \<Rightarrow> bytes result" where
  "insert_bits s x start len =
     (if \<not> (len \<le> 11 \<and> start \<ge> 0 \<and> len \<ge> 0 \<and> start + len \<le> 66) then Inl Assert_failed
      else let shift = (8 - (start + len) mod 8) mod 8;
               y = push_bit (nat shift) x;
               cl = word_of_int (drop_bit 16 y AND 0xFF);
               cc = word_of_int (drop_bit 8 y AND 0xFF);
               cr = word_of_int (y AND 0xFF);
               k = nat (start div 8)
           in if shift + len > 16 then
                ebind (or_at k cl s) (\<lambda>s1. ebind (or_at (k + 1) cc s1) (\<lambda>s2. or_at (k + 2) cr s2))
              else if shift + len > 8 then ebind (or_at k cc s) (\<lambda>s1. or_at (k + 1) cr s1)
              else or_at k cr s)"

section \<open>Words\<close>

text \<open>The loop of \<^verbatim>\<open>standard\<close> runs over copies of the letters: what it computes is dropped.\<close>

definition standard_letter :: "char \<Rightarrow> char" where
  "standard_letter c =
     (if (of_char c :: nat) \<ge> 128 then c
      else if of_char c \<ge> (97 :: nat) \<and> of_char c \<le> (122 :: nat) then char_of (of_char c - 32 :: nat)
      else if c = CHR ''1'' then CHR ''L''
      else if c = CHR ''0'' then CHR ''O''
      else if c = CHR ''5'' then CHR ''S''
      else c)"

definition standard :: "string \<Rightarrow> string" where
  "standard strWord = fst (strWord, map standard_letter strWord)"

text \<open>Binary search. Not returning is \<open>None\<close>.\<close>

partial_function (option) wsrch :: "string \<Rightarrow> int \<Rightarrow> int \<Rightarrow> int result option" where
  "wsrch strWord iMin iMax =
     (if iMin = iMax then Some (Inr (- 1))
      else let iMid = iMin + (iMax - iMin) sdiv 2 in
        if iMid < 0 \<or> iMid \<ge> 2048 then Some (Inl Undefined_behaviour)
        else let iDir = str_compare strWord (pcDict ! nat iMid) in
          if iDir = 0 then Some (Inr iMid)
          else if iDir < 0 then wsrch strWord iMin iMid
          else wsrch strWord (iMid + 1) iMax)"

declare wsrch.simps [code]

text \<open>The word loop: a return code, or the buffer filled so far.\<close>

fun etob_loop :: "bytes \<Rightarrow> int \<Rightarrow> string list \<Rightarrow> (int + bytes) result option" where
  "etob_loop b p [] = Some (Inr (Inr b))"
| "etob_loop b p (strWord # ws) =
     (let l = int (length strWord) in
      if l > 4 \<or> l < 1 then Some (Inr (Inl (- 1)))
      else Option.bind (wsrch (standard strWord) (if l < 4 then 0 else 571) (if l < 4 then 570 else 2048))
        (\<lambda>r. case r of
           Inl e \<Rightarrow> Some (Inl e)
         | Inr v \<Rightarrow>
             if v < 0 then Some (Inr (Inl 0))
             else (case insert_bits b v p 11 of
                 Inl e \<Rightarrow> Some (Inl e)
               | Inr b' \<Rightarrow> etob_loop b' (p + 11) ws)))"

text \<open>The return code, and the data when it is 1.\<close>

definition etob :: "(nat \<Rightarrow> byte) \<Rightarrow> string list \<Rightarrow> (int \<times> bytes) result option" where
  "etob mem vsHuman =
     (if length vsHuman \<noteq> 6 then Some (Inr (- 1, []))
      else map_option (\<lambda>r. ebind r (\<lambda>c. case c of
          Inl rc \<Rightarrow> Inr (rc, [])
        | Inr b \<Rightarrow>
            ebind (parity mem b) (\<lambda>p. ebind (extract_bits mem b 64 2) (\<lambda>x.
            if p AND 3 \<noteq> x then Inr (- 2, []) else Inr (1, take 8 b)))))
        (etob_loop (replicate 9 0) 0 vsHuman))"

section \<open>Keys\<close>

text \<open>\<^verbatim>\<open>split\<close> on white space, adjacent separators compressed.\<close>

function split_ws :: "string \<Rightarrow> string list" where
  "split_ws [] = [[]]"
| "split_ws (c # cs) = (if isspace c then [] # split_ws (dropWhile isspace cs)
     else (c # hd (split_ws cs)) # tl (split_ws cs))"
  by pat_completeness auto
termination
  by (relation "measure length") (auto simp: less_Suc_eq_le length_dropWhile_le)

definition eng2key :: "(nat \<Rightarrow> byte) \<Rightarrow> bytes \<Rightarrow> string \<Rightarrow> (int \<times> bytes) result option" where
  "eng2key mem strKey strHuman =
     (let vWords = split_ws (trim strHuman) in
      if length vWords \<noteq> 12 then Some (Inr (- 1, strKey))
      else Option.bind (etob mem (take 6 vWords)) (\<lambda>r1. case r1 of
          Inl e \<Rightarrow> Some (Inl e)
        | Inr (rc1, strFirst) \<Rightarrow>
            if rc1 \<noteq> 1 then Some (Inr (rc1, strKey))
            else Option.bind (etob mem (take 6 (drop 6 vWords))) (\<lambda>r2. case r2 of
                Inl e \<Rightarrow> Some (Inl e)
              | Inr (rc2, strSecond) \<Rightarrow>
                  if rc2 \<noteq> 1 then Some (Inr (rc2, strKey))
                  else Some (Inr (1, strFirst @ strSecond)))))"

definition key2eng :: "(nat \<Rightarrow> byte) \<Rightarrow> bytes \<Rightarrow> string result" where
  "key2eng mem strKey =
     ebind (btoe mem (take 8 strKey)) (\<lambda>strFirst.
     if length strKey < 8 then Inl Out_of_range
     else ebind (btoe mem (take 8 (drop 8 strKey))) (\<lambda>strSecond.
     Inr (strFirst @ '' '' @ strSecond)))"

section \<open>The search\<close>

lemma str_less_irrefl: "\<not> str_less w w"
  by (induction w) auto

lemma sdiv_two: "a \<le> (b::int) \<Longrightarrow> (b - a) sdiv 2 = (b - a) div 2"
  by (simp add: signed_divide_int_def sgn_if)

text \<open>A range on which the dictionary ascends.\<close>

definition ascending :: "int \<Rightarrow> int \<Rightarrow> bool" where
  "ascending lo hi \<longleftrightarrow> 0 \<le> lo \<and> lo \<le> hi \<and> hi \<le> 2048
     \<and> (\<forall>i j. lo \<le> int i \<and> i < j \<and> int j < hi \<longrightarrow> str_less (pcDict ! i) (pcDict ! j))"

lemma ascending_parts: "ascending 0 570" "ascending 0 571" "ascending 571 2048"
  by (auto simp: ascending_def intro!: pcDict_less)

lemma ascending_sub: "ascending lo hi \<Longrightarrow> lo \<le> lo' \<Longrightarrow> lo' \<le> hi' \<Longrightarrow> hi' \<le> hi \<Longrightarrow> ascending lo' hi'"
  by (auto simp: ascending_def)

text \<open>On such a range the search returns: the position of the word, or -1 when it is not there.\<close>

lemma wsrch_result:
  assumes "ascending lo hi"
  shows "\<exists>r. wsrch w lo hi = Some (Inr r) \<and>
     (if \<exists>i. lo \<le> int i \<and> int i < hi \<and> pcDict ! i = w
      then lo \<le> r \<and> r < hi \<and> pcDict ! nat r = w else r = - 1)"
  using assms
proof (induction "nat (hi - lo)" arbitrary: lo hi rule: less_induct)
  case less
  have b: "0 \<le> lo" "lo \<le> hi" "hi \<le> 2048" using less.prems by (auto simp: ascending_def)
  define m where "m = lo + (hi - lo) div 2"
  show ?case
  proof (cases "lo = hi")
    case True
    then show ?thesis by (subst wsrch.simps) auto
  next
    case False
    then have m: "lo \<le> m" "m < hi" "0 \<le> m" "m < 2048" using b by (auto simp: m_def)
    have me: "lo + (hi - lo) sdiv 2 = m" using b by (simp add: sdiv_two m_def)
    have step: "wsrch w lo hi = (if str_compare w (pcDict ! nat m) = 0 then Some (Inr m)
        else if str_compare w (pcDict ! nat m) < 0 then wsrch w lo m else wsrch w (m + 1) hi)"
      using False m by (subst wsrch.simps) (simp add: me Let_def)
    have lt: "str_less (pcDict ! i) (pcDict ! j)" if "lo \<le> int i" "i < j" "int j < hi" for i j
      using less.prems that by (auto simp: ascending_def)
    consider "str_compare w (pcDict ! nat m) = 0" | "str_compare w (pcDict ! nat m) < 0"
      | "str_compare w (pcDict ! nat m) > 0" by linarith
    then show ?thesis
    proof cases
      case 1
      then have "w = pcDict ! nat m" by (simp add: str_compare_zero)
      then show ?thesis using step 1 m b by (auto intro!: exI [of _ "nat m"])
    next
      case 2
      then have w: "str_less w (pcDict ! nat m)" by (simp add: str_compare_less)
      have out: "int i < m" if "lo \<le> int i" "int i < hi" "pcDict ! i = w" for i
      proof (rule ccontr)
        assume "\<not> int i < m"
        then have "nat m = i \<or> nat m < i" using m b by linarith
        then show False
        proof
          assume "nat m = i"
          then show False using w that str_less_irrefl by simp
        next
          assume "nat m < i"
          then have "str_less (pcDict ! nat m) w" using lt [of "nat m" i] that m by simp
          then show False using str_less_trans [OF w] str_less_irrefl by blast
        qed
      qed
      have same: "(\<exists>i. lo \<le> int i \<and> int i < hi \<and> pcDict ! i = w) \<longleftrightarrow> (\<exists>i. lo \<le> int i \<and> int i < m \<and> pcDict ! i = w)"
        using out m by force
      have "nat (m - lo) < nat (hi - lo)" "ascending lo m"
        using less.prems m by (auto intro: ascending_sub)
      from less.hyps [OF this] obtain r where "wsrch w lo m = Some (Inr r)"
        "if \<exists>i. lo \<le> int i \<and> int i < m \<and> pcDict ! i = w then lo \<le> r \<and> r < m \<and> pcDict ! nat r = w else r = - 1"
        by blast
      then show ?thesis unfolding same using step 2 m by (intro exI [of _ r]) (auto split: if_splits)
    next
      case 3
      then have w: "str_less (pcDict ! nat m) w"
        using str_compare_less [of "pcDict ! nat m" w] by (simp add: str_compare_sym [of w])
      have out: "m + 1 \<le> int i" if "lo \<le> int i" "int i < hi" "pcDict ! i = w" for i
      proof (rule ccontr)
        assume "\<not> m + 1 \<le> int i"
        then have "i = nat m \<or> i < nat m" using m b by linarith
        then show False
        proof
          assume "i = nat m"
          then show False using w that str_less_irrefl by simp
        next
          assume "i < nat m"
          then have "str_less w (pcDict ! nat m)" using lt [of i "nat m"] that m by simp
          then show False using str_less_trans [OF w] str_less_irrefl by blast
        qed
      qed
      have same: "(\<exists>i. lo \<le> int i \<and> int i < hi \<and> pcDict ! i = w) \<longleftrightarrow> (\<exists>i. m + 1 \<le> int i \<and> int i < hi \<and> pcDict ! i = w)"
        using out m by force
      have "nat (hi - (m + 1)) < nat (hi - lo)" "ascending (m + 1) hi"
        using less.prems m by (auto intro: ascending_sub)
      from less.hyps [OF this] obtain r where "wsrch w (m + 1) hi = Some (Inr r)"
        "if \<exists>i. m + 1 \<le> int i \<and> int i < hi \<and> pcDict ! i = w then m + 1 \<le> r \<and> r < hi \<and> pcDict ! nat r = w else r = - 1"
        by blast
      then show ?thesis unfolding same using step 3 m by (intro exI [of _ r]) (auto split: if_splits)
    qed
  qed
qed

section \<open>Bits of words and bytes\<close>

lemma and_masks:
  "(x::int) AND 255 = take_bit 8 x" "x AND 2047 = take_bit 11 x" "x AND 3 = take_bit 2 x"
  using take_bit_eq_mask [of 8 x] take_bit_eq_mask [of 11 x] take_bit_eq_mask [of 2 x]
  by (simp_all add: mask_eq_exp_minus_1)

text \<open>The three bytes as one number of 24 bits.\<close>

definition three :: "byte \<Rightarrow> byte \<Rightarrow> byte \<Rightarrow> int" where
  "three cl cc cr = push_bit 8 (push_bit 8 (uint cl) OR uint cc) OR uint cr"

lemma bit_three:
  "bit (three cl cc cr) m \<longleftrightarrow> (if m < 8 then bit cr m else if m < 16 then bit cc (m - 8) else bit cl (m - 16))"
  by (auto simp: three_def bit_simps bit_uint_iff not_less dest: bit_imp_le_length)

lemma extract_three:
  assumes "len \<le> 11" "0 \<le> start" "0 \<le> len" "start + len \<le> 66"
  shows "extract_bits mem s start len = Inr (drop_bit (nat (24 - (len + start mod 8)))
     (three (char_at mem s (nat (start div 8))) (char_at mem s (nat (start div 8) + 1)) (char_at mem s (nat (start div 8) + 2)))
     AND drop_bit (nat (16 - len)) 0xFFFF)"
  using assms by (simp only: extract_bits_def Let_def three_def simp_thms if_False)

lemma extract_bits_two:
  assumes "0 \<le> i" "i \<le> 64" "even i"
  shows "extract_bits mem s i 2 = Inr (take_bit 2 (drop_bit (nat (6 - i mod 8)) (uint (char_at mem s (nat (i div 8))))))"
proof -
  let ?k = "nat (i div 8)"
  have r: "i mod 8 \<le> 6" using assms(3) by presburger
  have n: "nat (24 - (2 + i mod 8)) = nat (6 - i mod 8) + 16" using r by simp
  have "take_bit 2 (drop_bit (nat (24 - (2 + i mod 8))) (three (char_at mem s ?k) b c))
      = take_bit 2 (drop_bit (nat (6 - i mod 8)) (uint (char_at mem s ?k)))" for b c
    unfolding n by (rule bit_eqI) (auto simp: bit_simps bit_three bit_uint_iff)
  then show ?thesis
    using assms by (simp add: extract_three and_masks)
qed

lemma extract_bits_word:
  assumes "start \<in> {0, 11, 22, 33, 44, 55}" "length s = 9"
  shows "extract_bits mem s start 11 = Inr (take_bit 11 (drop_bit (nat (13 - start mod 8))
     (three (s ! nat (start div 8)) (s ! (nat (start div 8) + 1)) (s ! (nat (start div 8) + 2)))))"
  using assms by (auto simp: extract_three and_masks char_at_def)

lemma less_8_cases: "n < 8 \<Longrightarrow> n = 0 \<or> n = 1 \<or> n = 2 \<or> n = 3 \<or> n = 4 \<or> n = 5 \<or> n = 6 \<or> n = (7::nat)"
  by linarith

lemma byte_eqI: "(\<And>n. n < 8 \<Longrightarrow> bit a n = bit b n) \<Longrightarrow> (a::byte) = b"
  by (rule bit_word_eqI) simp


lemma bit_times_two: "bit ((a::int) * 2) n \<longleftrightarrow> n \<noteq> 0 \<and> bit a (n - 1)"
  by (simp add: mult.commute [of a] bit_double_iff)

lemma nine_bytes:
  assumes "length (cs::bytes) = 9"
  obtains c0 c1 c2 c3 c4 c5 c6 c7 c8 where "cs = [c0, c1, c2, c3, c4, c5, c6, c7, c8]"
  using assms by (auto simp: numeral_eq_Suc length_Suc_conv)

text \<open>The six values of a buffer.\<close>

definition word_values :: "bytes \<Rightarrow> int list" where
  "word_values cs = map (\<lambda>start. take_bit 11 (drop_bit (nat (13 - start mod 8))
     (three (cs ! nat (start div 8)) (cs ! (nat (start div 8) + 1)) (cs ! (nat (start div 8) + 2)))))
     [0, 11, 22, 33, 44, 55]"

fun insert_all :: "bytes \<Rightarrow> int \<Rightarrow> int list \<Rightarrow> bytes result" where
  "insert_all b p [] = Inr b"
| "insert_all b p (v # vs) = ebind (insert_bits b v p 11) (\<lambda>b'. insert_all b' (p + 11) vs)"

lemma insert_all_values:
  assumes "length cs = 9" "take_bit 6 (cs ! 8) = 0"
  shows "insert_all (replicate 9 0) 0 (word_values cs) = Inr cs"
proof -
  obtain c0 c1 c2 c3 c4 c5 c6 c7 c8 where cs: "cs = [c0, c1, c2, c3, c4, c5, c6, c7, c8]"
    using nine_bytes [OF assms(1)] .
  have z: "\<not> bit c8 n" if "n < 6" for n
    using assms(2) that bit_take_bit_iff [of 6 c8 n] by (simp add: cs)
  have rep: "replicate 9 (0::byte) = [0, 0, 0, 0, 0, 0, 0, 0, 0]" by (simp add: numeral_eq_Suc)
  show ?thesis
    unfolding rep
    apply (simp add: word_values_def cs insert_bits_def Let_def or_at_def and_masks)
    apply (intro conjI byte_eqI)
            apply (auto dest!: less_8_cases simp: bit_simps bit_three z bit_times_two)
       apply (simp_all add: numeral_eq_Suc)
    done
qed

section \<open>Parity\<close>

definition two_bits :: "bytes \<Rightarrow> int \<Rightarrow> int" where
  "two_bits s i = take_bit 2 (drop_bit (nat (6 - i mod 8)) (uint (s ! nat (i div 8))))"

lemma extract_two_bits: "0 \<le> i \<Longrightarrow> i \<le> 64 \<Longrightarrow> even i \<Longrightarrow> nat (i div 8) < length s \<Longrightarrow>
   extract_bits mem s i 2 = Inr (two_bits s i)"
  by (simp add: extract_bits_two two_bits_def char_at_def)

definition parity_value :: "bytes \<Rightarrow> int" where
  "parity_value s = (\<Sum>j\<leftarrow>[0..<32]. two_bits s (2 * int j))"

lemma parity_loop_value:
  assumes "0 \<le> i" "even i" "i + 2 * int n \<le> 64" "8 \<le> length s"
  shows "parity_loop mem s n i p = Inr (p + (\<Sum>j\<leftarrow>[0..<n]. two_bits s (i + 2 * int j)))"
  using assms
proof (induction n arbitrary: i p)
  case (Suc n)
  have "extract_bits mem s i 2 = Inr (two_bits s i)"
    using Suc.prems by (intro extract_two_bits) auto
  moreover have "(\<Sum>j\<leftarrow>[0..<Suc n]. two_bits s (i + 2 * int j))
      = two_bits s i + (\<Sum>j\<leftarrow>[0..<n]. two_bits s (i + 2 + 2 * int j))"
    by (simp add: map_upt_Suc algebra_simps del: upt_Suc)
  ultimately show ?case using Suc.prems Suc.IH [of "i + 2" "p + two_bits s i"] by (simp add: algebra_simps)
qed simp

lemma parity_eq: "8 \<le> length s \<Longrightarrow> parity mem s = Inr (parity_value s)"
  by (simp add: parity_def parity_loop_value parity_value_def)

lemma parity_value_append: "length d = 8 \<Longrightarrow> parity_value (d @ x) = parity_value d"
  unfolding parity_value_def by (intro arg_cong [where f = sum_list] map_cong) (auto simp: two_bits_def nth_append)

text \<open>The nine bytes that carry eight bytes of data: the parity is in the top bits of the last.\<close>

definition with_parity :: "bytes \<Rightarrow> bytes" where
  "with_parity d = d @ [word_of_int (push_bit 6 (parity_value d))]"

lemma parity_byte:
  "take_bit 6 (word_of_int (push_bit 6 p) :: byte) = 0"
  "take_bit 2 (drop_bit 6 (uint (word_of_int (push_bit 6 p) :: byte))) = take_bit 2 p"
  by (rule bit_word_eqI, auto simp: bit_simps) (rule bit_eqI, auto simp: bit_simps bit_uint_iff)

section \<open>Text\<close>

fun join_words :: "string list \<Rightarrow> string" where
  "join_words [] = []"
| "join_words [w] = w"
| "join_words (w # v # ws) = w @ '' '' @ join_words (v # ws)"

lemma join_words_append: "xs \<noteq> [] \<Longrightarrow> ys \<noteq> [] \<Longrightarrow> join_words (xs @ ys) = join_words xs @ '' '' @ join_words ys"
  by (induction xs rule: join_words.induct) (auto simp: neq_Nil_conv)

definition plain_word :: "string \<Rightarrow> bool" where
  "plain_word w \<longleftrightarrow> w \<noteq> [] \<and> (\<forall>c\<in>set w. \<not> isspace c)"

lemma split_ws_word: "\<forall>c\<in>set w. \<not> isspace c \<Longrightarrow> split_ws w = [w]"
  by (induction w) simp_all

lemma split_ws_sep:
  "\<forall>c\<in>set w. \<not> isspace c \<Longrightarrow> isspace d \<Longrightarrow> split_ws (w @ d # cs) = w # split_ws (dropWhile isspace cs)"
  by (induction w) simp_all

lemma dropWhile_join: "\<forall>w\<in>set ws. plain_word w \<Longrightarrow> dropWhile isspace (join_words ws) = join_words ws"
proof (induction ws rule: join_words.induct)
  case (2 w)
  then show ?case by (cases w) (auto simp: plain_word_def)
next
  case (3 w v ws)
  then show ?case by (cases w) (auto simp: plain_word_def)
qed simp

lemma split_ws_join: "\<forall>w\<in>set ws. plain_word w \<Longrightarrow> ws \<noteq> [] \<Longrightarrow> split_ws (join_words ws) = ws"
proof (induction ws rule: join_words.induct)
  case (3 w v ws)
  moreover have "isspace CHR '' ''" by (simp add: isspace_def)
  ultimately show ?case
    using dropWhile_join [of "v # ws"] by (simp add: split_ws_sep plain_word_def)
qed (simp_all add: split_ws_word plain_word_def)

lemma last_join: "\<forall>w\<in>set ws. plain_word w \<Longrightarrow> ws \<noteq> [] \<Longrightarrow> join_words ws \<noteq> [] \<and> \<not> isspace (last (join_words ws))"
proof (induction ws rule: join_words.induct)
  case (2 w)
  then show ?case by (simp add: plain_word_def)
next
  case (3 w v ws)
  then show ?case by (auto simp: plain_word_def)
qed simp

lemma trim_join: "\<forall>w\<in>set ws. plain_word w \<Longrightarrow> trim (join_words ws) = join_words ws"
proof (cases "ws = []")
  case False
  assume p: "\<forall>w\<in>set ws. plain_word w"
  from last_join [OF p False] have "dropWhile isspace (rev (join_words ws)) = rev (join_words ws)"
    by (cases "rev (join_words ws)") (auto simp: last_rev [symmetric] dropWhile_eq_self_iff hd_rev)
  then show ?thesis by (simp add: trim_def dropWhile_join [OF p])
qed (simp add: trim_def)

section \<open>Words of the dictionary\<close>

definition dict_word :: "int \<Rightarrow> string" where
  "dict_word v = pcDict ! nat v"

lemma plain_dict_word: "0 \<le> v \<Longrightarrow> v < 2048 \<Longrightarrow> plain_word (dict_word v)"
  using pcDict_word [of "nat v"] by (auto simp: plain_word_def dict_word_def nat_less_iff)

lemma pcDict_inj:
  assumes "i < 571 \<and> j < 571 \<or> 571 \<le> i \<and> i < 2048 \<and> 571 \<le> j \<and> j < 2048" "pcDict ! i = pcDict ! j"
  shows "i = j"
proof (rule ccontr)
  assume "i \<noteq> j"
  then have "str_less (pcDict ! i) (pcDict ! j) \<or> str_less (pcDict ! j) (pcDict ! i)"
    using assms pcDict_less [of i j] pcDict_less [of j i] by (metis linorder_neqE_nat)
  with assms(2) show False by (simp add: str_less_irrefl)
qed

lemma wsrch_dict_word:
  assumes "0 \<le> v" "v < 2048" "lo = (if length (dict_word v) < 4 then 0 else 571)"
    and "hi = (if length (dict_word v) < 4 then 570 else 2048)"
  shows "wsrch (dict_word v) lo hi = Some (Inr (if v = 570 then - 1 else v))"
proof -
  have len: "length (dict_word v) < 4 \<longleftrightarrow> v < 571"
    using pcDict_word [of "nat v"] assms by (auto simp: dict_word_def)
  have asc: "ascending lo hi" using assms ascending_parts by auto
  obtain r where r: "wsrch (dict_word v) lo hi = Some (Inr r)"
    "if \<exists>i. lo \<le> int i \<and> int i < hi \<and> pcDict ! i = dict_word v
     then lo \<le> r \<and> r < hi \<and> pcDict ! nat r = dict_word v else r = - 1"
    using wsrch_result [OF asc, of "dict_word v"] by blast
  show ?thesis
  proof (cases "v = 570")
    case True
    have "i = 570" if "int i < 570" "pcDict ! i = dict_word 570" for i
      using pcDict_inj [of i 570] that by (simp add: dict_word_def)
    then have "\<not> (\<exists>i. lo \<le> int i \<and> int i < hi \<and> pcDict ! i = dict_word v)"
      using True assms len by fastforce
    then show ?thesis using r True by simp
  next
    case False
    then have ex: "\<exists>i. lo \<le> int i \<and> int i < hi \<and> pcDict ! i = dict_word v"
      using assms len by (intro exI [of _ "nat v"]) (auto simp: dict_word_def)
    with r have rr: "lo \<le> r" "r < hi" "pcDict ! nat r = pcDict ! nat v" by (auto simp: dict_word_def)
    have "nat r = nat v"
      using assms len rr False by (intro pcDict_inj) (auto split: if_splits)
    then show ?thesis using r ex rr False assms len by (auto split: if_splits)
  qed
qed

section \<open>Encoding and decoding eight bytes\<close>

lemma word_values_range: "v \<in> set (word_values cs) \<Longrightarrow> 0 \<le> v \<and> v < 2048"
  by (auto simp: word_values_def take_bit_nonnegative take_bit_int_less_exp [where n = 11, simplified])

lemma length_word_values [simp]: "length (word_values cs) = 6"
  by (simp add: word_values_def)

lemma word_at_value:
  assumes "length s = 9" "k < 6"
  shows "word_at mem s (11 * int k) = Inr (dict_word (word_values s ! k))"
proof -
  have k: "k = 0 \<or> k = 1 \<or> k = 2 \<or> k = 3 \<or> k = 4 \<or> k = 5" using assms(2) by linarith
  then have "extract_bits mem s (11 * int k) 11 = Inr (word_values s ! k)"
    using extract_bits_word [of "11 * int k" s mem] assms(1) by (auto simp: word_values_def)
  moreover have "0 \<le> word_values s ! k \<and> word_values s ! k < 2048"
    using assms(2) by (intro word_values_range [of _ s]) simp
  ultimately show ?thesis by (simp add: word_at_def vec_at_def dict_word_def)
qed

definition words_of :: "bytes \<Rightarrow> string list" where
  "words_of d = map dict_word (word_values (with_parity d))"

lemma length_words_of [simp]: "length (words_of d) = 6"
  by (simp add: words_of_def)

lemma plain_words_of: "w \<in> set (words_of d) \<Longrightarrow> plain_word w"
  by (auto simp: words_of_def plain_dict_word dest!: word_values_range)

lemma btoe_words:
  assumes "length d = 8"
  shows "btoe mem d = Inr (join_words (words_of d))"
proof -
  let ?s = "with_parity d"
  have l: "length ?s = 9" using assms by (simp add: with_parity_def)
  have w: "word_at mem ?s 0 = Inr (words_of d ! 0)" "word_at mem ?s 11 = Inr (words_of d ! 1)"
    "word_at mem ?s 22 = Inr (words_of d ! 2)" "word_at mem ?s 33 = Inr (words_of d ! 3)"
    "word_at mem ?s 44 = Inr (words_of d ! 4)" "word_at mem ?s 55 = Inr (words_of d ! 5)"
    using word_at_value [OF l, of 0] word_at_value [OF l, of 1] word_at_value [OF l, of 2]
      word_at_value [OF l, of 3] word_at_value [OF l, of 4] word_at_value [OF l, of 5]
    by (simp_all add: words_of_def)
  obtain w0 w1 w2 w3 w4 w5 where ws: "words_of d = [w0, w1, w2, w3, w4, w5]"
    using length_words_of [of d] by (auto simp: numeral_eq_Suc length_Suc_conv simp del: length_words_of)
  have "btoe mem d = ebind (word_at mem ?s 0) (\<lambda>w0. ebind (word_at mem ?s 11) (\<lambda>w1. ebind (word_at mem ?s 22) (\<lambda>w2.
        ebind (word_at mem ?s 33) (\<lambda>w3. ebind (word_at mem ?s 44) (\<lambda>w4. ebind (word_at mem ?s 55) (\<lambda>w5.
        Inr (w0 @ '' '' @ w1 @ '' '' @ w2 @ '' '' @ w3 @ '' '' @ w4 @ '' '' @ w5)))))))"
    using assms by (simp add: btoe_def parity_eq with_parity_def Let_def)
  then show ?thesis by (simp add: w ws)
qed

lemma insert_bits_ok:
  assumes "length b = 9" "0 \<le> p" "p + 11 \<le> 66"
  shows "\<exists>b'. insert_bits b v p 11 = Inr b' \<and> length b' = 9"
proof -
  have "nat (p div 8) \<le> 6" using assms by auto
  then show ?thesis using assms by (auto simp: insert_bits_def Let_def or_at_def)
qed

lemma etob_loop_words:
  assumes "\<forall>v\<in>set vs. 0 \<le> v \<and> v < 2048" "length b = 9" "0 \<le> p" "p + 11 * int (length vs) \<le> 66"
  shows "etob_loop b p (map dict_word vs) = Some (if 570 \<in> set vs then Inr (Inl 0)
     else ebind (insert_all b p vs) (\<lambda>b'. Inr (Inr b')))"
  using assms
proof (induction vs arbitrary: b p)
  case (Cons v vs)
  let ?w = "dict_word v"
  have v: "0 \<le> v" "v < 2048" using Cons.prems by auto
  have len: "?w \<noteq> []" "length ?w \<le> 4" using pcDict_word [of "nat v"] v by (auto simp: dict_word_def nat_less_iff)
  have ws: "wsrch ?w (if int (length ?w) < 4 then 0 else 571) (if int (length ?w) < 4 then 570 else 2048)
      = Some (Inr (if v = 570 then - 1 else v))"
    using wsrch_dict_word [OF v refl refl] by simp
  obtain b' where b': "insert_bits b v p 11 = Inr b'" "length b' = 9"
    using insert_bits_ok [of b p v] Cons.prems by auto
  show ?case
    using Cons.IH [of b' "p + 11"] Cons.prems b' ws len v by (simp add: standard_def Let_def)
qed simp

lemma etob_words_of:
  assumes "length d = 8"
  shows "etob mem (words_of d)
     = Some (Inr (if 570 \<in> set (word_values (with_parity d)) then (0, []) else (1, d)))"
proof -
  let ?s = "with_parity d" and ?vs = "word_values (with_parity d)"
  have l: "length ?s = 9" using assms by (simp add: with_parity_def)
  have z: "take_bit 6 (?s ! 8) = 0" using assms parity_byte by (simp add: with_parity_def nth_append)
  have loop: "etob_loop (replicate 9 0) 0 (words_of d)
      = Some (if 570 \<in> set ?vs then Inr (Inl 0) else Inr (Inr ?s))"
    unfolding words_of_def using word_values_range [of _ ?s] insert_all_values [OF l z]
    by (subst etob_loop_words) auto
  have p: "parity mem ?s = Inr (parity_value d)"
    using l parity_value_append [OF assms] by (simp add: parity_eq) (simp add: with_parity_def)
  have "extract_bits mem ?s 64 2 = Inr (two_bits ?s 64)" using l by (intro extract_two_bits) auto
  moreover have "two_bits ?s 64 = take_bit 2 (parity_value d)"
    using assms parity_byte(2) by (simp add: two_bits_def with_parity_def nth_append)
  ultimately have x: "extract_bits mem ?s 64 2 = Inr (parity_value d AND 3)" by (simp add: and_masks)
  have "take 8 ?s = d" using assms by (simp add: with_parity_def)
  then show ?thesis by (simp add: etob_def loop p x)
qed

lemma key2eng_words:
  assumes "length k = 16"
  shows "key2eng mem k = Inr (join_words (words_of (take 8 k) @ words_of (drop 8 k)))"
proof -
  have ne: "words_of d \<noteq> []" for d using length_words_of [of d] by force
  show ?thesis
    using assms by (simp add: key2eng_def btoe_words join_words_append [OF ne ne])
qed

lemma eng2key_words:
  assumes "length k = 16"
  shows "eng2key mem old (join_words (words_of (take 8 k) @ words_of (drop 8 k))) = Some (Inr
     (if 570 \<in> set (word_values (with_parity (take 8 k)) @ word_values (with_parity (drop 8 k)))
      then (0, old) else (1, k)))"
proof -
  let ?ws = "words_of (take 8 k) @ words_of (drop 8 k)"
  have plain: "\<forall>w\<in>set ?ws. plain_word w" using plain_words_of by auto
  have "?ws \<noteq> []" using length_words_of [of "take 8 k"] by force
  then have "split_ws (trim (join_words ?ws)) = ?ws" using plain by (simp add: trim_join split_ws_join)
  then show ?thesis using assms by (simp add: eng2key_def etob_words_of)
qed

text \<open>The search always returns, with -1 or a position it was asked to look at.\<close>

lemma etob_loop_total:
  assumes "length b = 9" "0 \<le> p" "p + 11 * int (length ws) \<le> 66"
  shows "(\<exists>rc. etob_loop b p ws = Some (Inr (Inl rc)) \<and> (rc = 0 \<or> rc = - 1)) \<or>
     (\<exists>b'. etob_loop b p ws = Some (Inr (Inr b')) \<and> length b' = 9)"
  using assms
proof (induction ws arbitrary: b p)
  case (Cons w ws)
  have "ascending (if length w < 4 then 0 else 571) (if length w < 4 then 570 else 2048)"
    using ascending_parts by simp
  from wsrch_result [OF this] obtain r where
    r: "wsrch w (if length w < 4 then 0 else 571) (if length w < 4 then 570 else 2048) = Some (Inr r)"
    by blast
  obtain b' where b': "insert_bits b r p 11 = Inr b'" "length b' = 9"
    using insert_bits_ok [of b p r] Cons.prems by auto
  show ?case
    using Cons.IH [of b' "p + 11"] Cons.prems b' r by (simp add: standard_def Let_def)
qed simp

lemma etob_total:
  "\<exists>rc d. etob mem ws = Some (Inr (rc, d)) \<and> rc \<in> {1, 0, - 1, - 2} \<and> (rc = 1 \<longrightarrow> length d = 8)"
proof (cases "length ws = 6")
  case True
  then consider rc where "etob_loop (replicate 9 0) 0 ws = Some (Inr (Inl rc))" "rc = 0 \<or> rc = - 1"
    | b where "etob_loop (replicate 9 0) 0 ws = Some (Inr (Inr b))" "length b = 9"
    using etob_loop_total [of "replicate 9 0" 0 ws] by auto
  then show ?thesis
  proof cases
    case 1
    then show ?thesis using True by (auto simp: etob_def)
  next
    case 2
    then have "parity mem b = Inr (parity_value b)" "extract_bits mem b 64 2 = Inr (two_bits b 64)"
      using extract_two_bits [of 64 b mem] by (simp_all add: parity_eq)
    then show ?thesis using True 2 by (simp add: etob_def)
  qed
qed (simp add: etob_def)

section \<open>Properties\<close>

text \<open>C17: A 128-bit key written as twelve words is read back by \<^verbatim>\<open>eng2key\<close>, with return
  code 1, exactly when none of the words is the last one of the short words, \<^verbatim>\<open>YOU\<close>; with that
  word the text is refused with code 0. Neither direction depends on the memory behind the buffers.\<close>

theorem key2eng_eng2key:
  assumes "length k = 16"
  shows "\<exists>h. key2eng mem k = Inr h \<and> eng2key mem' old h = Some (Inr
     (if 570 \<in> set (word_values (with_parity (take 8 k)) @ word_values (with_parity (drop 8 k)))
      then (0, old) else (1, k)))"
  using key2eng_words [OF assms, of mem] eng2key_words [OF assms, of mem' old] by blast

theorem key2eng_eng2key_witness:
  "\<exists>h. key2eng (\<lambda>_. 0) (replicate 16 0) = Inr h \<and> eng2key (\<lambda>_. 1) [] h = Some (Inr (1, replicate 16 0))"
proof -
  have "570 \<notin> set (word_values (with_parity (replicate 8 0)))" by code_simp
  then show ?thesis using key2eng_eng2key [of "replicate 16 0" "\<lambda>_. 0" "\<lambda>_. 1" "[]"] by simp
qed


text \<open>On any ascending part of the dictionary the binary search ends, and returns the
  position of the word when it is there and -1 when it is not.\<close>

theorem wsrch_correct:
  assumes "ascending lo hi"
  shows "\<exists>r. wsrch w lo hi = Some (Inr r) \<and>
     (if \<exists>i. lo \<le> int i \<and> int i < hi \<and> pcDict ! i = w
      then lo \<le> r \<and> r < hi \<and> pcDict ! nat r = w else r = - 1)"
  by (rule wsrch_result [OF assms])

theorem wsrch_correct_witness: "\<exists>r. wsrch ''YOU'' 571 2048 = Some (Inr r)"
  using wsrch_correct [OF ascending_parts(3), of "''YOU''"] by blast

end
