(* ===== verification/Program.thy ===== *)
theory Program
  imports Prelude
begin

text \<open>
  Programs of the node's components: code that changes a state, may throw and may not return, and the
  time values of \<^verbatim>\<open>boost::posix_time\<close> with the conversions of \<^verbatim>\<open>shared/utils.cpp\<close>.
\<close>

section \<open>Programs\<close>

text \<open>\<open>None\<close>: the code does not return. A throw keeps the state it was thrown in.\<close>

type_synonym ('s, 'a) prog = "'s \<Rightarrow> ('a result \<times> 's) option"

named_theorems prog_simps \<open>evaluation of programs\<close>

definition return :: "'a \<Rightarrow> ('s, 'a) prog" where
  "return x s = Some (Inr x, s)"

definition throw :: "exn \<Rightarrow> ('s, 'a) prog" where
  "throw e s = Some (Inl e, s)"

definition mbind :: "('s, 'a) prog \<Rightarrow> ('a \<Rightarrow> ('s, 'b) prog) \<Rightarrow> ('s, 'b) prog" where
  "mbind m f s = (case m s of
     None \<Rightarrow> None
   | Some (Inl e, s') \<Rightarrow> Some (Inl e, s')
   | Some (Inr x, s') \<Rightarrow> f x s')"

definition mseq :: "('s, unit) prog \<Rightarrow> ('s, 'b) prog \<Rightarrow> ('s, 'b) prog" where
  "mseq m k = mbind m (\<lambda>_. k)"

definition gets :: "('s \<Rightarrow> 'a) \<Rightarrow> ('s, 'a) prog" where
  "gets f s = Some (Inr (f s), s)"

definition change :: "('s \<Rightarrow> 's) \<Rightarrow> ('s, unit) prog" where
  "change f s = Some (Inr (), f s)"

definition lift :: "'a result \<Rightarrow> ('s, 'a) prog" where
  "lift r s = Some (r, s)"

definition lift_opt :: "'a result option \<Rightarrow> ('s, 'a) prog" where
  "lift_opt r s = map_option (\<lambda>x. (x, s)) r"

text \<open>A loop over a list that carries a value.\<close>

fun mfold :: "('a \<Rightarrow> 'b \<Rightarrow> ('s, 'b) prog) \<Rightarrow> 'a list \<Rightarrow> 'b \<Rightarrow> ('s, 'b) prog" where
  "mfold f [] b = return b"
| "mfold f (x # xs) b = mbind (f x b) (mfold f xs)"

lemma prog_eval [simp, prog_simps]:
  "return x s = Some (Inr x, s)" "throw e s = Some (Inl e, s)" "gets f s = Some (Inr (f s), s)"
  "change g s = Some (Inr (), g s)" "lift r s = Some (r, s)"
  by (simp_all add: return_def throw_def gets_def change_def lift_def)

lemma lift_opt_simps [simp, prog_simps]: "lift_opt (Some r) s = Some (r, s)" "lift_opt None s = None"
  by (simp_all add: lift_opt_def)

lemma mbind_return: "m s = Some (Inr x, s') \<Longrightarrow> mbind m f s = f x s'"
  and mbind_throw: "m s = Some (Inl e, s') \<Longrightarrow> mbind m f s = Some (Inl e, s')"
  by (simp_all add: mbind_def)

lemma mbind_simps [simp, prog_simps]:
  "mbind (return x) f s = f x s" "mbind (throw e) f s = Some (Inl e, s)" "mbind (gets g) f s = f (g s) s"
  "mbind (change h) k s = k () (h s)" "mbind (lift (Inr x)) f s = f x s" "mbind (lift (Inl e)) f s = Some (Inl e, s)"
  "mbind (lift_opt (Some (Inr x))) f s = f x s" "mbind (lift_opt (Some (Inl e))) f s = Some (Inl e, s)"
  by (simp_all add: mbind_def)

lemma mseq_simps [simp, prog_simps]: "mseq (change h) k s = k (h s)" "mseq (return u) k s = k s"
  by (simp_all add: mseq_def)

lemma mbind_assoc [simp, prog_simps]: "mbind (mbind m f) g = mbind m (\<lambda>x. mbind (f x) g)"
  by (rule ext) (simp add: mbind_def split: option.split sum.split)

lemma mseq_assoc [simp, prog_simps]: "mseq (mseq a b) c = mseq a (mseq b c)" "mbind (mseq a m) f = mseq a (mbind m f)"
  "mseq (mbind x g) c = mbind x (\<lambda>y. mseq (g y) c)"
  by (simp_all add: mseq_def)

lemma mseq_return: "m s = Some (Inr u, s') \<Longrightarrow> mseq m k s = k s'"
  and mseq_throw: "m s = Some (Inl e, s') \<Longrightarrow> mseq m k s = Some (Inl e, s')"
  by (simp_all add: mseq_def mbind_def)

lemma mbind_eq_Some:
  "mbind m f s = Some (r, t) \<longleftrightarrow> (\<exists>e. m s = Some (Inl e, t) \<and> r = Inl e) \<or> (\<exists>x s'. m s = Some (Inr x, s') \<and> f x s' = Some (r, t))"
  by (auto simp: mbind_def split: option.splits sum.splits)

subsection \<open>What holds when a program has returned\<close>

definition wp :: "('s, 'a) prog \<Rightarrow> ('a \<Rightarrow> 's \<Rightarrow> bool) \<Rightarrow> 's \<Rightarrow> bool" where
  "wp m Q s \<longleftrightarrow> (\<forall>x t. m s = Some (Inr x, t) \<longrightarrow> Q x t)"

named_theorems wp_simps \<open>weakest preconditions\<close>

lemma wp_basic [wp_simps]:
  "wp (return x) Q s \<longleftrightarrow> Q x s" "wp (throw e) Q s" "wp (gets f) Q s \<longleftrightarrow> Q (f s) s"
  by (simp_all add: wp_def)

lemma wp_change [wp_simps]: "wp (change g) Q s \<longleftrightarrow> Q () (g s)"
  by (simp add: wp_def)

lemma wp_lift [wp_simps]: "wp (lift r) Q s \<longleftrightarrow> (\<forall>x. r = Inr x \<longrightarrow> Q x s)"
  "wp (lift_opt q) Q s \<longleftrightarrow> (\<forall>x. q = Some (Inr x) \<longrightarrow> Q x s)"
  by (auto simp: wp_def lift_opt_def)

lemma wp_mbind [wp_simps]: "wp (mbind m f) Q s \<longleftrightarrow> wp m (\<lambda>x. wp (f x) Q) s"
  unfolding wp_def mbind_eq_Some by blast

lemma wp_mseq [wp_simps]: "wp (mseq m k) Q s \<longleftrightarrow> wp m (\<lambda>_. wp k Q) s"
  by (simp add: mseq_def wp_mbind)

lemma wp_if [wp_simps]: "wp (if b then m else k) Q s \<longleftrightarrow> (b \<longrightarrow> wp m Q s) \<and> (\<not> b \<longrightarrow> wp k Q s)"
  by simp

lemma wp_conseq: "wp m Q s \<Longrightarrow> (\<And>x t. Q x t \<Longrightarrow> R x t) \<Longrightarrow> wp m R s"
  by (auto simp: wp_def)

lemma wpD: "wp m Q s \<Longrightarrow> m s = Some (Inr x, t) \<Longrightarrow> Q x t"
  by (auto simp: wp_def)

text \<open>\<open>keeps I m\<close>: when \<open>m\<close> starts in \<open>I\<close> and returns, \<open>I\<close> holds again.\<close>

definition keeps :: "('s \<Rightarrow> bool) \<Rightarrow> ('s, 'a) prog \<Rightarrow> bool" where
  "keeps I m \<longleftrightarrow> (\<forall>s. I s \<longrightarrow> wp m (\<lambda>_. I) s)"

named_theorems keeps_rules \<open>rules for keeps\<close>

lemma keepsI: "(\<And>s. I s \<Longrightarrow> wp m (\<lambda>_. I) s) \<Longrightarrow> keeps I m"
  by (simp add: keeps_def)

lemma keepsD: "keeps I m \<Longrightarrow> I s \<Longrightarrow> m s = Some (Inr x, t) \<Longrightarrow> I t"
  by (auto simp: keeps_def wp_def)

lemma keeps_run: "m s = Some (Inr x, t) \<Longrightarrow> keeps I m \<Longrightarrow> I s \<Longrightarrow> I t"
  by (rule keepsD)

lemma keeps_wp: "keeps I m \<Longrightarrow> I s \<Longrightarrow> (\<And>x t. I t \<Longrightarrow> Q x t) \<Longrightarrow> wp m Q s"
  by (auto simp: keeps_def wp_def)

lemma keeps_basic [keeps_rules]:
  "keeps I (return x)" "keeps I (throw e)" "keeps I (gets f)" "keeps I (lift r)" "keeps I (lift_opt q)"
  by (auto simp: keeps_def wp_simps)

lemma keeps_change: "(\<And>s. I s \<Longrightarrow> I (f s)) \<Longrightarrow> keeps I (change f)"
  by (auto simp: keeps_def wp_simps)

lemma keeps_mbind [keeps_rules]: "keeps I m \<Longrightarrow> (\<And>x. keeps I (f x)) \<Longrightarrow> keeps I (mbind m f)"
  by (auto simp: keeps_def wp_mbind intro: wp_conseq)

lemma keeps_mseq [keeps_rules]: "keeps I m \<Longrightarrow> keeps I k \<Longrightarrow> keeps I (mseq m k)"
  unfolding mseq_def by (rule keeps_mbind)

lemma keeps_if [keeps_rules]: "(b \<Longrightarrow> keeps I m) \<Longrightarrow> (\<not> b \<Longrightarrow> keeps I k) \<Longrightarrow> keeps I (if b then m else k)"
  by simp

lemma keeps_option [keeps_rules]:
  "keeps I m \<Longrightarrow> (\<And>x. keeps I (f x)) \<Longrightarrow> keeps I (case q of None \<Rightarrow> m | Some x \<Rightarrow> f x)"
  by (cases q) simp_all

lemma keeps_prod [keeps_rules]: "(\<And>a b. keeps I (f a b)) \<Longrightarrow> keeps I (case p of (a, b) \<Rightarrow> f a b)"
  by (cases p) simp

lemma keeps_let [keeps_rules]: "(\<And>x. keeps I (f x)) \<Longrightarrow> keeps I (let x = e in f x)"
  by simp

lemma keeps_mfold [keeps_rules]: "(\<And>x b. keeps I (f x b)) \<Longrightarrow> keeps I (mfold f xs b)"
proof (induction xs arbitrary: b)
  case (Cons x xs)
  then show ?case by (simp add: keeps_mbind)
qed (simp add: keeps_basic)

subsection \<open>Programs that return\<close>

text \<open>\<open>returns m\<close>: the program comes back from every state.\<close>

definition returns :: "('s, 'a) prog \<Rightarrow> bool" where
  "returns m \<longleftrightarrow> (\<forall>s. \<exists>r t. m s = Some (r, t))"

named_theorems returns_rules \<open>programs that return\<close>

lemma returns_basic [returns_rules]: "returns (return x)" "returns (throw e)" "returns (gets f)" "returns (change g)" "returns (lift r)"
  by (simp_all add: returns_def)

lemma returns_lift_opt: "\<exists>r. q = Some r \<Longrightarrow> returns (lift_opt q)"
  by (auto simp: returns_def)

lemma returns_mbind [returns_rules]: "returns m \<Longrightarrow> (\<And>x. returns (f x)) \<Longrightarrow> returns (mbind m f)"
  unfolding returns_def mbind_eq_Some by (metis sum.exhaust)

lemma returns_mseq [returns_rules]: "returns m \<Longrightarrow> returns k \<Longrightarrow> returns (mseq m k)"
  unfolding mseq_def by (rule returns_mbind)

lemma returns_if [returns_rules]: "(b \<Longrightarrow> returns m) \<Longrightarrow> (\<not> b \<Longrightarrow> returns k) \<Longrightarrow> returns (if b then m else k)"
  by simp

lemma returns_option [returns_rules]: "returns m \<Longrightarrow> (\<And>x. returns (f x)) \<Longrightarrow> returns (case q of None \<Rightarrow> m | Some x \<Rightarrow> f x)"
  by (cases q) simp_all

lemma returns_prod [returns_rules]: "(\<And>a b. returns (f a b)) \<Longrightarrow> returns (case p of (a, b) \<Rightarrow> f a b)"
  by (cases p) simp

section \<open>Time\<close>

text \<open>Seconds since the epoch of \<^verbatim>\<open>ptEpoch\<close>, the year 2000; \<open>None\<close> is \<^verbatim>\<open>not_a_date_time\<close>.\<close>

type_synonym ptime = "int option"

definition iToSeconds :: "ptime \<Rightarrow> int" where
  "iToSeconds ptWhen = (case ptWhen of None \<Rightarrow> - 1 | Some t \<Rightarrow> to_int t)"

definition ptFromSeconds :: "int \<Rightarrow> ptime" where
  "ptFromSeconds iSeconds = (if iSeconds < 0 then None else Some iSeconds)"

text \<open>Comparisons with \<^verbatim>\<open>not_a_date_time\<close>: \<^verbatim>\<open><\<close> is false and \<^verbatim>\<open><=\<close> is the negation of the
  reversed \<^verbatim>\<open><\<close>.\<close>

fun pt_less :: "ptime \<Rightarrow> ptime \<Rightarrow> bool" where
  "pt_less (Some a) (Some b) = (a < b)"
| "pt_less _ _ = False"

definition pt_le :: "ptime \<Rightarrow> ptime \<Rightarrow> bool" where
  "pt_le a b = (\<not> pt_less b a)"

definition pt_plus :: "ptime \<Rightarrow> int \<Rightarrow> ptime" where
  "pt_plus t n = map_option (\<lambda>x. x + n) t"

lemma pt_less_None [simp]: "\<not> pt_less None b" "\<not> pt_less a None"
  by (cases b; simp) (cases a; simp)

lemma seconds_roundtrip: "0 \<le> n \<Longrightarrow> in_int n \<Longrightarrow> iToSeconds (ptFromSeconds n) = n"
  by (simp add: iToSeconds_def ptFromSeconds_def)

lemma seconds_roundtrip': "(\<forall>n. t = Some n \<longrightarrow> 0 \<le> n \<and> in_int n) \<Longrightarrow> ptFromSeconds (iToSeconds t) = t"
  by (cases t) (simp_all add: iToSeconds_def ptFromSeconds_def)

end
