(* ===== verification/WalletDb.thy ===== *)
theory WalletDb
  imports Program Utils Uint256
begin

text \<open>
  The tables of the wallet database that the node components use, as \<^verbatim>\<open>notDatabase/DBInit.cpp\<close>
  creates them, and the SQL the sources put together. SQLite keeps the storage class of a value:
  a literal in quotes is text, a literal \<^verbatim>\<open>X'..'\<close>, which is what both escape functions produce, is a
  blob, and a text is never equal to a blob, also when the bytes are the same. The readers
  \<^verbatim>\<open>getStr\<close> and \<^verbatim>\<open>getStrBinary\<close> of \<^verbatim>\<open>notDatabase/database.cpp\<close> do not see the difference.
\<close>

section \<open>Values\<close>

datatype sqlval = SqlNull | SqlText string | SqlBlob string

definition sql_eq :: "sqlval \<Rightarrow> sqlval \<Rightarrow> bool" where
  "sql_eq a b \<longleftrightarrow> a \<noteq> SqlNull \<and> b \<noteq> SqlNull \<and> a = b"

text \<open>The value of a literal in a statement.\<close>

definition sql_literal :: "string \<Rightarrow> sqlval option" where
  "sql_literal l =
     (if l = ''NULL'' then Some SqlNull
      else if length l \<ge> 2 \<and> hd l = CHR 0x27 \<and> last l = CHR 0x27 \<and> CHR 0x27 \<notin> set (butlast (tl l))
        then Some (SqlText (butlast (tl l)))
      else if length l \<ge> 3 \<and> hd l = CHR ''X'' \<and> hd (tl l) = CHR 0x27 \<and> last l = CHR 0x27
        then (case strUnHex_str (butlast (tl (tl l))) of Inr s \<Rightarrow> Some (SqlBlob s) | Inl _ \<Rightarrow> None)
      else None)"

text \<open>\<^verbatim>\<open>'%s'\<close>: a quote in the text would end the literal; such statements are outside the model.\<close>

definition quoted :: "string \<Rightarrow> sqlval result" where
  "quoted s = (if CHR 0x27 \<in> set s then Inl Undefined_behaviour else Inr (SqlText s))"

definition getNull :: "sqlval \<Rightarrow> bool" where
  "getNull v = (v = SqlNull)"

fun getStrBinary :: "sqlval \<Rightarrow> string" where
  "getStrBinary SqlNull = []"
| "getStrBinary (SqlText s) = s"
| "getStrBinary (SqlBlob s) = s"

text \<open>\<^verbatim>\<open>getStr\<close> assigns a \<^verbatim>\<open>char*\<close>.\<close>

definition getStr :: "sqlval \<Rightarrow> string" where
  "getStr v = c_str (getStrBinary v)"

text \<open>The first character of a \<^verbatim>\<open>std::string\<close>; of an empty one it is the terminating NUL.\<close>

definition first_char :: "string \<Rightarrow> char" where
  "first_char s = (if s = [] then CHR 0x00 else hd s)"

lemma sql_literal_escape: "sql_literal (sqlEscape s) = Some (SqlBlob s)"
proof -
  have "sqlEscape s = CHR ''X'' # CHR 0x27 # (strHex (strCopy_vuc s) @ [CHR 0x27])" by (simp add: sqlEscape_def)
  then show ?thesis by (simp add: sql_literal_def strCopy_vuc_def o_def)
qed

lemma sql_literal_quoted: "quoted s = Inr v \<Longrightarrow> sql_literal ([CHR 0x27] @ s @ [CHR 0x27]) = Some v"
  by (auto simp: quoted_def sql_literal_def split: if_splits)

lemma text_never_blob [simp]: "\<not> sql_eq (SqlText s) (SqlBlob t)" "\<not> sql_eq (SqlBlob t) (SqlText s)"
  by (simp_all add: sql_eq_def)

lemma sql_eq_same [simp]: "sql_eq (SqlBlob s) (SqlBlob t) \<longleftrightarrow> s = t" "sql_eq (SqlText s) (SqlText t) \<longleftrightarrow> s = t"
  by (auto simp: sql_eq_def)

lemma sql_eq_sym: "sql_eq a b \<longleftrightarrow> sql_eq b a"
  by (auto simp: sql_eq_def)

section \<open>Tables\<close>

record Misc_row =
  ScoreUpdated :: int
  FetchUpdated :: int

record SeedDomains_row =
  sd_Domain :: sqlval
  sd_PublicKey :: sqlval
  sd_Source :: sqlval
  sd_Next :: int
  sd_Scan :: int
  sd_Fetch :: int
  sd_Sha256 :: sqlval
  sd_Comment :: sqlval

record SeedNodes_row =
  sn_PublicKey :: sqlval
  sn_Source :: sqlval
  sn_Next :: int
  sn_Scan :: int
  sn_Fetch :: int
  sn_Sha256 :: sqlval
  sn_Comment :: sqlval

record TrustedNodes_row =
  tn_PublicKey :: sqlval
  tn_Score :: int
  tn_Seen :: "int option"

record ValidatorReferrals_row =
  vr_Validator :: sqlval
  vr_Entry :: int
  vr_Referral :: sqlval

record IpReferrals_row =
  ir_Validator :: sqlval
  ir_Entry :: int
  ir_IP :: sqlval
  ir_Port :: int

record PeerIps_row =
  pi_IpPort :: sqlval
  pi_Score :: int
  pi_Source :: sqlval
  pi_ScanNext :: "int option"
  pi_ScanInterval :: int

record walletdb =
  Misc :: "Misc_row option"
  SeedDomains :: "SeedDomains_row list"
  SeedNodes :: "SeedNodes_row list"
  TrustedNodes :: "TrustedNodes_row list"
  ValidatorReferrals :: "ValidatorReferrals_row list"
  IpReferrals :: "IpReferrals_row list"
  PeerIps :: "PeerIps_row list"

definition walletdb_empty :: walletdb where
  "walletdb_empty = \<lparr>Misc = None, SeedDomains = [], SeedNodes = [], TrustedNodes = [], ValidatorReferrals = [],
     IpReferrals = [], PeerIps = []\<rparr>"

section \<open>Statements\<close>

text \<open>\<^verbatim>\<open>SELECT .. WHERE key=v\<close> on a primary key, \<^verbatim>\<open>REPLACE INTO\<close> and \<^verbatim>\<open>DELETE\<close>. A new row
  comes last.\<close>

definition sql_find :: "('r \<Rightarrow> sqlval) \<Rightarrow> sqlval \<Rightarrow> 'r list \<Rightarrow> 'r option" where
  "sql_find key v rows = find (\<lambda>r. sql_eq (key r) v) rows"

definition sql_replace :: "('r \<Rightarrow> sqlval) \<Rightarrow> 'r \<Rightarrow> 'r list \<Rightarrow> 'r list" where
  "sql_replace key r rows = filter (\<lambda>x. \<not> sql_eq (key x) (key r)) rows @ [r]"

definition sql_delete :: "('r \<Rightarrow> sqlval) \<Rightarrow> sqlval \<Rightarrow> 'r list \<Rightarrow> 'r list" where
  "sql_delete key v rows = filter (\<lambda>x. \<not> sql_eq (key x) v) rows"

definition sql_replaces :: "('r \<Rightarrow> sqlval) \<Rightarrow> 'r list \<Rightarrow> 'r list \<Rightarrow> 'r list" where
  "sql_replaces key rs rows = fold (sql_replace key) rs rows"

text \<open>A multi-row \<^verbatim>\<open>INSERT\<close> under a primary key of two columns fails as a whole on a conflict.\<close>

definition sql_inserts :: "('r \<Rightarrow> sqlval \<times> int) \<Rightarrow> 'r list \<Rightarrow> 'r list \<Rightarrow> 'r list" where
  "sql_inserts key rs rows =
     (if distinct (map key rs) \<and> set (map key rs) \<inter> set (map key rows) = {} then rows @ rs else rows)"

text \<open>\<^verbatim>\<open>ORDER BY f\<close> and \<^verbatim>\<open>ORDER BY f LIMIT 1\<close>; rows with equal keys keep their order.\<close>

definition sql_order :: "('r \<Rightarrow> int) \<Rightarrow> 'r list \<Rightarrow> 'r list" where
  "sql_order f rows = sort_key f rows"

fun sql_first :: "('r \<Rightarrow> int) \<Rightarrow> 'r list \<Rightarrow> 'r option" where
  "sql_first f [] = None"
| "sql_first f (r # rs) = (case sql_first f rs of None \<Rightarrow> Some r | Some m \<Rightarrow> if f r \<le> f m then Some r else Some m)"

section \<open>What a table promises\<close>

text \<open>The contract of a table with a primary key, over its operations.\<close>

locale keyed_table =
  fixes key :: "'r \<Rightarrow> sqlval"
    and look :: "sqlval \<Rightarrow> 'r list \<Rightarrow> 'r option"
    and put :: "'r \<Rightarrow> 'r list \<Rightarrow> 'r list"
    and del :: "sqlval \<Rightarrow> 'r list \<Rightarrow> 'r list"
  assumes look_put: "key r \<noteq> SqlNull \<Longrightarrow> look v (put r rows) = (if sql_eq (key r) v then Some r else look v rows)"
    and look_del: "look v (del w rows) = (if sql_eq v w then None else look v rows)"
    and look_key: "look v rows = Some r \<Longrightarrow> sql_eq (key r) v \<and> r \<in> set rows"
    and set_put: "set (put r rows) = insert r {x \<in> set rows. \<not> sql_eq (key x) (key r)}"
    and set_del: "set (del v rows) = {x \<in> set rows. \<not> sql_eq (key x) v}"
    and distinct_put: "distinct (map key rows) \<Longrightarrow> key r \<noteq> SqlNull \<Longrightarrow> distinct (map key (put r rows))"
    and distinct_del: "distinct (map key rows) \<Longrightarrow> distinct (map key (del v rows))"
begin

lemma look_put_same: "key r \<noteq> SqlNull \<Longrightarrow> look (key r) (put r rows) = Some r"
  by (simp add: look_put sql_eq_def)

lemma put_all: "\<forall>x\<in>set rows. P x \<Longrightarrow> P r \<Longrightarrow> \<forall>x\<in>set (put r rows). P x"
  by (simp add: set_put)

lemma del_all: "\<forall>x\<in>set rows. P x \<Longrightarrow> \<forall>x\<in>set (del v rows). P x"
  by (simp add: set_del)

end

lemma sql_find_Some: "sql_find key v rows = Some r \<Longrightarrow> sql_eq (key r) v \<and> r \<in> set rows"
  unfolding sql_find_def find_Some_iff by auto

lemma sql_find_append: "sql_find key v (xs @ ys) = (case sql_find key v xs of None \<Rightarrow> sql_find key v ys | Some r \<Rightarrow> Some r)"
  by (induction xs) (auto simp: sql_find_def)

lemma sql_find_filter:
  "(\<And>x. sql_eq (key x) v \<Longrightarrow> P x) \<Longrightarrow> sql_find key v (filter P rows) = sql_find key v rows"
  "(\<And>x. sql_eq (key x) v \<Longrightarrow> \<not> P x) \<Longrightarrow> sql_find key v (filter P rows) = None"
  by (induction rows) (auto simp: sql_find_def)

lemma sql_find_replace:
  assumes "key r \<noteq> SqlNull"
  shows "sql_find key v (sql_replace key r rows) = (if sql_eq (key r) v then Some r else sql_find key v rows)"
proof (cases "sql_eq (key r) v")
  case True
  then have "sql_find key v (filter (\<lambda>x. \<not> sql_eq (key x) (key r)) rows) = None"
    by (intro sql_find_filter(2)) (auto simp: sql_eq_def)
  with True show ?thesis by (simp add: sql_replace_def sql_find_append) (simp add: sql_find_def)
next
  case False
  then have "sql_find key v (filter (\<lambda>x. \<not> sql_eq (key x) (key r)) rows) = sql_find key v rows"
    by (intro sql_find_filter(1)) (auto simp: sql_eq_def)
  with False show ?thesis
    by (simp add: sql_replace_def sql_find_append split: option.split) (simp add: sql_find_def)
qed

lemma sql_find_delete:
  "sql_find key v (sql_delete key w rows) = (if sql_eq v w then None else sql_find key v rows)"
proof (cases "sql_eq v w")
  case True
  then have "sql_find key v (filter (\<lambda>x. \<not> sql_eq (key x) w) rows) = None"
    by (intro sql_find_filter(2)) (auto simp: sql_eq_def)
  with True show ?thesis by (simp add: sql_delete_def)
next
  case False
  then show ?thesis unfolding sql_delete_def by (auto simp: sql_eq_def intro: sql_find_filter(1))
qed

lemma keyed_table_sql: "keyed_table key (sql_find key) (sql_replace key) (sql_delete key)"
proof
  fix r v rows w
  show "key r \<noteq> SqlNull \<Longrightarrow> sql_find key v (sql_replace key r rows) = (if sql_eq (key r) v then Some r else sql_find key v rows)"
    by (rule sql_find_replace)
  show "sql_find key v (sql_delete key w rows) = (if sql_eq v w then None else sql_find key v rows)"
    by (rule sql_find_delete)
  show "sql_find key v rows = Some r \<Longrightarrow> sql_eq (key r) v \<and> r \<in> set rows" by (rule sql_find_Some)
  show "set (sql_replace key r rows) = insert r {x \<in> set rows. \<not> sql_eq (key x) (key r)}" by (auto simp: sql_replace_def)
  show "set (sql_delete key v rows) = {x \<in> set rows. \<not> sql_eq (key x) v}" by (auto simp: sql_delete_def)
  show "distinct (map key (sql_replace key r rows))" if "distinct (map key rows)" "key r \<noteq> SqlNull"
    using that by (auto simp: sql_replace_def distinct_map_filter sql_eq_def)
  show "distinct (map key rows) \<Longrightarrow> distinct (map key (sql_delete key v rows))"
    by (auto simp: sql_delete_def distinct_map_filter)
qed

interpretation sd: keyed_table sd_Domain "sql_find sd_Domain" "sql_replace sd_Domain" "sql_delete sd_Domain"
  by (rule keyed_table_sql)

interpretation sn: keyed_table sn_PublicKey "sql_find sn_PublicKey" "sql_replace sn_PublicKey" "sql_delete sn_PublicKey"
  by (rule keyed_table_sql)

interpretation tn: keyed_table tn_PublicKey "sql_find tn_PublicKey" "sql_replace tn_PublicKey" "sql_delete tn_PublicKey"
  by (rule keyed_table_sql)

interpretation pips: keyed_table pi_IpPort "sql_find pi_IpPort" "sql_replace pi_IpPort" "sql_delete pi_IpPort"
  by (rule keyed_table_sql)

lemma sql_first_None: "sql_first f rows = None \<longleftrightarrow> rows = []"
  by (cases rows) (auto split: option.splits if_splits)

lemma sql_first_Some: "sql_first f rows = Some r \<Longrightarrow> r \<in> set rows \<and> (\<forall>x\<in>set rows. f r \<le> f x)"
proof (induction rows arbitrary: r)
  case (Cons a rows)
  then show ?case by (cases "sql_first f rows") (auto simp: sql_first_None split: if_splits)
qed simp

end
