(* ===== verification/SqliteDb.thy ===== *)
theory SqliteDb
  imports WalletDb
begin

text \<open>
  \<^verbatim>\<open>notDatabase/SqliteDatabase.cpp\<close>, \<^verbatim>\<open>notDatabase/database.cpp\<close> and \<^verbatim>\<open>DatabaseCon/DatabaseCon.cpp\<close>: the
  cursor over the result of a statement. The C interface of SQLite is a parameter: what a statement is prepared to, and
  how a value is converted. A prepared statement gives its rows one by one, then that it is done or an error, and
  starts again when it is stepped once more. The loops of the other components over the rows of a query are
  loops over lists; the theorem of this theory is why.
\<close>

section \<open>The C interface\<close>

datatype sqlite_rc = SQLITE_ROW | SQLITE_DONE | SQLITE_OTHER

record ('c, 'v) stmt =
  st_columns :: "string list"
  st_rows :: "'v list list"
  st_fails :: bool
  st_effect :: "'c \<Rightarrow> 'c"
  st_pos :: nat

record ('c, 'v) sqlite_ops =
  sqlite3_prepare :: "'c \<Rightarrow> string \<Rightarrow> ('c, 'v) stmt option"
  column_null :: "'v \<Rightarrow> bool"
  column_text :: "'v \<Rightarrow> string option"
  column_int :: "'v \<Rightarrow> int"
  column_int64 :: "'v \<Rightarrow> 64 word"
  column_blob :: "'v \<Rightarrow> bytes"

definition sqlite3_step :: "('c, 'v) stmt \<Rightarrow> sqlite_rc \<times> ('c, 'v) stmt" where
  "sqlite3_step st = (if st_pos st < length (st_rows st) then (SQLITE_ROW, st\<lparr>st_pos := st_pos st + 1\<rparr>)
     else (if st_fails st then SQLITE_OTHER else SQLITE_DONE, st\<lparr>st_pos := 0\<rparr>))"

section \<open>Statements\<close>

record ('c, 'v) sqlite_db =
  mConnection :: 'c
  mCurrentStmt :: "('c, 'v) stmt option"
  mMoreRows :: bool
  mColNameTable :: "string list"

text \<open>The constructor leaves \<^verbatim>\<open>mMoreRows\<close> as it is.\<close>

definition SqliteDatabase_new :: "'c \<Rightarrow> bool \<Rightarrow> ('c, 'v) sqlite_db" where
  "SqliteDatabase_new c junk = \<lparr>mConnection = c, mCurrentStmt = None, mMoreRows = junk, mColNameTable = []\<rparr>"

definition executeSQL :: "('c, 'v) sqlite_ops \<Rightarrow> string \<Rightarrow> ('c, 'v) sqlite_db \<Rightarrow> bool \<times> ('c, 'v) sqlite_db" where
  "executeSQL Q sql db = (case sqlite3_prepare Q (mConnection db) sql of
     None \<Rightarrow> (False, db\<lparr>mCurrentStmt := None\<rparr>)
   | Some st \<Rightarrow> (case sqlite3_step st of (rc, st') \<Rightarrow>
       let db1 = db\<lparr>mConnection := st_effect st (mConnection db), mCurrentStmt := Some st', mMoreRows := (rc = SQLITE_ROW)\<rparr>
       in (rc = SQLITE_ROW \<or> rc = SQLITE_DONE, db1)))"

definition getNumRowsAffected :: "('c, 'v) sqlite_db \<Rightarrow> int" where
  "getNumRowsAffected db = 0"

definition startIterRows :: "('c, 'v) sqlite_db \<Rightarrow> bool \<times> ('c, 'v) sqlite_db" where
  "startIterRows db = (mMoreRows db, db\<lparr>mColNameTable := (case mCurrentStmt db of None \<Rightarrow> [] | Some st \<Rightarrow> st_columns st)\<rparr>)"

definition endIterRows :: "('c, 'v) sqlite_db \<Rightarrow> ('c, 'v) sqlite_db" where
  "endIterRows db = db\<lparr>mCurrentStmt := None\<rparr>"

definition getNextRow :: "('c, 'v) sqlite_db \<Rightarrow> bool \<times> ('c, 'v) sqlite_db" where
  "getNextRow db = (if \<not> mMoreRows db then (False, db)
     else case mCurrentStmt db of
       None \<Rightarrow> (False, db)
     | Some st \<Rightarrow> (case sqlite3_step st of (rc, st') \<Rightarrow> (rc = SQLITE_ROW, db\<lparr>mCurrentStmt := Some st'\<rparr>)))"

section \<open>Columns\<close>

text \<open>A column of the row the statement is at; without a row, or out of range, the result is not defined.\<close>

definition column :: "('c, 'v) sqlite_db \<Rightarrow> nat \<Rightarrow> 'v result" where
  "column db n = (case mCurrentStmt db of
     None \<Rightarrow> Inl Undefined_behaviour
   | Some st \<Rightarrow> if 0 < st_pos st \<and> st_pos st \<le> length (st_rows st) \<and> n < length (st_rows st ! (st_pos st - 1))
       then Inr (st_rows st ! (st_pos st - 1) ! n) else Inl Undefined_behaviour)"

fun col_number :: "string \<Rightarrow> string list \<Rightarrow> nat \<Rightarrow> nat option" where
  "col_number colName [] n = None"
| "col_number colName (c # cs) n = (if c_str colName = c_str c then Some n else col_number colName cs (n + 1))"

definition getColNumber :: "string \<Rightarrow> ('c, 'v) sqlite_db \<Rightarrow> nat option" where
  "getColNumber colName db = col_number colName (mColNameTable db) 0"

definition getNull_at :: "('c, 'v) sqlite_ops \<Rightarrow> nat \<Rightarrow> ('c, 'v) sqlite_db \<Rightarrow> bool result" where
  "getNull_at Q n db = ebind (column db n) (\<lambda>v. Inr (column_null Q v))"

text \<open>A null pointer is assigned to the string when the column is \<^verbatim>\<open>NULL\<close>.\<close>

definition getStr_at :: "('c, 'v) sqlite_ops \<Rightarrow> nat \<Rightarrow> ('c, 'v) sqlite_db \<Rightarrow> string result" where
  "getStr_at Q n db = ebind (column db n) (\<lambda>v. case column_text Q v of None \<Rightarrow> Inl Undefined_behaviour | Some s \<Rightarrow> Inr (c_str s))"

definition getInt_at :: "('c, 'v) sqlite_ops \<Rightarrow> nat \<Rightarrow> ('c, 'v) sqlite_db \<Rightarrow> int result" where
  "getInt_at Q n db = ebind (column db n) (\<lambda>v. Inr (to_int (column_int Q v)))"

definition getBool_at :: "('c, 'v) sqlite_ops \<Rightarrow> nat \<Rightarrow> ('c, 'v) sqlite_db \<Rightarrow> bool result" where
  "getBool_at Q n db = ebind (column db n) (\<lambda>v. Inr (to_int (column_int Q v) \<noteq> 0))"

definition getBigInt_at :: "('c, 'v) sqlite_ops \<Rightarrow> nat \<Rightarrow> ('c, 'v) sqlite_db \<Rightarrow> 64 word result" where
  "getBigInt_at Q n db = ebind (column db n) (\<lambda>v. Inr (column_int64 Q v))"

definition getBinary_at :: "('c, 'v) sqlite_ops \<Rightarrow> nat \<Rightarrow> ('c, 'v) sqlite_db \<Rightarrow> bytes result" where
  "getBinary_at Q n db = ebind (column db n) (\<lambda>v. Inr (column_blob Q v))"

text \<open>Into a buffer of \<open>maxSize\<close> bytes: the bytes copied and the result.\<close>

definition getBinary_buf_at :: "('c, 'v) sqlite_ops \<Rightarrow> nat \<Rightarrow> nat \<Rightarrow> ('c, 'v) sqlite_db \<Rightarrow> (bytes \<times> nat) result" where
  "getBinary_buf_at Q n maxSize db = ebind (column db n) (\<lambda>v. let blob = column_blob Q v; size = length blob in
     Inr (take (if size < maxSize then size else maxSize) blob, size))"

text \<open>The readers by name, with their defaults for a column the result does not have.\<close>

definition by_name :: "(nat \<Rightarrow> ('c, 'v) sqlite_db \<Rightarrow> 'a result) \<Rightarrow> 'a \<Rightarrow> string \<Rightarrow> ('c, 'v) sqlite_db \<Rightarrow> 'a result" where
  "by_name get def colName db = (case getColNumber colName db of Some index \<Rightarrow> get index db | None \<Rightarrow> Inr def)"

definition db_getNull :: "('c, 'v) sqlite_ops \<Rightarrow> string \<Rightarrow> ('c, 'v) sqlite_db \<Rightarrow> bool result" where
  "db_getNull Q = by_name (getNull_at Q) True"

text \<open>The string is untouched when there is no such column.\<close>

definition db_getStr :: "('c, 'v) sqlite_ops \<Rightarrow> string \<Rightarrow> string \<Rightarrow> ('c, 'v) sqlite_db \<Rightarrow> string result" where
  "db_getStr Q colName retStr = by_name (getStr_at Q) retStr colName"

definition db_getInt :: "('c, 'v) sqlite_ops \<Rightarrow> string \<Rightarrow> ('c, 'v) sqlite_db \<Rightarrow> int result" where
  "db_getInt Q = by_name (getInt_at Q) 0"

definition db_getBool :: "('c, 'v) sqlite_ops \<Rightarrow> string \<Rightarrow> ('c, 'v) sqlite_db \<Rightarrow> bool result" where
  "db_getBool Q = by_name (getBool_at Q) False"

definition db_getBinary_buf :: "('c, 'v) sqlite_ops \<Rightarrow> nat \<Rightarrow> string \<Rightarrow> ('c, 'v) sqlite_db \<Rightarrow> (bytes \<times> nat) result" where
  "db_getBinary_buf Q maxSize = by_name (\<lambda>n. getBinary_buf_at Q n maxSize) ([], 0)"

definition db_getBinary :: "('c, 'v) sqlite_ops \<Rightarrow> string \<Rightarrow> ('c, 'v) sqlite_db \<Rightarrow> bytes result" where
  "db_getBinary Q = by_name (getBinary_at Q) []"

definition db_getStrBinary :: "('c, 'v) sqlite_ops \<Rightarrow> string \<Rightarrow> ('c, 'v) sqlite_db \<Rightarrow> string result" where
  "db_getStrBinary Q strColName db = ebind (db_getBinary Q (c_str strColName) db) (\<lambda>b. Inr (strCopy_str b))"

definition db_getBigInt :: "('c, 'v) sqlite_ops \<Rightarrow> string \<Rightarrow> ('c, 'v) sqlite_db \<Rightarrow> 64 word result" where
  "db_getBigInt Q = by_name (getBigInt_at Q) 0"

section \<open>Loops over rows\<close>

definition rows_left :: "('c, 'v) sqlite_db \<Rightarrow> nat" where
  "rows_left db = (case mCurrentStmt db of None \<Rightarrow> 0 | Some st \<Rightarrow> length (st_rows st) - st_pos st)"

lemma getNextRow_left: "getNextRow db = (True, db') \<Longrightarrow> rows_left db' < rows_left db"
  by (auto simp: getNextRow_def sqlite3_step_def rows_left_def split: if_splits option.splits)

text \<open>\<^verbatim>\<open>SQL_FOREACH\<close>: the body reads the database and carries a value.\<close>

function foreach_row :: "(('c, 'v) sqlite_db \<Rightarrow> 'a \<Rightarrow> 'a result) \<Rightarrow> bool \<times> ('c, 'v) sqlite_db \<Rightarrow> 'a \<Rightarrow> 'a result" where
  "foreach_row body (bMore, db) x = (if bMore then ebind (body db x) (\<lambda>y. foreach_row body (getNextRow db) y) else Inr x)"
  by pat_completeness auto

termination
  by (relation "measure (\<lambda>(_, (bMore, db), _). if bMore then Suc (rows_left db) else 0)")
    (auto split: prod.split dest: getNextRow_left)

declare foreach_row.simps [simp del]

definition sql_foreach ::
  "('c, 'v) sqlite_ops \<Rightarrow> string \<Rightarrow> (('c, 'v) sqlite_db \<Rightarrow> 'a \<Rightarrow> 'a result) \<Rightarrow> ('c, 'v) sqlite_db \<Rightarrow> 'a \<Rightarrow> 'a result" where
  "sql_foreach Q strQuery body db x = (case executeSQL Q strQuery db of (ok, db1) \<Rightarrow>
     if ok then foreach_row body (startIterRows db1) x else Inr x)"

definition sql_exists :: "('c, 'v) sqlite_ops \<Rightarrow> string \<Rightarrow> ('c, 'v) sqlite_db \<Rightarrow> bool" where
  "sql_exists Q strQuery db = (case executeSQL Q strQuery db of (ok, db1) \<Rightarrow> ok \<and> fst (startIterRows db1))"

text \<open>Opening a database runs the statements that create its tables; their failures are ignored.\<close>

definition DatabaseCon_new :: "('c, 'v) sqlite_ops \<Rightarrow> 'c \<Rightarrow> bool \<Rightarrow> string list \<Rightarrow> int \<Rightarrow> ('c, 'v) sqlite_db result" where
  "DatabaseCon_new Q c junk initStrings initCount =
     (if initCount > int (length initStrings) then Inl Undefined_behaviour
      else Inr (foldl (\<lambda>db sql. snd (executeSQL Q sql db)) (SqliteDatabase_new c junk) (take (nat initCount) initStrings)))"

section \<open>A loop over the rows of a query\<close>

text \<open>The value of a named column of the current row, and of a row with its column names.\<close>

definition row_value :: "('c, 'v) sqlite_db \<Rightarrow> string \<Rightarrow> 'v option" where
  "row_value db name = (case getColNumber name db of None \<Rightarrow> None | Some i \<Rightarrow> (case column db i of Inr v \<Rightarrow> Some v | Inl _ \<Rightarrow> None))"

definition named_value :: "string list \<Rightarrow> 'v list \<Rightarrow> string \<Rightarrow> 'v option" where
  "named_value columns r name = map_option (\<lambda>i. r ! i) (col_number name columns 0)"

fun each_row :: "('r \<Rightarrow> 'a \<Rightarrow> 'a result) \<Rightarrow> 'r list \<Rightarrow> 'a \<Rightarrow> 'a result" where
  "each_row f [] x = Inr x"
| "each_row f (r # rs) x = ebind (f r x) (each_row f rs)"

lemma col_number_range: "col_number name cs n = Some i \<Longrightarrow> n \<le> i \<and> i < n + length cs"
  by (induction cs arbitrary: n) (force split: if_splits)+

text \<open>The database while the loop is at row \<open>k\<close>.\<close>

definition at_row :: "('c, 'v) sqlite_db \<Rightarrow> ('c, 'v) stmt \<Rightarrow> nat \<Rightarrow> ('c, 'v) sqlite_db" where
  "at_row db st k = db\<lparr>mConnection := st_effect st (mConnection db), mCurrentStmt := Some (st\<lparr>st_pos := Suc k\<rparr>), mMoreRows := True,
     mColNameTable := st_columns st\<rparr>"

lemma at_row_value:
  assumes "k < length (st_rows st)" "length (st_rows st ! k) = length (st_columns st)"
  shows "row_value (at_row db st k) = named_value (st_columns st) (st_rows st ! k)"
proof
  fix name
  show "row_value (at_row db st k) name = named_value (st_columns st) (st_rows st ! k) name"
    using assms col_number_range [of name "st_columns st" 0]
    by (auto simp: row_value_def named_value_def getColNumber_def column_def at_row_def split: option.split)
qed

lemma getNextRow_at: "getNextRow (at_row db st k) = (if Suc k < length (st_rows st) then (True, at_row db st (Suc k))
    else (False, (at_row db st k)\<lparr>mCurrentStmt := Some (st\<lparr>st_pos := 0\<rparr>)\<rparr>))"
  by (simp add: getNextRow_def at_row_def sqlite3_step_def)

lemma foreach_at:
  assumes "\<forall>r\<in>set (st_rows st). length r = length (st_columns st)" "k < length (st_rows st)"
  shows "foreach_row (\<lambda>d. f (row_value d)) (True, at_row db st k) x = each_row (\<lambda>r. f (named_value (st_columns st) r)) (drop k (st_rows st)) x"
  using assms(2)
proof (induction "length (st_rows st) - k" arbitrary: k x)
  case (Suc n)
  have row: "row_value (at_row db st k) = named_value (st_columns st) (st_rows st ! k)"
    using at_row_value assms(1) Suc.prems by (metis nth_mem)
  have "foreach_row (\<lambda>d. f (row_value d)) (getNextRow (at_row db st k)) y
      = each_row (\<lambda>r. f (named_value (st_columns st) r)) (drop (Suc k) (st_rows st)) y" for y
  proof (cases "Suc k < length (st_rows st)")
    case True
    then show ?thesis using Suc.hyps(1) [of "Suc k"] Suc.hyps(2) by (simp add: getNextRow_at)
  next
    case False
    then show ?thesis by (simp add: getNextRow_at foreach_row.simps)
  qed
  then have "foreach_row (\<lambda>d. f (row_value d)) (getNextRow (at_row db st k))
      = each_row (\<lambda>r. f (named_value (st_columns st) r)) (drop (Suc k) (st_rows st))" by (rule ext)
  then show ?case using row Suc.prems by (subst foreach_row.simps) (simp add: Cons_nth_drop_Suc [symmetric])
qed simp

text \<open>The readers by name see no more of the database than the value of the column.\<close>

lemma by_name_value:
  assumes "k < length (st_rows st)" "length (st_rows st ! k) = length (st_columns st)"
  shows "by_name (\<lambda>n d. ebind (column d n) g) x name (at_row db st k) = (case row_value (at_row db st k) name of None \<Rightarrow> Inr x | Some v \<Rightarrow> g v)"
  using assms col_number_range [of name "st_columns st" 0]
  by (auto simp: by_name_def row_value_def getColNumber_def column_def at_row_def split: option.split)

text \<open>C22: The loop over the rows of a query runs its body once for every row, in order, also when the body throws or the last
  step fails: whatever the body does with the values of the columns by name, it is the loop over the list of the rows.\<close>

theorem foreach_each_row:
  assumes "sqlite3_prepare Q (mConnection db) strQuery = Some st" and "st_pos st = 0"
    and "\<forall>r\<in>set (st_rows st). length r = length (st_columns st)"
  shows "sql_foreach Q strQuery (\<lambda>d. f (row_value d)) db x = each_row (\<lambda>r. f (named_value (st_columns st) r)) (st_rows st) x"
proof (cases "st_rows st = []")
  case True
  then show ?thesis using assms(1,2)
    by (simp add: sql_foreach_def executeSQL_def sqlite3_step_def startIterRows_def foreach_row.simps)
next
  case False
  then have "executeSQL Q strQuery db = (True, (at_row db st 0)\<lparr>mColNameTable := mColNameTable db\<rparr>)"
    using assms(1,2) by (simp add: executeSQL_def sqlite3_step_def at_row_def)
  moreover have "startIterRows ((at_row db st 0)\<lparr>mColNameTable := mColNameTable db\<rparr>) = (True, at_row db st 0)"
    by (simp add: startIterRows_def at_row_def)
  ultimately show ?thesis using foreach_at [OF assms(3), of 0] False by (simp add: sql_foreach_def)
qed

text \<open>\<^verbatim>\<open>getNextRow\<close> after the last row starts again: it says that there are no more rows, but does not clear
  \<^verbatim>\<open>mMoreRows\<close>, so that the next call is at the first row.\<close>

theorem getNextRow_restarts:
  assumes "Suc k = length (st_rows st)"
  shows "\<exists>db1. getNextRow (at_row db st k) = (False, db1) \<and> getNextRow db1 = (True, at_row db st 0)"
  using assms by (auto simp: getNextRow_at) (auto simp: getNextRow_def at_row_def sqlite3_step_def)

section \<open>Witnesses\<close>

definition toy_stmt :: "(unit, int) stmt" where
  "toy_stmt = \<lparr>st_columns = [''Port'', ''Score''], st_rows = [[1, 2], [3, 4]], st_fails = False, st_effect = id, st_pos = 0\<rparr>"

definition toy_sqlite :: "(unit, int) sqlite_ops" where
  "toy_sqlite = \<lparr>sqlite3_prepare = (\<lambda>_ _. Some toy_stmt), column_null = (\<lambda>_. False), column_text = (\<lambda>_. None), column_int = id,
     column_int64 = of_int, column_blob = (\<lambda>_. [])\<rparr>"

theorem foreach_each_row_witness:
  "sql_foreach toy_sqlite ''SELECT'' (\<lambda>d xs. Inr (xs @ [row_value d ''Score''])) (SqliteDatabase_new () False) [] = Inr [Some 2, Some 4]"
proof -
  have "sql_foreach toy_sqlite ''SELECT'' (\<lambda>d xs. Inr (xs @ [row_value d ''Score''])) (SqliteDatabase_new () False) []
      = each_row (\<lambda>r xs. Inr (xs @ [named_value [''Port'', ''Score''] r ''Score''])) [[1, 2], [3, 4]] []"
    using foreach_each_row [of toy_sqlite "SqliteDatabase_new () False" "''SELECT''" toy_stmt "\<lambda>g xs. Inr (xs @ [g ''Score''])" "[]"]
    by (simp add: toy_sqlite_def toy_stmt_def)
  then show ?thesis by (simp add: named_value_def c_str_def)
qed

theorem getNextRow_restarts_witness:
  "\<exists>db1. getNextRow (at_row (SqliteDatabase_new () False) toy_stmt 1) = (False, db1)
    \<and> getNextRow db1 = (True, at_row (SqliteDatabase_new () False) toy_stmt 0)"
  by (rule getNextRow_restarts) (simp add: toy_stmt_def)

end
