(* ===== verification/BigNum.thy ===== *)
theory BigNum
  imports Uint256 "HOL-Library.Signed_Division"
begin

text \<open>
  \<^verbatim>\<open>shared/bignum.h\<close>: \<^verbatim>\<open>CBigNum\<close>, a value class around an OpenSSL \<^verbatim>\<open>BIGNUM\<close>. The
  OpenSSL functions are the fields of \<open>bn_ops\<close>, a parameter of every operation; \<open>bn_laws\<close> states
  what their documentation promises, in terms of the number a \<^verbatim>\<open>BIGNUM\<close> stands for and of the MPI
  format (a four byte length, then sign and magnitude, most significant byte first).
\<close>

record 'b bn_ops =
  BN_new :: "'b option"
  BN_copy :: "'b \<Rightarrow> 'b option"
  BN_set_word :: "nat \<Rightarrow> 'b option"
  BN_get_word :: "'b \<Rightarrow> nat"
  BN_is_negative :: "'b \<Rightarrow> bool"
  BN_set_negative :: "'b \<Rightarrow> bool \<Rightarrow> 'b"
  BN_is_zero :: "'b \<Rightarrow> bool"
  BN_mpi2bn :: "bytes \<Rightarrow> 'b"
  BN_bn2mpi :: "'b \<Rightarrow> bytes"
  BN_add :: "'b \<Rightarrow> 'b \<Rightarrow> 'b option"
  BN_sub :: "'b \<Rightarrow> 'b \<Rightarrow> 'b option"
  BN_mul :: "'b \<Rightarrow> 'b \<Rightarrow> 'b option"
  BN_div :: "'b \<Rightarrow> 'b \<Rightarrow> ('b \<times> 'b) option"
  BN_lshift :: "'b \<Rightarrow> nat \<Rightarrow> 'b option"
  BN_rshift :: "'b \<Rightarrow> nat \<Rightarrow> 'b option"
  BN_cmp :: "'b \<Rightarrow> 'b \<Rightarrow> int"

definition bn_check :: "string \<Rightarrow> 'a option \<Rightarrow> 'a result" where
  "bn_check msg r = (case r of None \<Rightarrow> Inl (Bignum_error msg) | Some b \<Rightarrow> Inr b)"

lemma bn_check_simps [simp]: "bn_check msg (Some b) = Inr b" "bn_check msg None = Inl (Bignum_error msg)"
  by (simp_all add: bn_check_def)

section \<open>Construction\<close>

definition CBigNum_new :: "'b bn_ops \<Rightarrow> 'b result" where
  "CBigNum_new bn = bn_check ''CBigNum::CBigNum : BN_new failed'' (BN_new bn)"

definition CBigNum_copy :: "'b bn_ops \<Rightarrow> 'b \<Rightarrow> 'b result" where
  "CBigNum_copy bn b = bn_check ''CBigNum::CBigNum(const CBigNum&) : BN_copy failed''
     (Option.bind (BN_new bn) (\<lambda>_. BN_copy bn b))"

definition CBigNum_assign :: "'b bn_ops \<Rightarrow> 'b \<Rightarrow> 'b result" where
  "CBigNum_assign bn b = bn_check ''CBigNum::operator= : BN_copy failed'' (BN_copy bn b)"

definition setulong :: "'b bn_ops \<Rightarrow> nat \<Rightarrow> 'b result" where
  "setulong bn n = bn_check ''CBigNum conversion from unsigned long : BN_set_word failed'' (BN_set_word bn n)"

definition getulong :: "'b bn_ops \<Rightarrow> 'b \<Rightarrow> nat" where
  "getulong bn b = BN_get_word bn b"

definition getuint :: "'b bn_ops \<Rightarrow> 'b \<Rightarrow> nat" where
  "getuint bn b = BN_get_word bn b mod 4294967296"

text \<open>\<^verbatim>\<open>n > INT_MAX ? INT_MAX : n\<close> mixes \<^verbatim>\<open>int\<close> with \<^verbatim>\<open>unsigned long\<close> and is converted back.\<close>

definition getint :: "'b bn_ops \<Rightarrow> 'b \<Rightarrow> int" where
  "getint bn b = (let n = int (BN_get_word bn b) in
     if \<not> BN_is_negative bn b then (if n > INT_MAX then INT_MAX else n)
     else if n > INT_MAX then INT_MIN else - n)"

text \<open>The byte loop that \<^verbatim>\<open>setint64\<close>, \<^verbatim>\<open>setuint64\<close> and \<^verbatim>\<open>setuint256\<close> share: leading
  zeros are skipped, a first byte with its top bit set gets a byte of its own in front, and the sign
  is put in the top bit.\<close>

fun mpi_bytes :: "bool \<Rightarrow> bool \<Rightarrow> bytes \<Rightarrow> bytes" where
  "mpi_bytes fNegative fLeadingZeroes [] = []"
| "mpi_bytes fNegative fLeadingZeroes (c # cs) =
     (if fLeadingZeroes then
        (if c = 0 then mpi_bytes fNegative True cs
         else if c AND 0x80 \<noteq> 0 then (if fNegative then 0x80 else 0) # c # mpi_bytes fNegative False cs
         else (if fNegative then c OR 0x80 else c) # mpi_bytes fNegative False cs)
      else c # mpi_bytes fNegative False cs)"

definition size_bytes :: "nat \<Rightarrow> bytes" where
  "size_bytes nSize = (let n = of_nat nSize :: 32 word in
     [ucast (drop_bit 24 n AND 0xFF), ucast (drop_bit 16 n AND 0xFF), ucast (drop_bit 8 n AND 0xFF),
      ucast (n AND 0xFF)])"

definition mpi :: "bytes \<Rightarrow> bytes" where
  "mpi p = size_bytes (length p) @ p"

fun top_bytes :: "nat \<Rightarrow> 64 word \<Rightarrow> bytes" where
  "top_bytes 0 n = []"
| "top_bytes (Suc i) n = ucast (drop_bit 56 n AND 0xFF) # top_bytes i (push_bit 8 n)"

text \<open>\<^verbatim>\<open>n = -n\<close> overflows for the least 64-bit integer.\<close>

definition setint64 :: "'b bn_ops \<Rightarrow> int \<Rightarrow> 'b result" where
  "setint64 bn n =
     (if n = - 9223372036854775808 then Inl Undefined_behaviour
      else Inr (BN_mpi2bn bn (mpi (mpi_bytes (n < 0) True (top_bytes 8 (word_of_int \<bar>n\<bar>))))))"

definition setuint64 :: "'b bn_ops \<Rightarrow> 64 word \<Rightarrow> 'b result" where
  "setuint64 bn n = Inr (BN_mpi2bn bn (mpi (mpi_bytes False True (top_bytes 8 n))))"

definition setuint256 :: "'b bn_ops \<Rightarrow> base_uint \<Rightarrow> 'b result" where
  "setuint256 bn n = Inr (BN_mpi2bn bn (mpi (mpi_bytes False True (rev (uint_bytes n)))))"

fun copy_down :: "nat \<Rightarrow> bytes \<Rightarrow> bytes \<Rightarrow> bytes" where
  "copy_down i n [] = n"
| "copy_down i n (v # vs) = (if i < length n then copy_down (Suc i) (n[i := v]) vs else n)"

definition getuint256 :: "'b bn_ops \<Rightarrow> 'b \<Rightarrow> base_uint result" where
  "getuint256 bn b = (let vch = BN_bn2mpi bn b in
     if length vch < 4 then Inr (uint256_of_u64 0)
     else let vch' = (if length vch > 4 then vch[4 := vch ! 4 AND 0x7F] else vch) in
       Inr (of_uint_bytes (copy_down 0 (uint_bytes (uint256_of_u64 0)) (rev (drop 4 vch')))))"

definition CBigNum_int :: "'b bn_ops \<Rightarrow> int \<Rightarrow> 'b result" where
  "CBigNum_int bn n = (case BN_new bn of None \<Rightarrow> Inl Undefined_behaviour
     | Some _ \<Rightarrow> if n \<ge> 0 then setulong bn (nat n) else setint64 bn n)"

definition CBigNum_int64 :: "'b bn_ops \<Rightarrow> int \<Rightarrow> 'b result" where
  "CBigNum_int64 bn n = (case BN_new bn of None \<Rightarrow> Inl Undefined_behaviour | Some _ \<Rightarrow> setint64 bn n)"

definition CBigNum_uint :: "'b bn_ops \<Rightarrow> nat \<Rightarrow> 'b result" where
  "CBigNum_uint bn n = (case BN_new bn of None \<Rightarrow> Inl Undefined_behaviour | Some _ \<Rightarrow> setulong bn n)"

definition CBigNum_uint64 :: "'b bn_ops \<Rightarrow> 64 word \<Rightarrow> 'b result" where
  "CBigNum_uint64 bn n = (case BN_new bn of None \<Rightarrow> Inl Undefined_behaviour | Some _ \<Rightarrow> setuint64 bn n)"

definition CBigNum_uint256 :: "'b bn_ops \<Rightarrow> base_uint \<Rightarrow> 'b result" where
  "CBigNum_uint256 bn n = (case BN_new bn of None \<Rightarrow> Inl Undefined_behaviour | Some _ \<Rightarrow> setuint256 bn n)"

definition setvch :: "'b bn_ops \<Rightarrow> bytes \<Rightarrow> 'b result" where
  "setvch bn vch = Inr (BN_mpi2bn bn (size_bytes (length vch) @ rev vch))"

definition CBigNum_vch :: "'b bn_ops \<Rightarrow> bytes \<Rightarrow> 'b result" where
  "CBigNum_vch bn vch = (case BN_new bn of None \<Rightarrow> Inl Undefined_behaviour | Some _ \<Rightarrow> setvch bn vch)"

definition getvch :: "'b bn_ops \<Rightarrow> 'b \<Rightarrow> bytes" where
  "getvch bn b = (let vch = BN_bn2mpi bn b in if length vch < 4 then [] else rev (drop 4 vch))"

section \<open>The compact form\<close>

definition SetCompact :: "'b bn_ops \<Rightarrow> 32 word \<Rightarrow> 'b" where
  "SetCompact bn nCompact =
     (let nSize = unat (drop_bit 24 nCompact);
          v0 = replicate nSize 0;
          v1 = (if nSize \<ge> 1 then v0[0 := ucast (drop_bit 16 nCompact AND 0xFF)] else v0);
          v2 = (if nSize \<ge> 2 then v1[1 := ucast (drop_bit 8 nCompact AND 0xFF)] else v1);
          v3 = (if nSize \<ge> 3 then v2[2 := ucast (nCompact AND 0xFF)] else v2)
      in BN_mpi2bn bn (size_bytes nSize @ v3))"

definition GetCompact :: "'b bn_ops \<Rightarrow> 'b \<Rightarrow> 32 word" where
  "GetCompact bn b =
     (let vch = BN_bn2mpi bn b; nSize = of_nat (length vch) - 4 :: 32 word;
          c0 = push_bit 24 nSize;
          c1 = (if nSize \<ge> 1 then c0 OR push_bit 16 (ucast (vch ! 4)) else c0);
          c2 = (if nSize \<ge> 2 then c1 OR push_bit 8 (ucast (vch ! 5)) else c1)
      in if nSize \<ge> 3 then c2 OR ucast (vch ! 6) else c2)"

section \<open>Operators\<close>

definition bn_not :: "'b bn_ops \<Rightarrow> 'b \<Rightarrow> bool" where
  "bn_not bn a = BN_is_zero bn a"

definition bn_plus_eq :: "'b bn_ops \<Rightarrow> 'b \<Rightarrow> 'b \<Rightarrow> 'b result" where
  "bn_plus_eq bn a b = bn_check ''CBigNum::operator+= : BN_add failed'' (BN_add bn a b)"

definition bn_plus :: "'b bn_ops \<Rightarrow> 'b \<Rightarrow> 'b \<Rightarrow> 'b result" where
  "bn_plus bn a b = ebind (CBigNum_new bn) (\<lambda>_. bn_check ''CBigNum::operator+ : BN_add failed'' (BN_add bn a b))"

definition bn_minus :: "'b bn_ops \<Rightarrow> 'b \<Rightarrow> 'b \<Rightarrow> 'b result" where
  "bn_minus bn a b = ebind (CBigNum_new bn) (\<lambda>_. bn_check ''CBigNum::operator- : BN_sub failed'' (BN_sub bn a b))"

definition bn_minus_eq :: "'b bn_ops \<Rightarrow> 'b \<Rightarrow> 'b \<Rightarrow> 'b result" where
  "bn_minus_eq bn a b = ebind (bn_minus bn a b) (CBigNum_assign bn)"

definition bn_neg :: "'b bn_ops \<Rightarrow> 'b \<Rightarrow> 'b result" where
  "bn_neg bn a = ebind (CBigNum_copy bn a) (\<lambda>r. Inr (BN_set_negative bn r (\<not> BN_is_negative bn r)))"

definition bn_times_eq :: "'b bn_ops \<Rightarrow> 'b \<Rightarrow> 'b \<Rightarrow> 'b result" where
  "bn_times_eq bn a b = bn_check ''CBigNum::operator*= : BN_mul failed'' (BN_mul bn a b)"

definition bn_times :: "'b bn_ops \<Rightarrow> 'b \<Rightarrow> 'b \<Rightarrow> 'b result" where
  "bn_times bn a b = ebind (CBigNum_new bn) (\<lambda>_. bn_check ''CBigNum::operator* : BN_mul failed'' (BN_mul bn a b))"

definition bn_divide :: "'b bn_ops \<Rightarrow> 'b \<Rightarrow> 'b \<Rightarrow> 'b result" where
  "bn_divide bn a b = ebind (CBigNum_new bn) (\<lambda>_.
     bn_check ''CBigNum::operator/ : BN_div failed'' (map_option fst (BN_div bn a b)))"

definition bn_divide_eq :: "'b bn_ops \<Rightarrow> 'b \<Rightarrow> 'b \<Rightarrow> 'b result" where
  "bn_divide_eq bn a b = ebind (bn_divide bn a b) (CBigNum_assign bn)"

definition bn_modulo :: "'b bn_ops \<Rightarrow> 'b \<Rightarrow> 'b \<Rightarrow> 'b result" where
  "bn_modulo bn a b = ebind (CBigNum_new bn) (\<lambda>_.
     bn_check ''CBigNum::operator% : BN_mod failed'' (map_option snd (BN_div bn a b)))"

definition bn_modulo_eq :: "'b bn_ops \<Rightarrow> 'b \<Rightarrow> 'b \<Rightarrow> 'b result" where
  "bn_modulo_eq bn a b = ebind (bn_modulo bn a b) (CBigNum_assign bn)"

definition bn_shl_eq :: "'b bn_ops \<Rightarrow> 'b \<Rightarrow> nat \<Rightarrow> 'b result" where
  "bn_shl_eq bn a shift = bn_check ''CBigNum:operator<<= : BN_lshift failed'' (BN_lshift bn a shift)"

definition bn_shr_eq :: "'b bn_ops \<Rightarrow> 'b \<Rightarrow> nat \<Rightarrow> 'b result" where
  "bn_shr_eq bn a shift = bn_check ''CBigNum:operator>>= : BN_rshift failed'' (BN_rshift bn a shift)"

definition bn_shl :: "'b bn_ops \<Rightarrow> 'b \<Rightarrow> nat \<Rightarrow> 'b result" where
  "bn_shl bn a shift = ebind (CBigNum_new bn) (\<lambda>_. bn_check ''CBigNum:operator<< : BN_lshift failed'' (BN_lshift bn a shift))"

definition bn_shr :: "'b bn_ops \<Rightarrow> 'b \<Rightarrow> nat \<Rightarrow> 'b result" where
  "bn_shr bn a shift = ebind (CBigNum_new bn) (\<lambda>_. bn_check ''CBigNum:operator>> : BN_rshift failed'' (BN_rshift bn a shift))"

text \<open>\<^verbatim>\<open>BN_value_one()\<close> is the parameter \<open>one\<close>.\<close>

definition bn_inc :: "'b bn_ops \<Rightarrow> 'b \<Rightarrow> 'b \<Rightarrow> 'b result" where
  "bn_inc bn one a = bn_check ''CBigNum::operator++ : BN_add failed'' (BN_add bn a one)"

definition bn_dec :: "'b bn_ops \<Rightarrow> 'b \<Rightarrow> 'b \<Rightarrow> 'b result" where
  "bn_dec bn one a = ebind (CBigNum_new bn) (\<lambda>_.
     ebind (bn_check ''CBigNum::operator-- : BN_sub failed'' (BN_sub bn a one)) (CBigNum_assign bn))"

definition bn_eq :: "'b bn_ops \<Rightarrow> 'b \<Rightarrow> 'b \<Rightarrow> bool" where "bn_eq bn a b = (BN_cmp bn a b = 0)"
definition bn_ne :: "'b bn_ops \<Rightarrow> 'b \<Rightarrow> 'b \<Rightarrow> bool" where "bn_ne bn a b = (BN_cmp bn a b \<noteq> 0)"
definition bn_le :: "'b bn_ops \<Rightarrow> 'b \<Rightarrow> 'b \<Rightarrow> bool" where "bn_le bn a b = (BN_cmp bn a b \<le> 0)"
definition bn_ge :: "'b bn_ops \<Rightarrow> 'b \<Rightarrow> 'b \<Rightarrow> bool" where "bn_ge bn a b = (BN_cmp bn a b \<ge> 0)"
definition bn_lt :: "'b bn_ops \<Rightarrow> 'b \<Rightarrow> 'b \<Rightarrow> bool" where "bn_lt bn a b = (BN_cmp bn a b < 0)"
definition bn_gt :: "'b bn_ops \<Rightarrow> 'b \<Rightarrow> 'b \<Rightarrow> bool" where "bn_gt bn a b = (BN_cmp bn a b > 0)"

section \<open>Hex text\<close>

definition is_xdigit :: "char \<Rightarrow> bool" where
  "is_xdigit c \<longleftrightarrow> c \<in> set ''0123456789abcdefABCDEF''"

text \<open>The table holds the digit values, and 0 elsewhere.\<close>

definition bn_phexdigit :: "char \<Rightarrow> int" where
  "bn_phexdigit c = (if phexdigit c < 0 then 0 else phexdigit c)"

fun bn_hex_loop :: "'b bn_ops \<Rightarrow> 'b \<Rightarrow> string \<Rightarrow> 'b result" where
  "bn_hex_loop bn b [] = Inr b"
| "bn_hex_loop bn b (c # cs) =
     (if is_xdigit c then
        ebind (bn_shl_eq bn b 4) (\<lambda>b1. ebind (CBigNum_int bn (bn_phexdigit c)) (\<lambda>n.
        ebind (bn_plus_eq bn b1 n) (\<lambda>b2. bn_hex_loop bn b2 cs)))
      else Inr b)"

definition bn_SetHex :: "'b bn_ops \<Rightarrow> string \<Rightarrow> 'b result" where
  "bn_SetHex bn str =
     (let p0 = dropWhile isspace (c_str str);
          fNegative = (p0 \<noteq> [] \<and> hd p0 = CHR ''-'');
          p1 = (if fNegative then tl p0 else p0);
          p2 = dropWhile isspace (skip_0x p1)
      in ebind (CBigNum_int bn 0) (\<lambda>zero. ebind (CBigNum_assign bn zero) (\<lambda>b0.
         ebind (bn_hex_loop bn b0 p2) (\<lambda>b.
         if fNegative then ebind (CBigNum_int bn 0) (\<lambda>z. ebind (bn_minus bn z b) (CBigNum_assign bn)) else Inr b))))"

section \<open>What the class relies on\<close>

text \<open>The number that sign and magnitude bytes stand for, and the shortest such bytes of a number.\<close>

definition mpi_val :: "bytes \<Rightarrow> int" where
  "mpi_val p = (if p = [] then 0
     else let m = int (bytes_val ((hd p AND 0x7F) # tl p)) in if hd p AND 0x80 \<noteq> 0 then - m else m)"

fun nat_bytes :: "nat \<Rightarrow> bytes" where
  "nat_bytes n = (if n = 0 then [] else nat_bytes (n div 256) @ [of_nat (n mod 256)])"

declare nat_bytes.simps [simp del]

definition mpi_enc :: "int \<Rightarrow> bytes" where
  "mpi_enc v = mpi_bytes (v < 0) True (nat_bytes (nat \<bar>v\<bar>))"

definition bn_laws :: "'b bn_ops \<Rightarrow> ('b \<Rightarrow> int) \<Rightarrow> bool" where
  "bn_laws bn val \<longleftrightarrow> (\<exists>b. BN_new bn = Some b)
     \<and> (\<forall>b. \<exists>c. BN_copy bn b = Some c \<and> val c = val b)
     \<and> (\<forall>n < 2 ^ 64. \<exists>b. BN_set_word bn n = Some b \<and> val b = int n)
     \<and> (\<forall>b. BN_get_word bn b = (if \<bar>val b\<bar> < 2 ^ 64 then nat \<bar>val b\<bar> else 2 ^ 64 - 1))
     \<and> (\<forall>b. BN_is_negative bn b = (val b < 0)) \<and> (\<forall>b. BN_is_zero bn b = (val b = 0))
     \<and> (\<forall>b s. val (BN_set_negative bn b s) = (if s then - \<bar>val b\<bar> else \<bar>val b\<bar>))
     \<and> (\<forall>p. length p < 2 ^ 31 \<longrightarrow> val (BN_mpi2bn bn (mpi p)) = mpi_val p)
     \<and> (\<forall>b. BN_bn2mpi bn b = mpi (mpi_enc (val b)))
     \<and> (\<forall>a b. \<exists>c. BN_add bn a b = Some c \<and> val c = val a + val b)
     \<and> (\<forall>a b. \<exists>c. BN_sub bn a b = Some c \<and> val c = val a - val b)
     \<and> (\<forall>a b. \<exists>c. BN_mul bn a b = Some c \<and> val c = val a * val b)
     \<and> (\<forall>a b. val b \<noteq> 0 \<longrightarrow> (\<exists>q r. BN_div bn a b = Some (q, r) \<and> val q = val a sdiv val b \<and> val r = val a smod val b))
     \<and> (\<forall>a n. \<exists>c. BN_lshift bn a n = Some c \<and> val c = val a * 2 ^ n)
     \<and> (\<forall>a n. \<exists>c. BN_rshift bn a n = Some c \<and> val c = val a sdiv 2 ^ n)
     \<and> (\<forall>a b. BN_cmp bn a b = sgn (val a - val b))"

text \<open>The integers keep these laws.\<close>

definition int_bn :: "int bn_ops" where
  "int_bn = \<lparr>BN_new = Some 0, BN_copy = Some, BN_set_word = (\<lambda>n. Some (int n)),
     BN_get_word = (\<lambda>b. if \<bar>b\<bar> < 2 ^ 64 then nat \<bar>b\<bar> else 2 ^ 64 - 1), BN_is_negative = (\<lambda>b. b < 0),
     BN_set_negative = (\<lambda>b s. if s then - \<bar>b\<bar> else \<bar>b\<bar>), BN_is_zero = (\<lambda>b. b = 0),
     BN_mpi2bn = (\<lambda>bs. mpi_val (drop 4 bs)), BN_bn2mpi = (\<lambda>b. mpi (mpi_enc b)),
     BN_add = (\<lambda>a b. Some (a + b)), BN_sub = (\<lambda>a b. Some (a - b)), BN_mul = (\<lambda>a b. Some (a * b)),
     BN_div = (\<lambda>a b. if b = 0 then None else Some (a sdiv b, a smod b)),
     BN_lshift = (\<lambda>a n. Some (a * 2 ^ n)), BN_rshift = (\<lambda>a n. Some (a sdiv 2 ^ n)),
     BN_cmp = (\<lambda>a b. sgn (a - b))\<rparr>"

lemma length_size_bytes [simp]: "length (size_bytes n) = 4"
  by (simp add: size_bytes_def Let_def)

lemma drop_mpi [simp]: "drop 4 (mpi p) = p" "length (mpi p) = length p + 4"
  by (simp_all add: mpi_def)

lemma bn_laws_int: "bn_laws int_bn (\<lambda>b. b)"
  unfolding bn_laws_def int_bn_def by simp

section \<open>Sign and magnitude\<close>

lemma mpi_bytes_rest [simp]: "mpi_bytes neg False cs = cs"
  by (induction cs) auto

lemma and_0x80: "(c AND 0x80 \<noteq> 0) \<longleftrightarrow> bit (c::byte) 7"
  using and_exp_eq_0_iff_not_bit [of c 7] by simp

lemma and_0x7F: "(c::byte) AND 0x7F = take_bit 7 c"
  using take_bit_eq_mask [of 7 c] by (simp add: mask_eq_exp_minus_1)

lemma or_0x80: "(c::byte) OR 0x80 = set_bit 7 c"
  by (simp add: set_bit_eq_or)

lemma take_bit_7:
  assumes "\<not> bit (c::byte) 7"
  shows "take_bit 7 c = c" "take_bit 7 (set_bit 7 c) = c"
proof -
  have n: "n < 7 \<or> n = 7" if "n < LENGTH(8)" for n using that by simp linarith
  show "take_bit 7 c = c"
    by (rule bit_word_eqI) (use n assms in \<open>fastforce simp: bit_take_bit_iff\<close>)
  show "take_bit 7 (set_bit 7 c) = c"
    by (rule bit_word_eqI) (use n assms in \<open>fastforce simp: bit_take_bit_iff bit_set_bit_iff\<close>)
qed

lemma mpi_val_bytes: "mpi_val (mpi_bytes neg True bs) = (if neg then - int (bytes_val bs) else int (bytes_val bs))"
proof (induction bs)
  case Nil
  show ?case by (simp add: mpi_val_def)
next
  case (Cons c cs)
  consider "c = 0" | "c \<noteq> 0" "bit c 7" | "c \<noteq> 0" "\<not> bit c 7" by blast
  then show ?case
  proof cases
    case 1
    then show ?thesis using Cons by simp
  next
    case 2
    then have "c AND 0x80 \<noteq> 0" by (simp only: and_0x80)
    moreover have "mpi_val (0x80 # c # cs) = - int (bytes_val (c # cs))" "mpi_val (0 # c # cs) = int (bytes_val (c # cs))"
      by (simp_all add: mpi_val_def)
    ultimately show ?thesis using 2(1) by simp
  next
    case 3
    then have c: "\<not> c AND 0x80 \<noteq> 0" using and_0x80 [of c] by blast
    have s: "set_bit 7 c AND 0x80 \<noteq> 0" by (simp only: and_0x80 bit_set_bit_iff) simp
    have "mpi_val (set_bit 7 c # cs) = - int (bytes_val (c # cs))"
      using s take_bit_7(2) [OF 3(2)] unfolding mpi_val_def Let_def
      by (simp only: and_0x7F list.sel list.distinct if_False if_True not_False_eq_True)
    moreover have "mpi_val (c # cs) = int (bytes_val (c # cs))"
      using c take_bit_7(1) [OF 3(2)] unfolding mpi_val_def Let_def
      by (simp only: and_0x7F list.sel list.distinct if_False)
    ultimately show ?thesis using c 3 by (simp only: mpi_bytes.simps or_0x80 mpi_bytes_rest if_True if_False) simp
  qed
qed

lemma bytes_val_nat_bytes [simp]: "bytes_val (nat_bytes n) = n"
proof (induction n rule: nat_bytes.induct)
  case (1 n)
  show ?case
  proof (cases "n = 0")
    case True
    then show ?thesis by (simp add: nat_bytes.simps)
  next
    case False
    then show ?thesis
      using 1 by (subst nat_bytes.simps) (simp add: unat_of_nat_small)
  qed
qed

lemma hd_nat_bytes: "n \<noteq> 0 \<Longrightarrow> nat_bytes n \<noteq> [] \<and> hd (nat_bytes n) \<noteq> 0"
proof (induction n rule: nat_bytes.induct)
  case (1 n)
  show ?case
  proof (cases "n div 256 = 0")
    case True
    then have "n < 256" by (simp add: div_eq_0_iff)
    moreover from this have "unat (of_nat n :: byte) = n" by (intro unat_of_nat_small) simp
    ultimately show ?thesis
      using 1 True by (subst (1 2) nat_bytes.simps, subst (1 2) nat_bytes.simps) (auto simp del: word_of_nat_eq_0_iff)
  next
    case False
    then show ?thesis using 1 by (subst (1 2) nat_bytes.simps) auto
  qed
qed

lemma nat_bytes_0 [simp]: "nat_bytes 0 = []"
  by (subst nat_bytes.simps) simp

lemma dropWhile_nat_bytes: "dropWhile (\<lambda>b. b = 0) (nat_bytes n) = nat_bytes n"
  using hd_nat_bytes [of n] by (cases "n = 0") (auto simp: dropWhile_eq_self_iff)

lemma bytes_val_dropWhile: "bytes_val (dropWhile (\<lambda>b. b = 0) bs) = bytes_val bs"
  by (induction bs) auto

text \<open>Two byte strings without leading zeros that denote the same number are equal.\<close>

lemma bytes_val_lower: "bs \<noteq> [] \<Longrightarrow> hd bs \<noteq> 0 \<Longrightarrow> 256 ^ (length bs - 1) \<le> bytes_val bs"
proof (cases bs)
  case (Cons b cs)
  assume "hd bs \<noteq> 0"
  then have "1 \<le> unat b" using Cons by (simp add: Suc_le_eq unat_gt_0)
  then have "256 ^ length cs \<le> unat b * 256 ^ length cs" by simp
  then show ?thesis using Cons by (simp add: trans_le_add1)
qed simp

lemma bytes_val_minimal_inj:
  assumes "dropWhile (\<lambda>b. b = 0) xs = xs" "dropWhile (\<lambda>b. b = 0) ys = ys" "bytes_val xs = bytes_val ys"
  shows "xs = ys"
proof -
  have hd: "zs = [] \<or> hd zs \<noteq> 0" if "dropWhile (\<lambda>b. b = 0) zs = zs" for zs :: bytes
    using that by (simp add: dropWhile_eq_self_iff)
  have le: "length us \<le> length vs"
    if "us = [] \<or> hd us \<noteq> 0" "bytes_val us = bytes_val vs" for us vs :: bytes
  proof (rule ccontr)
    assume "\<not> length us \<le> length vs"
    then have "us \<noteq> []" "length vs \<le> length us - 1" by auto
    then have "256 ^ length vs \<le> (256::nat) ^ (length us - 1)" by (intro power_increasing) auto
    also have "\<dots> \<le> bytes_val us" using that(1) \<open>us \<noteq> []\<close> by (intro bytes_val_lower) auto
    finally have "256 ^ length vs \<le> bytes_val us" .
    with that bytes_val_bound [of vs] show False by simp
  qed
  have "length xs = length ys" using hd assms le [of xs ys] le [of ys xs] by (metis le_antisym)
  then show ?thesis using assms(3) by (intro bytes_val_inj)
qed

lemma nat_bytes_val: "nat_bytes (bytes_val bs) = dropWhile (\<lambda>b. b = 0) bs"
  by (rule bytes_val_minimal_inj) (simp_all add: dropWhile_nat_bytes bytes_val_dropWhile dropWhile_idem)

lemma mpi_bytes_dropWhile: "mpi_bytes neg True (dropWhile (\<lambda>b. b = 0) bs) = mpi_bytes neg True bs"
  by (induction bs) auto

lemma mpi_enc_bytes: "mpi_enc (int (bytes_val bs)) = mpi_bytes False True bs"
  by (simp add: mpi_enc_def nat_bytes_val mpi_bytes_dropWhile)

lemma length_mpi_bytes: "length (mpi_bytes neg lead bs) \<le> length bs + 1"
  by (induction bs arbitrary: lead) (auto simp: le_SucI)

lemma top_bytes_htobe64: "top_bytes 8 n = htobe64_bytes n"
proof -
  have p: "ucast (drop_bit 56 (push_bit k n)) = (ucast (drop_bit (56 - k) n) :: byte)" if "k \<le> 56" for k
  proof (rule bit_word_eqI)
    fix m assume "m < LENGTH(8)"
    then show "bit (ucast (drop_bit 56 (push_bit k n)) :: byte) m = bit (ucast (drop_bit (56 - k) n) :: byte) m"
      using that by (auto simp: bit_simps)
  qed
  have e: "8 = Suc (Suc (Suc (Suc (Suc (Suc (Suc (Suc 0)))))))" by simp
  have "top_bytes 8 n = map (\<lambda>k. ucast (drop_bit 56 (push_bit k n) AND 0xFF)) [0, 8, 16, 24, 32, 40, 48, 56]"
    unfolding e top_bytes.simps by (simp add: numeral_eq_Suc)
  then show ?thesis by (simp add: ucast_and_255 p htobe64_bytes_def)
qed

section \<open>Values\<close>

lemma bn_laws_mpi:
  assumes "bn_laws bn val"
  shows "length p < 2 ^ 31 \<Longrightarrow> val (BN_mpi2bn bn (mpi p)) = mpi_val p" "BN_bn2mpi bn b = mpi (mpi_enc (val b))"
  using assms by (simp_all add: bn_laws_def)

lemma bytes_val_top_bytes [simp]: "bytes_val (top_bytes 8 n) = unat n"
  by (simp only: top_bytes_htobe64 bytes_val_htobe64)

lemma length_top_bytes [simp]: "length (top_bytes k n) = k"
  by (induction k arbitrary: n) auto

lemma setuint64_val: "bn_laws bn val \<Longrightarrow> \<exists>b. setuint64 bn n = Inr b \<and> val b = int (unat n)"
  using bn_laws_mpi(1) [of bn val "mpi_bytes False True (top_bytes 8 n)"]
    length_mpi_bytes [of False True "top_bytes 8 n"]
  by (simp add: setuint64_def mpi_val_bytes)

lemma setint64_val:
  assumes "bn_laws bn val" "- (2 ^ 63) < n" "n < 2 ^ 63"
  shows "\<exists>b. setint64 bn n = Inr b \<and> val b = n"
proof -
  define w :: "64 word" where "w = word_of_int \<bar>n\<bar>"
  have "unat w = nat \<bar>n\<bar>"
    using assms by (simp add: w_def unsigned_of_int take_bit_int_eq_self)
  moreover have "val (BN_mpi2bn bn (mpi (mpi_bytes (n < 0) True (top_bytes 8 w))))
      = mpi_val (mpi_bytes (n < 0) True (top_bytes 8 w))"
    using length_mpi_bytes [of "n < 0" True "top_bytes 8 w"] by (intro bn_laws_mpi(1) [OF assms(1)]) simp
  ultimately show ?thesis using assms by (simp add: setint64_def mpi_val_bytes w_def [symmetric])
qed

lemma setuint256_val:
  assumes "bn_laws bn val" "uint_size n = 32"
  shows "\<exists>b. setuint256 bn n = Inr b \<and> val b = int (bytes_val (rev (uint_bytes n)))"
proof -
  have "length (mpi_bytes False True (rev (uint_bytes n))) \<le> 33"
    using length_mpi_bytes [of False True "rev (uint_bytes n)"] assms(2) by simp
  then show ?thesis
    using bn_laws_mpi(1) [OF assms(1)] by (simp add: setuint256_def mpi_val_bytes)
qed

lemma copy_down_pad:
  "length vs \<le> k \<Longrightarrow> copy_down (length us) (us @ replicate k 0) vs = us @ vs @ replicate (k - length vs) 0"
proof (induction vs arbitrary: us k)
  case (Cons v vs)
  then obtain j where k: "k = Suc j" by (cases k) auto
  have "(us @ replicate k 0)[length us := v] = (us @ [v]) @ replicate j 0" by (simp add: k list_update_append)
  moreover have "copy_down (length (us @ [v])) ((us @ [v]) @ replicate j 0) vs
      = (us @ [v]) @ vs @ replicate (j - length vs) 0"
    using Cons.prems k by (intro Cons.IH) simp
  ultimately show ?case by (simp add: k)
qed simp

lemma uint256_zero: "uint256_of_u64 0 = uint_zero 8"
  by code_simp

text \<open>Without the sign bit the bytes behind the leading zeros are the magnitude again.\<close>

lemma rev_magnitude:
  "rev (dropWhile (\<lambda>b. b = 0) bs) @ replicate (length bs - length (dropWhile (\<lambda>b. b = 0) bs)) 0 = rev bs"
proof -
  let ?z = "takeWhile (\<lambda>b. b = 0) bs" and ?d = "dropWhile (\<lambda>b. b = 0) bs"
  have "rev bs = rev ?d @ rev ?z" by (metis rev_append takeWhile_dropWhile_id)
  also have "rev ?z = replicate (length ?z) 0" by (metis replicate_takeWhile rev_replicate)
  also have "length ?z = length bs - length ?d" by (metis add_diff_cancel_right' length_append takeWhile_dropWhile_id)
  finally show ?thesis by simp
qed

lemma mpi_bytes_positive:
  "mpi_bytes False True bs = (let d = dropWhile (\<lambda>b. b = 0) bs in
     if d \<noteq> [] \<and> bit (hd d) 7 then 0 # d else d)"
  by (induction bs) (auto simp: and_0x80 Let_def)

lemma getuint256_bytes:
  assumes "bn_laws bn val" "val b = int (bytes_val bs)" "length bs = 32"
  shows "getuint256 bn b = Inr (of_uint_bytes (rev bs))"
proof -
  let ?d = "dropWhile (\<lambda>b. b = 0) bs" and ?p = "mpi_bytes False True bs"
  have m: "BN_bn2mpi bn b = mpi ?p" using bn_laws_mpi(2) [OF assms(1)] assms(2) by (simp add: mpi_enc_bytes)
  have dl: "length ?d \<le> 32" using length_dropWhile_le [of _ bs] assms(3) by metis
  have z: "uint_bytes (uint256_of_u64 0) = replicate 32 0" by (simp add: uint256_zero)
  define q where "q = (if ?p = [] then [] else (hd ?p AND 0x7F) # tl ?p)"
  have "drop 4 (if length (mpi ?p) > 4 then (mpi ?p)[4 := mpi ?p ! 4 AND 0x7F] else mpi ?p) = q"
    by (cases ?p) (simp_all add: q_def mpi_def nth_append drop_update_swap list_update_append)
  then have g: "getuint256 bn b = Inr (of_uint_bytes (copy_down 0 (replicate 32 0) (rev q)))"
    by (simp add: getuint256_def m z Let_def del: drop_mpi(1))
  have "rev q = rev ?d \<or> rev q = rev ?d @ [0]"
  proof (cases "?d \<noteq> [] \<and> bit (hd ?d) 7")
    case True
    then show ?thesis by (simp add: q_def mpi_bytes_positive Let_def)
  next
    case False
    then show ?thesis
      by (cases ?d) (auto simp: q_def mpi_bytes_positive Let_def and_0x7F take_bit_7)
  qed
  moreover have "copy_down 0 (replicate 32 0) (rev ?d) = rev bs"
    using copy_down_pad [of "rev ?d" 32 "[]"] dl assms(3) rev_magnitude [of bs] by simp
  moreover have "copy_down 0 (replicate 32 0) (rev ?d @ [0]) = rev bs"
  proof (cases "length ?d = 32")
    case True
    then have "?d = bs" using assms(3) by (metis dropWhile_eq_self_iff length_dropWhile_le le_antisym takeWhile_dropWhile_id append_self_conv2 length_append length_0_conv add_cancel_left_left)
    have "copy_down i n (vs @ [0]) = copy_down i n vs" if "i + length vs = length n" for i n vs
      using that by (induction vs arbitrary: i n) auto
    with True \<open>?d = bs\<close> show ?thesis
      using copy_down_pad [of "rev ?d" 32 "[]"] assms(3) by simp
  next
    case False
    then have l: "length (rev ?d @ [0]) \<le> 32" using dl by simp
    have "replicate (32 - length ?d) (0::byte) = 0 # replicate (32 - length (rev ?d @ [0])) 0"
      using False dl by (cases "32 - length ?d") auto
    then show ?thesis
      using copy_down_pad [OF l, of "[]"] assms(3) rev_magnitude [of bs] by simp
  qed
  ultimately show ?thesis using g by auto
qed

section \<open>Properties\<close>

text \<open>The conversions from 64-bit integers store the number, and \<^verbatim>\<open>getint\<close> reads it back
  clamped to the range of \<^verbatim>\<open>int\<close>.\<close>

theorem int64_roundtrip:
  assumes "bn_laws bn val" and "- (2 ^ 63) < n" and "n < 2 ^ 63"
  shows "\<exists>b. CBigNum_int64 bn n = Inr b \<and> val b = n \<and> getint bn b = max INT_MIN (min INT_MAX n)
     \<and> (0 \<le> n \<longrightarrow> getulong bn b = nat n)"
proof -
  obtain b where b: "setint64 bn n = Inr b" "val b = n" using setint64_val [OF assms] by blast
  have "BN_get_word bn b = nat \<bar>n\<bar>" "BN_is_negative bn b = (n < 0)"
    using assms b(2) by (simp_all add: bn_laws_def)
  then have "getint bn b = max INT_MIN (min INT_MAX n)" "0 \<le> n \<longrightarrow> getulong bn b = nat n"
    by (auto simp: getint_def getulong_def INT_MAX_def INT_MIN_def Let_def)
  moreover have "CBigNum_int64 bn n = Inr b" using assms(1) b(1) by (auto simp: CBigNum_int64_def bn_laws_def)
  ultimately show ?thesis using b(2) by blast
qed

theorem int64_roundtrip_witness:
  "\<exists>b. CBigNum_int64 int_bn (- 5000000000) = Inr b \<and> b = - 5000000000 \<and> getint int_bn b = - 2147483648"
  using int64_roundtrip [OF bn_laws_int, of "- 5000000000"] by (auto simp: INT_MIN_def INT_MAX_def)

text \<open>A 256-bit integer converted to a big number and back is unchanged. The number in
  between is the one its bytes denote with the last byte as the most significant.\<close>

theorem uint256_bignum_roundtrip:
  assumes "bn_laws bn val" and "uint_size n = 32"
  shows "\<exists>b. CBigNum_uint256 bn n = Inr b \<and> val b = int (bytes_val (rev (uint_bytes n))) \<and> getuint256 bn b = Inr n"
proof -
  obtain b where b: "setuint256 bn n = Inr b" "val b = int (bytes_val (rev (uint_bytes n)))"
    using setuint256_val [OF assms] by blast
  have "getuint256 bn b = Inr n" using getuint256_bytes [OF assms(1) b(2)] assms(2) by simp
  moreover have "CBigNum_uint256 bn n = Inr b" using assms(1) b(1) by (auto simp: CBigNum_uint256_def bn_laws_def)
  ultimately show ?thesis using b(2) by blast
qed

theorem uint256_bignum_roundtrip_witness:
  "\<exists>b. CBigNum_uint256 int_bn \<lparr>pn = [1, 0, 0, 0, 0, 0, 0, 0]\<rparr> = Inr b \<and> getuint256 int_bn b = Inr \<lparr>pn = [1, 0, 0, 0, 0, 0, 0, 0]\<rparr>"
  using uint256_bignum_roundtrip [OF bn_laws_int, of "\<lparr>pn = [1, 0, 0, 0, 0, 0, 0, 0]\<rparr>"]
  by (auto simp: uint_size_def)

end
