(* ===== verification/Base58.thy ===== *)
theory Base58
  imports BigNum
begin

text \<open>
  \<^verbatim>\<open>shared/base58.h\<close> and the hash helpers of \<^verbatim>\<open>shared/BitcoinUtil.h\<close>: base 58 text of
  byte strings, the variant with a four byte checksum, and \<^verbatim>\<open>CBase58Data\<close>, versioned data with a
  total order. SHA-256 and RIPEMD-160 are parameters.
\<close>

section \<open>Hashes\<close>

definition SHA256Hash :: "(bytes \<Rightarrow> bytes) \<Rightarrow> bytes \<Rightarrow> base_uint" where
  "SHA256Hash SHA256 bs =
     (let hash1 = of_uint_bytes (SHA256 bs) in of_uint_bytes (SHA256 (uint_bytes hash1)))"

text \<open>The overloads for two and three ranges feed them to one digest.\<close>

definition SHA256Hash2 :: "(bytes \<Rightarrow> bytes) \<Rightarrow> bytes \<Rightarrow> bytes \<Rightarrow> base_uint" where
  "SHA256Hash2 SHA256 p1 p2 = SHA256Hash SHA256 (p1 @ p2)"

definition SHA256Hash3 :: "(bytes \<Rightarrow> bytes) \<Rightarrow> bytes \<Rightarrow> bytes \<Rightarrow> bytes \<Rightarrow> base_uint" where
  "SHA256Hash3 SHA256 p1 p2 p3 = SHA256Hash SHA256 (p1 @ p2 @ p3)"

definition Hash160 :: "(bytes \<Rightarrow> bytes) \<Rightarrow> (bytes \<Rightarrow> bytes) \<Rightarrow> bytes \<Rightarrow> base_uint result" where
  "Hash160 SHA256 RIPEMD160 vch =
     (if vch = [] then Inl Undefined_behaviour
      else let hash1 = of_uint_bytes (SHA256 vch) in Inr (of_uint_bytes (RIPEMD160 (uint_bytes hash1))))"

section \<open>Base 58\<close>

definition pszBase58 :: string where
  "pszBase58 = ''ipshnaf39wBUDNEGHJKLM4PQRST7VWXYZ2bcdeCg65jkm8oFqr1tuvAxyz''"

text \<open>\<^verbatim>\<open>pszBase58[c]\<close>: the literal ends with a NUL.\<close>

definition psz_at :: "nat \<Rightarrow> char result" where
  "psz_at c = (if c < length pszBase58 then Inr (pszBase58 ! c)
     else if c = length pszBase58 then Inr (CHR 0x00) else Inl Undefined_behaviour)"

partial_function (option) enc58_loop ::
  "'b bn_ops \<Rightarrow> 'b \<Rightarrow> 'b \<Rightarrow> 'b \<Rightarrow> string \<Rightarrow> string result option" where
  "enc58_loop bn bn58 bn0 b str =
     (if bn_gt bn b bn0 then
        (case BN_div bn b bn58 of
           None \<Rightarrow> Some (Inl (Bignum_error ''EncodeBase58 : BN_div failed''))
         | Some (dv, rem) \<Rightarrow>
             (case CBigNum_assign bn dv of
                Inl e \<Rightarrow> Some (Inl e)
              | Inr b' \<Rightarrow>
                  (case psz_at (getulong bn rem mod 4294967296) of
                     Inl e \<Rightarrow> Some (Inl e)
                   | Inr ch \<Rightarrow> enc58_loop bn bn58 bn0 b' (str @ [ch]))))
      else Some (Inr str))"

declare enc58_loop.simps [code]

definition EncodeBase58_range :: "'b bn_ops \<Rightarrow> bytes \<Rightarrow> string result option" where
  "EncodeBase58_range bn bs =
     (case CBigNum_int bn 58 of Inl e \<Rightarrow> Some (Inl e) | Inr bn58 \<Rightarrow>
     (case CBigNum_int bn 0 of Inl e \<Rightarrow> Some (Inl e) | Inr bn0 \<Rightarrow>
     (let vchTmp = rev bs @ [0] in
      case CBigNum_vch bn vchTmp of Inl e \<Rightarrow> Some (Inl e) | Inr b \<Rightarrow>
      map_option (\<lambda>r. ebind r (\<lambda>str.
          Inr (rev (str @ replicate (length (takeWhile (\<lambda>x. x = 0) bs)) (pszBase58 ! 0)))))
        (enc58_loop bn bn58 bn0 b []))))"

definition EncodeBase58 :: "'b bn_ops \<Rightarrow> bytes \<Rightarrow> string result option" where
  "EncodeBase58 bn vch = (if vch = [] then Some (Inl Undefined_behaviour) else EncodeBase58_range bn vch)"

text \<open>\<^verbatim>\<open>strchr(pszBase58, c) - pszBase58\<close> for a character other than NUL.\<close>

fun index_of :: "char \<Rightarrow> string \<Rightarrow> nat option" where
  "index_of c [] = None"
| "index_of c (d # ds) = (if c = d then Some 0 else map_option Suc (index_of c ds))"

fun dec58_loop :: "'b bn_ops \<Rightarrow> 'b \<Rightarrow> 'b \<Rightarrow> string \<Rightarrow> 'b option result" where
  "dec58_loop bn bn58 b [] = Inr (Some b)"
| "dec58_loop bn bn58 b (c # cs) =
     (case index_of c pszBase58 of
        None \<Rightarrow> (if dropWhile isspace (c # cs) \<noteq> [] then Inr None else Inr (Some b))
      | Some i \<Rightarrow>
          ebind (setulong bn i) (\<lambda>bnChar.
          ebind (bn_check ''DecodeBase58 : BN_mul failed'' (BN_mul bn b bn58)) (\<lambda>b1.
          ebind (bn_plus_eq bn b1 bnChar) (\<lambda>b2. dec58_loop bn bn58 b2 cs))))"

definition trim_sign :: "bytes \<Rightarrow> bytes" where
  "trim_sign v = (if length v \<ge> 2 \<and> v ! (length v - 1) = 0 \<and> v ! (length v - 2) \<ge> 0x80 then butlast v else v)"

text \<open>The result and \<^verbatim>\<open>vchRet\<close>.\<close>

definition DecodeBase58 :: "'b bn_ops \<Rightarrow> string \<Rightarrow> (bool \<times> bytes) result" where
  "DecodeBase58 bn str =
     (let psz = dropWhile isspace (c_str str) in
      ebind (CBigNum_int bn 58) (\<lambda>bn58. ebind (CBigNum_int bn 0) (\<lambda>b0. ebind (CBigNum_new bn) (\<lambda>_.
      ebind (dec58_loop bn bn58 b0 psz) (\<lambda>r. case r of
          None \<Rightarrow> Inr (False, [])
        | Some b \<Rightarrow>
            let vchTmp = trim_sign (getvch bn b);
                nLeadingZeros = length (takeWhile (\<lambda>c. c = pszBase58 ! 0) psz)
            in Inr (True, replicate nLeadingZeros 0 @ rev vchTmp))))))"

section \<open>With checksum\<close>

definition EncodeBase58Check :: "(bytes \<Rightarrow> bytes) \<Rightarrow> 'b bn_ops \<Rightarrow> bytes \<Rightarrow> string result option" where
  "EncodeBase58Check SHA256 bn vchIn =
     EncodeBase58 bn (vchIn @ take 4 (uint_bytes (SHA256Hash SHA256 vchIn)))"

definition DecodeBase58Check :: "(bytes \<Rightarrow> bytes) \<Rightarrow> 'b bn_ops \<Rightarrow> string \<Rightarrow> (bool \<times> bytes) result" where
  "DecodeBase58Check SHA256 bn str =
     ebind (DecodeBase58 bn str) (\<lambda>(ok, vchRet).
     if \<not> ok then Inr (False, vchRet)
     else if length vchRet < 4 then Inr (False, [])
     else let n = length vchRet - 4; hash = SHA256Hash SHA256 (take n vchRet) in
       if take 4 (uint_bytes hash) \<noteq> drop n vchRet then Inr (False, [])
       else Inr (True, take n vchRet))"

section \<open>Versioned data\<close>

datatype CBase58Data = CBase58Data (nVersion: byte) (vchData: bytes)

definition CBase58Data_new :: CBase58Data where
  "CBase58Data_new = CBase58Data 1 []"

definition SetData :: "int \<Rightarrow> bytes \<Rightarrow> CBase58Data \<Rightarrow> CBase58Data" where
  "SetData nVersionIn vchDataIn d = CBase58Data (word_of_int nVersionIn) vchDataIn"

definition SetString :: "(bytes \<Rightarrow> bytes) \<Rightarrow> 'b bn_ops \<Rightarrow> string \<Rightarrow> byte \<Rightarrow> (CBase58Data, bool) action" where
  "SetString SHA256 bn psz version d =
     (case DecodeBase58Check SHA256 bn psz of
        Inl e \<Rightarrow> (Inl e, d)
      | Inr (_, vchTemp) \<Rightarrow>
          if vchTemp = [] \<or> vchTemp ! 0 \<noteq> version then (Inr False, CBase58Data 1 [])
          else (Inr True, CBase58Data (vchTemp ! 0) (tl vchTemp)))"

definition ToString :: "(bytes \<Rightarrow> bytes) \<Rightarrow> 'b bn_ops \<Rightarrow> CBase58Data \<Rightarrow> string result option" where
  "ToString SHA256 bn d = EncodeBase58Check SHA256 bn (nVersion d # vchData d)"

text \<open>\<^verbatim>\<open>operator<\<close> of \<^verbatim>\<open>std::vector<unsigned char>\<close>.\<close>

fun vec_less :: "bytes \<Rightarrow> bytes \<Rightarrow> bool" where
  "vec_less _ [] = False"
| "vec_less [] (b # bs) = True"
| "vec_less (a # as) (b # bs) = (if a < b then True else if b < a then False else vec_less as bs)"

definition CompareTo :: "CBase58Data \<Rightarrow> CBase58Data \<Rightarrow> int" where
  "CompareTo a b =
     (if nVersion a < nVersion b then - 1
      else if nVersion a > nVersion b then 1
      else if vec_less (vchData a) (vchData b) then - 1
      else if vec_less (vchData b) (vchData a) then 1
      else 0)"


text \<open>What \<^verbatim>\<open>SHA256_Final\<close> promises: a digest is 32 bytes.\<close>

definition sha256_laws :: "(bytes \<Rightarrow> bytes) \<Rightarrow> bool" where
  "sha256_laws SHA256 \<longleftrightarrow> (\<forall>bs. length (SHA256 bs) = 32)"

section \<open>The alphabet\<close>

lemma length_pszBase58 [simp]: "length pszBase58 = 58"
  by code_simp

lemma distinct_pszBase58: "distinct pszBase58"
  by code_simp

lemma pszBase58_plain: "\<forall>c\<in>set pszBase58. \<not> isspace c \<and> c \<noteq> CHR 0x00"
  by code_simp

lemma index_of_nth: "distinct ds \<Longrightarrow> i < length ds \<Longrightarrow> index_of (ds ! i) ds = Some i"
proof (induction ds arbitrary: i)
  case (Cons d ds)
  then show ?case by (cases i) auto
qed simp

lemma index_of_SomeD: "index_of c ds = Some i \<Longrightarrow> i < length ds \<and> ds ! i = c"
  by (induction ds arbitrary: i) (auto split: if_splits)

lemma index_pszBase58 [simp]: "i < 58 \<Longrightarrow> index_of (pszBase58 ! i) pszBase58 = Some i"
  by (rule index_of_nth) (simp_all add: distinct_pszBase58)

lemma psz_at_digit [simp]: "c < 58 \<Longrightarrow> psz_at c = Inr (pszBase58 ! c)"
  by (simp add: psz_at_def)

definition digit58 :: "nat \<Rightarrow> char" where
  "digit58 i = pszBase58 ! i"

lemma digit58_plain: "i < 58 \<Longrightarrow> \<not> isspace (digit58 i) \<and> digit58 i \<noteq> CHR 0x00"
  using pszBase58_plain by (simp add: digit58_def)

lemma digit58_eq: "i < 58 \<Longrightarrow> j < 58 \<Longrightarrow> digit58 i = digit58 j \<longleftrightarrow> i = j"
  by (simp add: digit58_def nth_eq_iff_index_eq distinct_pszBase58)

section \<open>Digits\<close>

text \<open>The base 58 digits of a number, the most significant first and without leading zeros.\<close>

fun digits58 :: "nat \<Rightarrow> nat list" where
  "digits58 n = (if n = 0 then [] else digits58 (n div 58) @ [n mod 58])"

declare digits58.simps [simp del]

lemma digits58_0 [simp]: "digits58 0 = []"
  by (simp add: digits58.simps)

lemma digits58_bound: "\<forall>d\<in>set (digits58 n). d < 58"
proof (induction n rule: less_induct)
  case (less n)
  have "\<forall>d\<in>set (digits58 (n div 58)). d < 58" if "n \<noteq> 0" using that by (intro less.IH) simp
  then show ?case by (cases "n = 0") (auto simp: digits58.simps [of n])
qed

lemma be_val_digits58 [simp]: "be_val 58 (digits58 n) = n"
proof (induction n rule: less_induct)
  case (less n)
  then show ?case by (cases "n = 0") (simp_all add: digits58.simps [of n])
qed

lemma hd_digits58: "n \<noteq> 0 \<Longrightarrow> digits58 n \<noteq> [] \<and> hd (digits58 n) \<noteq> 0"
proof (induction n rule: less_induct)
  case (less n)
  then show ?case
    by (cases "n div 58 = 0") (auto simp: digits58.simps [of n] hd_append less_Suc_eq)
qed

text \<open>The text of a byte string: one first letter per leading zero byte, then the digits.\<close>

definition text58 :: "bytes \<Rightarrow> string" where
  "text58 bs = map digit58 (replicate (length (takeWhile (\<lambda>x. x = 0) bs)) 0 @ digits58 (bytes_val bs))"

section \<open>Encoding\<close>

lemma bn_laws_words:
  assumes "bn_laws bn val"
  shows "\<exists>b. BN_new bn = Some b" "\<exists>c. BN_copy bn b = Some c \<and> val c = val b"
    "n < 2 ^ 64 \<Longrightarrow> \<exists>b. BN_set_word bn n = Some b \<and> val b = int n"
    "BN_get_word bn b = (if \<bar>val b\<bar> < 2 ^ 64 then nat \<bar>val b\<bar> else 2 ^ 64 - 1)"
    "BN_cmp bn a b = sgn (val a - val b)"
  using assms by (simp_all add: bn_laws_def)

lemma bn_laws_arith:
  assumes "bn_laws bn val"
  shows "\<exists>c. BN_add bn a b = Some c \<and> val c = val a + val b" "\<exists>c. BN_mul bn a b = Some c \<and> val c = val a * val b"
    "val b \<noteq> 0 \<Longrightarrow> \<exists>q r. BN_div bn a b = Some (q, r) \<and> val q = val a sdiv val b \<and> val r = val a smod val b"
  using assms by (simp_all add: bn_laws_def)

lemma CBigNum_int_val:
  assumes "bn_laws bn val" "n < 2 ^ 64"
  shows "\<exists>b. CBigNum_int bn (int n) = Inr b \<and> val b = int n"
  using bn_laws_words(1) [OF assms(1)] bn_laws_words(3) [OF assms] by (auto simp: CBigNum_int_def setulong_def)

lemma enc58_loop_digits:
  assumes bn: "bn_laws bn val" and c: "val bn58 = 58" "val bn0 = 0"
  shows "val b = int n \<Longrightarrow> enc58_loop bn bn58 bn0 b str = Some (Inr (str @ rev (map digit58 (digits58 n))))"
proof (induction n arbitrary: b str rule: less_induct)
  case (less n)
  show ?case
  proof (cases "n = 0")
    case True
    then show ?thesis using less.prems c bn_laws_words(5) [OF bn, of b bn0] by (subst enc58_loop.simps) (simp add: bn_gt_def)
  next
    case False
    obtain q r where q: "BN_div bn b bn58 = Some (q, r)" "val q = int (n div 58)" "val r = int (n mod 58)"
      using bn_laws_arith(3) [OF bn, of bn58 b] c less.prems False by (auto simp: signed_divide_int_def signed_modulo_int_def zdiv_int zmod_int)
    obtain b' where b': "BN_copy bn q = Some b'" "val b' = int (n div 58)" using bn_laws_words(2) [OF bn, of q] q by auto
    have g: "getulong bn r mod 4294967296 = n mod 58"
      using q(3) bn_laws_words(4) [OF bn, of r] by (simp add: getulong_def)
    have ih: "enc58_loop bn bn58 bn0 b' (str @ [digit58 (n mod 58)])
        = Some (Inr ((str @ [digit58 (n mod 58)]) @ rev (map digit58 (digits58 (n div 58)))))"
      using False b'(2) by (intro less.IH) simp_all
    have "bn_gt bn b bn0" using less.prems c False bn_laws_words(5) [OF bn, of b bn0] by (simp add: bn_gt_def)
    then show ?thesis
      using q(1) b'(1) g ih False
      by (subst enc58_loop.simps) (simp add: CBigNum_assign_def digit58_def digits58.simps [of n])
  qed
qed

lemma mpi_val_zero_Cons: "mpi_val (0 # bs) = int (bytes_val bs)"
  by (simp add: mpi_val_def)

lemma setvch_val:
  assumes "bn_laws bn val" "length bs < 2 ^ 31 - 1"
  shows "\<exists>b. CBigNum_vch bn (rev bs @ [0]) = Inr b \<and> val b = int (bytes_val bs)"
proof -
  have "val (BN_mpi2bn bn (mpi (0 # bs))) = int (bytes_val bs)"
    using assms(2) by (simp add: bn_laws_mpi(1) [OF assms(1)] mpi_val_zero_Cons)
  then show ?thesis using bn_laws_words(1) [OF assms(1)] by (auto simp: CBigNum_vch_def setvch_def mpi_def)
qed

lemma EncodeBase58_text:
  assumes "bn_laws bn val" "length bs < 2 ^ 31 - 1"
  shows "EncodeBase58_range bn bs = Some (Inr (text58 bs))"
proof -
  obtain b58 where 1: "CBigNum_int bn 58 = Inr b58" "val b58 = 58" using CBigNum_int_val [OF assms(1), of 58] by auto
  obtain b0 where 2: "CBigNum_int bn 0 = Inr b0" "val b0 = 0" using CBigNum_int_val [OF assms(1), of 0] by auto
  obtain b where 3: "CBigNum_vch bn (rev bs @ [0]) = Inr b" "val b = int (bytes_val bs)" using setvch_val [OF assms] by auto
  show ?thesis
    using 1 2 3 enc58_loop_digits [OF assms(1) 1(2) 2(2) 3(2)]
    by (simp add: EncodeBase58_range_def text58_def digit58_def)
qed

section \<open>Decoding\<close>

lemma dec58_loop_digits:
  assumes bn: "bn_laws bn val" and c: "val bn58 = 58"
  shows "\<forall>d\<in>set ds. d < 58 \<Longrightarrow> val b = int n \<Longrightarrow>
    \<exists>r. dec58_loop bn bn58 b (map digit58 ds) = Inr (Some r) \<and> val r = int (n * 58 ^ length ds + be_val 58 ds)"
proof (induction ds arbitrary: b n)
  case (Cons d ds)
  obtain x where x: "BN_set_word bn d = Some x" "val x = int d"
    using bn_laws_words(3) [OF bn, of d] Cons.prems(1) by (auto simp: less_trans [of d 58])
  obtain y where y: "BN_mul bn b bn58 = Some y" "val y = int (n * 58)"
    using bn_laws_arith(2) [OF bn, of b bn58] c Cons.prems(2) by auto
  obtain z where z: "BN_add bn y x = Some z" "val z = int (n * 58 + d)"
    using bn_laws_arith(1) [OF bn, of y x] x y by auto
  have i: "index_of (digit58 d) pszBase58 = Some d" using Cons.prems(1) by (simp add: digit58_def)
  from Cons.IH [of z "n * 58 + d"] Cons.prems(1) z obtain r where
    "dec58_loop bn bn58 z (map digit58 ds) = Inr (Some r)" "val r = int ((n * 58 + d) * 58 ^ length ds + be_val 58 ds)"
    by auto
  with i x y z show ?case by (auto simp: setulong_def bn_plus_eq_def algebra_simps)
qed simp

lemma bit_7_ge: "bit (x::byte) 7 \<longleftrightarrow> x \<ge> 0x80"
proof -
  have "bit x 7 \<longleftrightarrow> odd (unat x div 2 ^ 7)"
    using bit_iff_odd [of "unat x" 7] by (simp add: bit_unsigned_iff)
  also have "unat x div 2 ^ 7 = (if unat x \<ge> 128 then 1 else 0)"
    using unat_byte_bound [of x] by (auto intro: div_nat_eqI)
  finally show ?thesis by (simp add: word_le_nat_alt split: if_splits)
qed

lemma trim_sign_getvch:
  assumes "bn_laws bn val" "val b = int (bytes_val bs)"
  shows "trim_sign (getvch bn b) = rev (dropWhile (\<lambda>x. x = 0) bs)"
proof -
  let ?d = "dropWhile (\<lambda>x. x = 0) bs"
  have g: "getvch bn b = rev (mpi_bytes False True bs)"
    using bn_laws_mpi(2) [OF assms(1)] assms(2) by (simp add: getvch_def mpi_enc_bytes)
  show ?thesis
  proof (cases "?d")
    case Nil
    then show ?thesis by (simp only: g mpi_bytes_positive Let_def) (simp add: trim_sign_def)
  next
    case (Cons x xs)
    then have "x \<noteq> 0" using hd_dropWhile [of "\<lambda>x. x = 0" bs] by simp
    show ?thesis
    proof (cases "bit x 7")
      case True
      then have "getvch bn b = (rev xs @ [x]) @ [0]" by (simp add: g mpi_bytes_positive Cons)
      with True show ?thesis by (simp add: trim_sign_def Cons bit_7_ge nth_append butlast_append)
    next
      case False
      then have "getvch bn b = rev xs @ [x]" by (simp add: g mpi_bytes_positive Cons)
      then show ?thesis using \<open>x \<noteq> 0\<close> by (simp add: trim_sign_def Cons nth_append)
    qed
  qed
qed


lemma text58_plain: "c \<in> set (text58 bs) \<Longrightarrow> \<not> isspace c \<and> c \<noteq> CHR 0x00"
  using digit58_plain digits58_bound [of "bytes_val bs"] by (auto simp: text58_def)

lemma c_str_plain: "(\<And>c. c \<in> set s \<Longrightarrow> \<not> isspace c \<and> c \<noteq> CHR 0x00) \<Longrightarrow> dropWhile isspace (c_str s) = s"
proof -
  assume a: "\<And>c. c \<in> set s \<Longrightarrow> \<not> isspace c \<and> c \<noteq> CHR 0x00"
  then have "c_str s = s" by (simp add: c_str_def takeWhile_eq_all_conv)
  moreover have "dropWhile isspace s = s" using a by (cases s) auto
  ultimately show ?thesis by simp
qed

lemma text58_leading:
  "length (takeWhile (\<lambda>c. c = pszBase58 ! 0) (text58 bs)) = length (takeWhile (\<lambda>x. x = 0) bs)"
proof -
  let ?ds = "digits58 (bytes_val bs)"
  have "takeWhile (\<lambda>c. c = pszBase58 ! 0) (map digit58 ?ds) = []"
  proof (cases ?ds)
    case (Cons d ds)
    then have "bytes_val bs \<noteq> 0" by (metis digits58_0 list.discI)
    with Cons hd_digits58 [of "bytes_val bs"] digits58_bound [of "bytes_val bs"] have "d \<noteq> 0" "d < 58" by auto
    with Cons show ?thesis using digit58_eq [of d 0] by (simp add: digit58_def)
  qed simp
  then show ?thesis by (simp add: text58_def takeWhile_append digit58_def)
qed

lemma DecodeBase58_text:
  assumes "bn_laws bn val"
  shows "DecodeBase58 bn (text58 bs) = Inr (True, bs)"
proof -
  let ?ds = "replicate (length (takeWhile (\<lambda>x. x = 0) bs)) 0 @ digits58 (bytes_val bs)"
  obtain b58 where 1: "CBigNum_int bn 58 = Inr b58" "val b58 = 58" using CBigNum_int_val [OF assms, of 58] by auto
  obtain b0 where 2: "CBigNum_int bn 0 = Inr b0" "val b0 = int 0" using CBigNum_int_val [OF assms, of 0] by auto
  obtain b1 where 3: "CBigNum_new bn = Inr b1" using bn_laws_words(1) [OF assms] by (auto simp: CBigNum_new_def)
  have "\<forall>d\<in>set ?ds. d < 58" using digits58_bound by auto
  from dec58_loop_digits [OF assms 1(2) this 2(2)] obtain r where
    4: "dec58_loop bn b58 b0 (text58 bs) = Inr (Some r)" "val r = int (bytes_val bs)" by (auto simp: text58_def)
  have "replicate (length (takeWhile (\<lambda>x. x = 0) bs)) 0 @ dropWhile (\<lambda>x. x = 0) bs = bs"
    by (metis replicate_takeWhile takeWhile_dropWhile_id)
  then show ?thesis
    using 1 2 3 4 text58_leading trim_sign_getvch [OF assms 4(2)]
    by (simp add: DecodeBase58_def c_str_plain [OF text58_plain] Let_def)
qed

section \<open>The checksum\<close>

abbreviation checksum :: "(bytes \<Rightarrow> bytes) \<Rightarrow> bytes \<Rightarrow> bytes" where
  "checksum SHA256 vch \<equiv> take 4 (uint_bytes (SHA256Hash SHA256 vch))"

lemma length_checksum [simp]: "sha256_laws SHA256 \<Longrightarrow> length (checksum SHA256 vch) = 4"
  by (simp add: sha256_laws_def SHA256Hash_def Let_def)

lemma EncodeBase58Check_text:
  assumes "bn_laws bn val" "sha256_laws SHA256" "length vch < 2 ^ 31 - 5"
  shows "EncodeBase58Check SHA256 bn vch = Some (Inr (text58 (vch @ checksum SHA256 vch)))"
proof -
  let ?v = "vch @ checksum SHA256 vch"
  have l: "length ?v = length vch + 4" using length_checksum [OF assms(2)] by simp
  then have "?v \<noteq> []" by (metis add_is_0 length_0_conv zero_neq_numeral)
  moreover have "length ?v < 2 ^ 31 - 1" using l assms(3) by simp
  ultimately show ?thesis
    using EncodeBase58_text [OF assms(1)] by (simp only: EncodeBase58Check_def EncodeBase58_def if_False)
qed

lemma DecodeBase58Check_text:
  assumes "bn_laws bn val" "sha256_laws SHA256"
  shows "DecodeBase58Check SHA256 bn (text58 (vch @ checksum SHA256 vch)) = Inr (True, vch)"
  using length_checksum [OF assms(2), of vch] DecodeBase58_text [OF assms(1)]
  by (simp add: DecodeBase58Check_def Let_def)

section \<open>The order of versioned data\<close>

lemma vec_less_irrefl [simp]: "\<not> vec_less a a"
  by (induction a) auto

lemma vec_less_Nil [simp]: "vec_less [] b \<longleftrightarrow> b \<noteq> []"
  by (cases b) auto

lemma vec_less_linear: "vec_less a b \<or> a = b \<or> vec_less b a"
  by (induction a b rule: vec_less.induct) auto

lemma vec_less_asym: "vec_less a b \<Longrightarrow> \<not> vec_less b a"
  by (induction a b rule: vec_less.induct) (auto split: if_splits)

lemma vec_less_trans: "vec_less a b \<Longrightarrow> vec_less b c \<Longrightarrow> vec_less a c"
proof (induction a b arbitrary: c rule: vec_less.induct)
  case (2 b bs)
  then show ?case by (cases c) auto
next
  case (3 a as b bs)
  then show ?case by (cases c) (auto split: if_splits)
qed simp

lemma CompareTo_less: "CompareTo a b < 0 \<longleftrightarrow>
    nVersion a < nVersion b \<or> nVersion a = nVersion b \<and> vec_less (vchData a) (vchData b)"
  by (auto simp: CompareTo_def)

lemma CompareTo_range: "CompareTo a b = - 1 \<or> CompareTo a b = 0 \<or> CompareTo a b = 1"
  by (simp add: CompareTo_def)

lemma CompareTo_swap: "CompareTo b a = - CompareTo a b"
  using vec_less_asym by (auto simp: CompareTo_def)

lemma CompareTo_eq_0: "CompareTo a b = 0 \<longleftrightarrow> a = b"
  using vec_less_linear [of "vchData a" "vchData b"] by (cases a; cases b) (auto simp: CompareTo_def)

text \<open>The operators of \<^verbatim>\<open>CBase58Data\<close> as the type's order.\<close>

instantiation CBase58Data :: linorder
begin

definition less_CBase58Data :: "CBase58Data \<Rightarrow> CBase58Data \<Rightarrow> bool" where
  "less_CBase58Data a b = (CompareTo a b < 0)"

definition less_eq_CBase58Data :: "CBase58Data \<Rightarrow> CBase58Data \<Rightarrow> bool" where
  "less_eq_CBase58Data a b = (CompareTo a b \<le> 0)"

instance
proof
  fix a b c :: CBase58Data
  have le: "x \<le> y \<longleftrightarrow> x < y \<or> x = y" for x y :: CBase58Data
    using CompareTo_eq_0 [of x y] by (auto simp: less_CBase58Data_def less_eq_CBase58Data_def)
  have tr: "x < y \<Longrightarrow> y < z \<Longrightarrow> x < z" for x y z :: CBase58Data
    unfolding less_CBase58Data_def CompareTo_less
    using vec_less_trans [of "vchData x" "vchData y" "vchData z"] less_trans [of "nVersion x" "nVersion y" "nVersion z"] by auto
  have lin: "x < y \<or> x = y \<or> y < x" for x y :: CBase58Data
    unfolding less_CBase58Data_def using CompareTo_swap [of x y] CompareTo_eq_0 [of x y] by linarith
  have asym: "x < y \<Longrightarrow> \<not> y < x" for x y :: CBase58Data
    unfolding less_CBase58Data_def using CompareTo_swap [of x y] by linarith
  show "a < b \<longleftrightarrow> a \<le> b \<and> \<not> b \<le> a" using le [of a b] le [of b a] asym [of a b] asym [of a a] by auto
  show "a \<le> a" by (simp add: le)
  show "a \<le> b \<Longrightarrow> b \<le> c \<Longrightarrow> a \<le> c" using le [of a b] le [of b c] le [of a c] tr [of a b c] by auto
  show "a \<le> b \<Longrightarrow> b \<le> a \<Longrightarrow> a = b" using le [of a b] le [of b a] asym [of a b] by auto
  show "a \<le> b \<or> b \<le> a" using le [of a b] le [of b a] lin [of a b] by auto
qed

end

section \<open>Properties\<close>

text \<open>C24: Base 58 is lossless: every non-empty byte string has a text, that text has no white space
  and no NUL, and decoding it gives the bytes back, leading zero bytes included.\<close>

theorem DecodeBase58_EncodeBase58:
  assumes "bn_laws bn val" and "vch \<noteq> []" and "length vch < 2 ^ 31 - 1"
  shows "\<exists>str. EncodeBase58 bn vch = Some (Inr str) \<and> set str \<subseteq> set pszBase58 \<and> DecodeBase58 bn str = Inr (True, vch)"
proof -
  have "set (text58 vch) \<subseteq> set pszBase58"
    using digits58_bound [of "bytes_val vch"] by (auto simp: text58_def digit58_def)
  then show ?thesis
    using assms EncodeBase58_text [OF assms(1,3)] DecodeBase58_text [OF assms(1)] by (simp add: EncodeBase58_def)
qed

theorem DecodeBase58_EncodeBase58_witness:
  "\<exists>str. EncodeBase58 int_bn [0, 1, 2] = Some (Inr str) \<and> DecodeBase58 int_bn str = Inr (True, [0, 1, 2])"
  using DecodeBase58_EncodeBase58 [OF bn_laws_int, of "[0, 1, 2]"] by auto


text \<open>C6: The checksummed form is lossless, and a text is accepted exactly when it decodes to data
  followed by the first four bytes of the data's double SHA-256; then that data is returned, and in
  every other case nothing.\<close>

theorem Base58Check_roundtrip:
  assumes "bn_laws bn val" and "sha256_laws SHA256" and "length vch < 2 ^ 31 - 5"
  shows "(\<exists>str. EncodeBase58Check SHA256 bn vch = Some (Inr str) \<and> DecodeBase58Check SHA256 bn str = Inr (True, vch))
    \<and> (DecodeBase58Check SHA256 bn any = Inr (ok, v) \<longrightarrow>
         (if ok then DecodeBase58 bn any = Inr (True, v @ take 4 (uint_bytes (SHA256Hash SHA256 v))) else v = []))"
proof (intro conjI impI)
  show "\<exists>str. EncodeBase58Check SHA256 bn vch = Some (Inr str) \<and> DecodeBase58Check SHA256 bn str = Inr (True, vch)"
    using EncodeBase58Check_text [OF assms] DecodeBase58Check_text [OF assms(1,2)] by blast
  assume d: "DecodeBase58Check SHA256 bn any = Inr (ok, v)"
  obtain ok' w where w: "DecodeBase58 bn any = Inr (ok', w)"
    using d by (auto simp: DecodeBase58Check_def ebind_eq_Inr)
  have e: "w = []" if "\<not> ok'"
    using w that by (auto simp: DecodeBase58_def Let_def ebind_eq_Inr split: option.splits)
  show "if ok then DecodeBase58 bn any = Inr (True, v @ take 4 (uint_bytes (SHA256Hash SHA256 v))) else v = []"
  proof (cases ok)
    case True
    with d w e have "v = take (length w - 4) w" "checksum SHA256 v = drop (length w - 4) w" "ok'"
      by (auto simp: DecodeBase58Check_def Let_def split: if_splits)
    then show ?thesis using True w by simp
  next
    case False
    with d w e show ?thesis by (auto simp: DecodeBase58Check_def Let_def split: if_splits)
  qed
qed

theorem Base58Check_roundtrip_witness:
  "(\<exists>str. EncodeBase58Check (\<lambda>bs. replicate 32 7) int_bn [1, 2] = Some (Inr str)
      \<and> DecodeBase58Check (\<lambda>bs. replicate 32 7) int_bn str = Inr (True, [1, 2]))"
  using Base58Check_roundtrip [OF bn_laws_int, of "\<lambda>bs. replicate 32 7" "[1, 2]"] by (simp add: sha256_laws_def)

text \<open>\<^verbatim>\<open>SetString\<close> reads back what \<^verbatim>\<open>ToString\<close> prints when it is asked for the same
  version, whatever the object held before; asked for another version it refuses and leaves the
  object in its initial state.\<close>

theorem SetString_ToString:
  assumes "bn_laws bn val" and "sha256_laws SHA256" and "length (vchData d) < 2 ^ 31 - 6"
  shows "\<exists>str. ToString SHA256 bn d = Some (Inr str)
    \<and> SetString SHA256 bn str version old = (if version = nVersion d then (Inr True, d) else (Inr False, CBase58Data_new))"
proof -
  have l: "length (nVersion d # vchData d) < 2 ^ 31 - 5" using assms(3) by simp
  show ?thesis
    using EncodeBase58Check_text [OF assms(1,2) l] DecodeBase58Check_text [OF assms(1,2), of "nVersion d # vchData d"]
    by (simp add: ToString_def SetString_def CBase58Data_new_def)
qed

theorem SetString_ToString_witness:
  "\<exists>str. ToString (\<lambda>bs. replicate 32 7) int_bn (CBase58Data 28 [5]) = Some (Inr str)
    \<and> SetString (\<lambda>bs. replicate 32 7) int_bn str 28 CBase58Data_new = (Inr True, CBase58Data 28 [5])"
  using SetString_ToString [OF bn_laws_int, of "\<lambda>bs. replicate 32 7" "CBase58Data 28 [5]" 28 CBase58Data_new]
  by (simp add: sha256_laws_def)

text \<open>C37: \<^verbatim>\<open>CompareTo\<close> is a three-way comparison of a total order in which equal means equal in
  version and data, so that addresses can be keys of ordered containers.\<close>

theorem CompareTo_order:
  "CompareTo a b \<in> {- 1, 0, 1} \<and> CompareTo b a = - CompareTo a b \<and> (CompareTo a b = 0 \<longleftrightarrow> a = b)
    \<and> (CompareTo a b < 0 \<and> CompareTo b c < 0 \<longrightarrow> CompareTo a c < 0)
    \<and> (CompareTo a b < 0 \<longleftrightarrow> a < b)"
  using CompareTo_range [of a b] CompareTo_swap [of b a] CompareTo_eq_0 [of a b] less_trans [of a b c]
  unfolding less_CBase58Data_def by blast

theorem CompareTo_order_witness:
  "CompareTo (CBase58Data 0 [9]) (CBase58Data 28 []) < 0 \<and> CompareTo (CBase58Data 28 []) (CBase58Data 28 [1]) < 0
    \<and> CompareTo (CBase58Data 0 [9]) (CBase58Data 28 [1]) < 0"
  using CompareTo_order [of "CBase58Data 0 [9]" "CBase58Data 28 []" "CBase58Data 28 [1]"] by (simp add: CompareTo_def)

end
