(* ===== verification/NewcoinAddress.thy ===== *)
theory NewcoinAddress
  imports Base58 Key Rfc1751
begin

text \<open>
  \<^verbatim>\<open>src/NewcoinAddress/NewcoinAddress.cpp\<close>: an address is versioned data, and its version
  says what the data is: a node key, an account, a key family or a seed. Every accessor is guarded by
  the version. OpenSSL, the digests and the functions that \<^verbatim>\<open>key.h\<close> declares but whose bodies
  are commented out (\<^verbatim>\<open>PassPhraseToKey\<close>, the deterministic keys, ECIES) are the fields of
  \<open>address_env\<close>, a parameter of the operations. The lines on \<^verbatim>\<open>std::cerr\<close> are not modelled.
\<close>

section \<open>Definitions\<close>

type_synonym address = CBase58Data

definition VER_NONE :: byte where "VER_NONE = 1"
definition VER_NODE_PUBLIC :: byte where "VER_NODE_PUBLIC = 28"
definition VER_NODE_PRIVATE :: byte where "VER_NODE_PRIVATE = 32"
definition VER_ACCOUNT_ID :: byte where "VER_ACCOUNT_ID = 0"
definition VER_ACCOUNT_PUBLIC :: byte where "VER_ACCOUNT_PUBLIC = 35"
definition VER_ACCOUNT_PRIVATE :: byte where "VER_ACCOUNT_PRIVATE = 34"
definition VER_FAMILY_GENERATOR :: byte where "VER_FAMILY_GENERATOR = 41"
definition VER_FAMILY_SEED :: byte where "VER_FAMILY_SEED = 33"

lemmas ver_defs = VER_NONE_def VER_NODE_PUBLIC_def VER_NODE_PRIVATE_def VER_ACCOUNT_ID_def
  VER_ACCOUNT_PUBLIC_def VER_ACCOUNT_PRIVATE_def VER_FAMILY_GENERATOR_def VER_FAMILY_SEED_def

record ('k, 'b) address_env =
  env_ec :: "'k openssl_ec"
  env_bn :: "'b bn_ops"
  SHA256 :: "bytes \<Rightarrow> bytes"
  RIPEMD160 :: "bytes \<Rightarrow> bytes"
  PassPhraseToKey :: "string \<Rightarrow> base_uint"
  GenerateRootDeterministicKey :: "base_uint \<Rightarrow> 'k option"
  GeneratePublicDeterministicKey :: "address \<Rightarrow> int \<Rightarrow> 'k option"
  GeneratePrivateDeterministicKey :: "address \<Rightarrow> bytes option \<Rightarrow> int \<Rightarrow> 'k option"
  encryptECIES :: "'k CKey \<Rightarrow> 'k CKey \<Rightarrow> bytes \<Rightarrow> bytes result"
  decryptECIES :: "'k CKey \<Rightarrow> 'k CKey \<Rightarrow> bytes \<Rightarrow> bytes result"
  BN_bin2bn :: "bytes \<Rightarrow> 'b option"
  stack_memory :: "nat \<Rightarrow> byte"

text \<open>\<^verbatim>\<open>boost::format\<close> of an \<^verbatim>\<open>int\<close> that is not negative.\<close>

fun decimal :: "nat \<Rightarrow> string" where
  "decimal n = (if n < 10 then [char_of (48 + n)] else decimal (n div 10) @ [char_of (48 + n mod 10)])"

declare decimal.simps [simp del]

text \<open>The arms that every switch over the version ends with.\<close>

definition source_error :: "address \<Rightarrow> exn" where
  "source_error d = (if nVersion d = VER_NONE then Runtime_error ''unset source''
     else Runtime_error (''bad source: '' @ decimal (unat (nVersion d))))"

definition na_ToString :: "('k, 'b) address_env \<Rightarrow> address \<Rightarrow> string result option" where
  "na_ToString E d = ToString (SHA256 E) (env_bn E) d"

definition na_SetString :: "('k, 'b) address_env \<Rightarrow> string \<Rightarrow> byte \<Rightarrow> (address, bool) action" where
  "na_SetString E str version d = SetString (SHA256 E) (env_bn E) (c_str str) version d"

definition NewcoinAddress_new :: address where
  "NewcoinAddress_new = CBase58Data VER_NONE []"

definition na_clear :: "address \<Rightarrow> address" where
  "na_clear d = CBase58Data VER_NONE []"

text \<open>\<^verbatim>\<open>CKey\<close> of a seed, and the deterministic keys of a family.\<close>

definition CKey_of_seed :: "('k, 'b) address_env \<Rightarrow> base_uint \<Rightarrow> 'k CKey result" where
  "CKey_of_seed E passPhrase = (case GenerateRootDeterministicKey E passPhrase of
     None \<Rightarrow> Inl Assert_failed | Some k \<Rightarrow> Inr \<lparr>pkey = Some k, fSet = True\<rparr>)"

definition CKey_of_generator :: "('k, 'b) address_env \<Rightarrow> address \<Rightarrow> int \<Rightarrow> 'k CKey result" where
  "CKey_of_generator E generator n = (case GeneratePublicDeterministicKey E generator n of
     None \<Rightarrow> Inl Assert_failed | Some k \<Rightarrow> Inr \<lparr>pkey = Some k, fSet = True\<rparr>)"

definition CKey_of_family :: "('k, 'b) address_env \<Rightarrow> address \<Rightarrow> bytes option \<Rightarrow> int \<Rightarrow> 'k CKey result" where
  "CKey_of_family E base rootPrivKey n = (case GeneratePrivateDeterministicKey E base rootPrivKey n of
     None \<Rightarrow> Inl Assert_failed | Some k \<Rightarrow> Inr \<lparr>pkey = Some k, fSet = True\<rparr>)"

text \<open>\<^verbatim>\<open>BN_dup\<close> of a missing number is a missing number.\<close>

definition GetSecretBN :: "'k openssl_ec \<Rightarrow> 'k CKey \<Rightarrow> bytes option result" where
  "GetSecretBN os ck = (case pkey ck of
     None \<Rightarrow> Inl Undefined_behaviour | Some k \<Rightarrow> Inr (EC_KEY_get0_private_key os k))"

subsection \<open>Node public keys\<close>

definition getNodeID :: "('k, 'b) address_env \<Rightarrow> address \<Rightarrow> base_uint result" where
  "getNodeID E d = (if nVersion d = VER_NODE_PUBLIC then Hash160 (SHA256 E) (RIPEMD160 E) (vchData d)
     else Inl (source_error d))"

definition getNodePublic :: "address \<Rightarrow> bytes result" where
  "getNodePublic d = (if nVersion d = VER_NODE_PUBLIC then Inr (vchData d) else Inl (source_error d))"

definition humanNodePublic :: "('k, 'b) address_env \<Rightarrow> address \<Rightarrow> string result option" where
  "humanNodePublic E d = (if nVersion d = VER_NODE_PUBLIC then na_ToString E d else Some (Inl (source_error d)))"

definition setNodePublic :: "('k, 'b) address_env \<Rightarrow> string \<Rightarrow> (address, bool) action" where
  "setNodePublic E strPublic = na_SetString E strPublic VER_NODE_PUBLIC"

definition setNodePublic_vch :: "bytes \<Rightarrow> address \<Rightarrow> address" where
  "setNodePublic_vch vPublic d = SetData (uint VER_NODE_PUBLIC) vPublic d"

definition verifyNodePublic :: "('k, 'b) address_env \<Rightarrow> base_uint \<Rightarrow> bytes \<Rightarrow> address \<Rightarrow> bool result" where
  "verifyNodePublic E hash vchSig d =
     ebind (CKey_new (env_ec E)) (\<lambda>tmp. ebind (getNodePublic d) (\<lambda>pub.
     case SetPubKey (env_ec E) pub tmp of
       (Inl e, _) \<Rightarrow> Inl e
     | (Inr False, _) \<Rightarrow> Inr False
     | (Inr True, pubkey) \<Rightarrow> Verify (env_ec E) pubkey hash vchSig))"

definition verifyNodePublic_str :: "('k, 'b) address_env \<Rightarrow> base_uint \<Rightarrow> string \<Rightarrow> address \<Rightarrow> bool result" where
  "verifyNodePublic_str E hash strSig d = verifyNodePublic E hash (map of_char strSig) d"

subsection \<open>Seeds, first part\<close>

definition getSeed :: "address \<Rightarrow> base_uint result" where
  "getSeed d = (if nVersion d = VER_FAMILY_SEED then Inr (uint128_of_vch (vchData d)) else Inl (source_error d))"

definition createNodePublic :: "('k, 'b) address_env \<Rightarrow> address \<Rightarrow> address result" where
  "createNodePublic E naSeed = ebind (getSeed naSeed) (\<lambda>seed. ebind (CKey_of_seed E seed) (\<lambda>ckSeed.
     ebind (GetPubKey (env_ec E) ckSeed) (\<lambda>pub. Inr (setNodePublic_vch pub NewcoinAddress_new))))"

definition createNodePublic_vch :: "bytes \<Rightarrow> address" where
  "createNodePublic_vch vPublic = setNodePublic_vch vPublic NewcoinAddress_new"

subsection \<open>Node private keys\<close>

definition getNodePrivateData :: "address \<Rightarrow> bytes result" where
  "getNodePrivateData d = (if nVersion d = VER_NODE_PRIVATE then Inr (vchData d) else Inl (source_error d))"

definition getNodePrivate :: "address \<Rightarrow> base_uint result" where
  "getNodePrivate d = (if nVersion d = VER_NODE_PRIVATE then uint256_of_vch (vchData d) else Inl (source_error d))"

definition humanNodePrivate :: "('k, 'b) address_env \<Rightarrow> address \<Rightarrow> string result option" where
  "humanNodePrivate E d = (if nVersion d = VER_NODE_PRIVATE then na_ToString E d else Some (Inl (source_error d)))"

definition setNodePrivate :: "('k, 'b) address_env \<Rightarrow> string \<Rightarrow> (address, bool) action" where
  "setNodePrivate E strPrivate = na_SetString E strPrivate VER_NODE_PRIVATE"

definition setNodePrivate_vch :: "bytes \<Rightarrow> address \<Rightarrow> address" where
  "setNodePrivate_vch vPrivate d = SetData (uint VER_NODE_PRIVATE) vPrivate d"

definition setNodePrivate_uint :: "base_uint \<Rightarrow> address \<Rightarrow> address" where
  "setNodePrivate_uint hash256 d = SetData (uint VER_NODE_PRIVATE) (take 32 (uint_bytes hash256)) d"

definition createNodePrivate :: "('k, 'b) address_env \<Rightarrow> address \<Rightarrow> address result" where
  "createNodePrivate E naSeed = ebind (getSeed naSeed) (\<lambda>seed. ebind (CKey_of_seed E seed) (\<lambda>ckSeed.
     ebind (GetPrivateKeyU (env_ec E) ckSeed) (\<lambda>uPrivKey. Inr (setNodePrivate_uint uPrivKey NewcoinAddress_new))))"

text \<open>The result of \<^verbatim>\<open>SetPrivateKeyU\<close> is not looked at.\<close>

definition signNodePrivate :: "('k, 'b) address_env \<Rightarrow> base_uint \<Rightarrow> address \<Rightarrow> bytes result" where
  "signNodePrivate E hash d =
     ebind (CKey_new (env_ec E)) (\<lambda>ck. ebind (getNodePrivate d) (\<lambda>priv.
     case SetPrivateKeyU (env_ec E) priv False ck of
       (Inl e, _) \<Rightarrow> Inl e
     | (Inr _, ckPrivKey) \<Rightarrow> ebind (Sign (env_ec E) ckPrivKey hash) (\<lambda>s. case s of
           None \<Rightarrow> Inl (Runtime_error ''Signing failed.'')
         | Some vchSig \<Rightarrow> Inr vchSig)))"

subsection \<open>Accounts\<close>

definition getAccountID :: "('k, 'b) address_env \<Rightarrow> address \<Rightarrow> base_uint result" where
  "getAccountID E d =
     (if nVersion d = VER_ACCOUNT_ID then Inr (uint160_of_vch (vchData d))
      else if nVersion d = VER_ACCOUNT_PUBLIC then Hash160 (SHA256 E) (RIPEMD160 E) (vchData d)
      else Inl (source_error d))"

definition setAccountID :: "('k, 'b) address_env \<Rightarrow> string \<Rightarrow> (address, bool) action" where
  "setAccountID E strAccountID = na_SetString E strAccountID VER_ACCOUNT_ID"

definition setAccountID_uint :: "base_uint \<Rightarrow> address \<Rightarrow> address" where
  "setAccountID_uint hash160 d = SetData (uint VER_ACCOUNT_ID) (take 20 (uint_bytes hash160)) d"

definition humanAccountID :: "('k, 'b) address_env \<Rightarrow> address \<Rightarrow> string result option" where
  "humanAccountID E d =
     (if nVersion d = VER_ACCOUNT_ID then na_ToString E d
      else if nVersion d = VER_ACCOUNT_PUBLIC then
        (case getAccountID E d of
           Inl e \<Rightarrow> Some (Inl e)
         | Inr i \<Rightarrow> na_ToString E (setAccountID_uint i NewcoinAddress_new))
      else Some (Inl (source_error d)))"

definition createAccountID :: "base_uint \<Rightarrow> address" where
  "createAccountID uiAccountID = setAccountID_uint uiAccountID NewcoinAddress_new"

definition public_error :: "address \<Rightarrow> exn" where
  "public_error d = (if nVersion d = VER_ACCOUNT_ID then Runtime_error ''public not available from account id''
     else source_error d)"

definition getAccountPublic :: "address \<Rightarrow> bytes result" where
  "getAccountPublic d = (if nVersion d = VER_ACCOUNT_PUBLIC then Inr (vchData d) else Inl (public_error d))"

definition humanAccountPublic :: "('k, 'b) address_env \<Rightarrow> address \<Rightarrow> string result option" where
  "humanAccountPublic E d =
     (if nVersion d = VER_ACCOUNT_PUBLIC then na_ToString E d else Some (Inl (public_error d)))"

definition setAccountPublic :: "('k, 'b) address_env \<Rightarrow> string \<Rightarrow> (address, bool) action" where
  "setAccountPublic E strPublic = na_SetString E strPublic VER_ACCOUNT_PUBLIC"

definition setAccountPublic_vch :: "bytes \<Rightarrow> address \<Rightarrow> address" where
  "setAccountPublic_vch vPublic d = SetData (uint VER_ACCOUNT_PUBLIC) vPublic d"

text \<open>\<^verbatim>\<open>CKey pubkey = CKey(generator, seq)\<close> constructs in place.\<close>

definition setAccountPublic_gen :: "('k, 'b) address_env \<Rightarrow> address \<Rightarrow> int \<Rightarrow> (address, unit) action" where
  "setAccountPublic_gen E generator sq d =
     (case ebind (CKey_of_generator E generator sq) (GetPubKey (env_ec E)) of
        Inl e \<Rightarrow> (Inl e, d)
      | Inr pub \<Rightarrow> (Inr (), setAccountPublic_vch pub d))"

definition createAccountPublic :: "('k, 'b) address_env \<Rightarrow> address \<Rightarrow> int \<Rightarrow> address result" where
  "createAccountPublic E naGenerator iSeq = ebind (CKey_of_generator E naGenerator iSeq) (\<lambda>ckPub.
     ebind (GetPubKey (env_ec E) ckPub) (\<lambda>pub. Inr (setAccountPublic_vch pub NewcoinAddress_new)))"

definition accountPublicVerify :: "('k, 'b) address_env \<Rightarrow> base_uint \<Rightarrow> bytes \<Rightarrow> address \<Rightarrow> bool result" where
  "accountPublicVerify E uHash vucSig d =
     ebind (CKey_new (env_ec E)) (\<lambda>ck. ebind (getAccountPublic d) (\<lambda>pub.
     case SetPubKey (env_ec E) pub ck of
       (Inl e, _) \<Rightarrow> Inl e
     | (Inr False, _) \<Rightarrow> Inr False
     | (Inr True, ckPublic) \<Rightarrow> Verify (env_ec E) ckPublic uHash vucSig))"

definition getAccountPrivate :: "address \<Rightarrow> base_uint result" where
  "getAccountPrivate d = (if nVersion d = VER_ACCOUNT_PRIVATE then uint256_of_vch (vchData d) else Inl (source_error d))"

definition humanAccountPrivate :: "('k, 'b) address_env \<Rightarrow> address \<Rightarrow> string result option" where
  "humanAccountPrivate E d =
     (if nVersion d = VER_ACCOUNT_PRIVATE then na_ToString E d else Some (Inl (source_error d)))"

definition setAccountPrivate :: "('k, 'b) address_env \<Rightarrow> string \<Rightarrow> (address, bool) action" where
  "setAccountPrivate E strPrivate = na_SetString E strPrivate VER_ACCOUNT_PRIVATE"

definition setAccountPrivate_vch :: "bytes \<Rightarrow> address \<Rightarrow> address" where
  "setAccountPrivate_vch vPrivate d = SetData (uint VER_ACCOUNT_PRIVATE) vPrivate d"

definition setAccountPrivate_uint :: "base_uint \<Rightarrow> address \<Rightarrow> address" where
  "setAccountPrivate_uint hash256 d = SetData (uint VER_ACCOUNT_PRIVATE) (take 32 (uint_bytes hash256)) d"

definition setAccountPrivate_gen ::
  "('k, 'b) address_env \<Rightarrow> address \<Rightarrow> address \<Rightarrow> int \<Rightarrow> (address, unit) action" where
  "setAccountPrivate_gen E naGenerator naSeed sq d =
     (case ebind (getSeed naSeed) (\<lambda>seed. ebind (CKey_of_seed E seed) (\<lambda>ckPubkey.
           ebind (GetSecretBN (env_ec E) ckPubkey) (\<lambda>root.
           ebind (CKey_of_family E naGenerator root sq) (GetPrivateKeyU (env_ec E))))) of
        Inl e \<Rightarrow> (Inl e, d)
      | Inr uPrivKey \<Rightarrow> (Inr (), setAccountPrivate_uint uPrivKey d))"

definition createAccountPrivate :: "('k, 'b) address_env \<Rightarrow> address \<Rightarrow> address \<Rightarrow> int \<Rightarrow> address result" where
  "createAccountPrivate E naGenerator naSeed iSeq =
     (case setAccountPrivate_gen E naGenerator naSeed iSeq NewcoinAddress_new of
        (Inl e, _) \<Rightarrow> Inl e | (Inr _, naNew) \<Rightarrow> Inr naNew)"

text \<open>The signature when there is one.\<close>

definition accountPrivateSign :: "('k, 'b) address_env \<Rightarrow> base_uint \<Rightarrow> address \<Rightarrow> bytes option result" where
  "accountPrivateSign E uHash d =
     ebind (CKey_new (env_ec E)) (\<lambda>ck. ebind (getAccountPrivate d) (\<lambda>priv.
     case SetPrivateKeyU (env_ec E) priv False ck of
       (Inl e, _) \<Rightarrow> Inl e
     | (Inr False, _) \<Rightarrow> Inr None
     | (Inr True, ckPrivate) \<Rightarrow> Sign (env_ec E) ckPrivate uHash))"

text \<open>\<^verbatim>\<open>accountPrivateEncrypt\<close> and \<^verbatim>\<open>accountPrivateDecrypt\<close> differ in the call they guard.\<close>

definition with_key_pair ::
  "('k, 'b) address_env \<Rightarrow> ('k CKey \<Rightarrow> 'k CKey \<Rightarrow> bytes \<Rightarrow> bytes result) \<Rightarrow> address \<Rightarrow> bytes \<Rightarrow> address \<Rightarrow> bytes result" where
  "with_key_pair E crypt naPublic vuc d =
     ebind (CKey_new (env_ec E)) (\<lambda>ck1. ebind (CKey_new (env_ec E)) (\<lambda>ck2.
     ebind (getAccountPublic naPublic) (\<lambda>pub.
     case SetPubKey (env_ec E) pub ck2 of
       (Inl e, _) \<Rightarrow> Inl e
     | (Inr False, _) \<Rightarrow> Inr []
     | (Inr True, ckPublic) \<Rightarrow>
         ebind (getAccountPrivate d) (\<lambda>priv.
         case SetPrivateKeyU (env_ec E) priv False ck1 of
           (Inl e, _) \<Rightarrow> Inl e
         | (Inr False, _) \<Rightarrow> Inr []
         | (Inr True, ckPrivate) \<Rightarrow> catch_all (crypt ckPrivate ckPublic vuc) (Inr [])))))"

definition accountPrivateEncrypt :: "('k, 'b) address_env \<Rightarrow> address \<Rightarrow> bytes \<Rightarrow> address \<Rightarrow> bytes result" where
  "accountPrivateEncrypt E naPublicTo vucPlainText d = with_key_pair E (encryptECIES E) naPublicTo vucPlainText d"

definition accountPrivateDecrypt :: "('k, 'b) address_env \<Rightarrow> address \<Rightarrow> bytes \<Rightarrow> address \<Rightarrow> bytes result" where
  "accountPrivateDecrypt E naPublicFrom vucCipherText d =
     with_key_pair E (decryptECIES E) naPublicFrom vucCipherText d"

definition isValid :: "('k, 'b) address_env \<Rightarrow> address \<Rightarrow> bool result" where
  "isValid E d =
     (if vchData d = [] then Inr False
      else ebind (CKey_new (env_ec E)) (\<lambda>key.
        if nVersion d = VER_NODE_PUBLIC then
          ebind (getNodePublic d) (\<lambda>pub. fst (SetPubKey (env_ec E) pub key))
        else if nVersion d = VER_ACCOUNT_PUBLIC then
          ebind (getAccountPublic d) (\<lambda>pub. fst (SetPubKey (env_ec E) pub key))
        else if nVersion d = VER_ACCOUNT_PRIVATE then
          ebind (getAccountPrivate d) (\<lambda>priv. fst (SetPrivateKeyU (env_ec E) priv False key))
        else Inr True))"

subsection \<open>Generators\<close>

text \<open>\<^verbatim>\<open>&vchData[0]\<close> of an empty vector is undefined.\<close>

definition getGeneratorBN :: "('k, 'b) address_env \<Rightarrow> address \<Rightarrow> 'b result" where
  "getGeneratorBN E d =
     (if nVersion d = VER_FAMILY_GENERATOR then
        (if vchData d = [] then Inl Undefined_behaviour
         else case BN_bin2bn E (vchData d) of None \<Rightarrow> Inl Assert_failed | Some ret \<Rightarrow> Inr ret)
      else Inl (source_error d))"

definition getGenerator :: "address \<Rightarrow> bytes result" where
  "getGenerator d = (if nVersion d = VER_FAMILY_GENERATOR then Inr (vchData d) else Inl (source_error d))"

definition humanGenerator :: "('k, 'b) address_env \<Rightarrow> address \<Rightarrow> string result option" where
  "humanGenerator E d =
     (if nVersion d = VER_FAMILY_GENERATOR then na_ToString E d else Some (Inl (source_error d)))"

definition setGenerator :: "('k, 'b) address_env \<Rightarrow> string \<Rightarrow> (address, bool) action" where
  "setGenerator E strGenerator = na_SetString E strGenerator VER_FAMILY_GENERATOR"

definition setGenerator_vch :: "bytes \<Rightarrow> address \<Rightarrow> address" where
  "setGenerator_vch vPublic d = SetData (uint VER_FAMILY_GENERATOR) vPublic d"

definition createGeneratorPublic :: "('k, 'b) address_env \<Rightarrow> address \<Rightarrow> address result" where
  "createGeneratorPublic E naSeed = ebind (getSeed naSeed) (\<lambda>seed. ebind (CKey_of_seed E seed) (\<lambda>ckSeed.
     ebind (GetPubKey (env_ec E) ckSeed) (\<lambda>pub. Inr (setGenerator_vch pub NewcoinAddress_new))))"

subsection \<open>Seeds\<close>

definition humanSeed1751 :: "('k, 'b) address_env \<Rightarrow> address \<Rightarrow> string result" where
  "humanSeed1751 E d =
     (if nVersion d = VER_FAMILY_SEED then
        ebind (getSeed d) (\<lambda>uSeed.
        let strLittle = uint_bytes uSeed; strBig = rev strLittle in key2eng (stack_memory E) strBig)
      else Inl (source_error d))"

definition humanSeed :: "('k, 'b) address_env \<Rightarrow> address \<Rightarrow> string result option" where
  "humanSeed E d = (if nVersion d = VER_FAMILY_SEED then na_ToString E d else Some (Inl (source_error d)))"

definition setSeed_uint :: "base_uint \<Rightarrow> address \<Rightarrow> address" where
  "setSeed_uint hash128 d = SetData (uint VER_FAMILY_SEED) (take 16 (uint_bytes hash128)) d"

definition setSeed :: "('k, 'b) address_env \<Rightarrow> string \<Rightarrow> (address, bool) action" where
  "setSeed E strSeed = na_SetString E strSeed VER_FAMILY_SEED"

text \<open>\<open>None\<close> when the word search does not return.\<close>

definition setSeed1751 :: "('k, 'b) address_env \<Rightarrow> string \<Rightarrow> address \<Rightarrow> (int result \<times> address) option" where
  "setSeed1751 E strHuman1751 d =
     map_option (\<lambda>r. case r of
         Inl e \<Rightarrow> (Inl e, d)
       | Inr (iResult, strKey) \<Rightarrow>
           (Inr iResult,
            if iResult = 1 then (let vchLittle = rev strKey; uSeed = uint128_of_vch vchLittle in setSeed_uint uSeed d)
            else d))
       (eng2key (stack_memory E) [] strHuman1751)"

text \<open>\<^verbatim>\<open>a || b\<close> over setters of one temporary.\<close>

fun any_set :: "(address, bool) action list \<Rightarrow> (address, bool) action" where
  "any_set [] d = (Inr False, d)"
| "any_set (f # fs) d = (case f d of
     (Inl e, d') \<Rightarrow> (Inl e, d')
   | (Inr True, d') \<Rightarrow> (Inr True, d')
   | (Inr False, d') \<Rightarrow> any_set fs d')"

definition setSeedGeneric :: "('k, 'b) address_env \<Rightarrow> string \<Rightarrow> address \<Rightarrow> (bool result \<times> address) option" where
  "setSeedGeneric E strText d =
     (if strText = [] then Some (Inr False, d)
      else case fst (any_set [setAccountID E strText, setAccountPublic E strText, setAccountPrivate E strText,
             setNodePublic E strText, setNodePrivate E strText] NewcoinAddress_new) of
          Inl e \<Rightarrow> Some (Inl e, d)
        | Inr True \<Rightarrow> Some (Inr False, d)
        | Inr False \<Rightarrow>
            (case setSeed E strText d of
               (Inl e, d1) \<Rightarrow> Some (Inl e, d1)
             | (Inr True, d1) \<Rightarrow> Some (Inr True, d1)
             | (Inr False, d1) \<Rightarrow>
                 Option.bind (setSeed1751 E strText d1) (\<lambda>r. case r of
                     (Inl e, d2) \<Rightarrow> Some (Inl e, d2)
                   | (Inr iResult, d2) \<Rightarrow>
                       if iResult = 1 then Some (Inr True, d2)
                       else Some (Inr True, setSeed_uint (PassPhraseToKey E strText) d2))))"

text \<open>\<open>rnd\<close> is what \<^verbatim>\<open>RAND_bytes\<close> leaves in the buffer.\<close>

definition setSeedRandom :: "bytes \<Rightarrow> address \<Rightarrow> address" where
  "setSeedRandom rnd d = setSeed_uint (of_uint_bytes rnd) d"

definition createSeedRandom :: "bytes \<Rightarrow> address" where
  "createSeedRandom rnd = setSeedRandom rnd NewcoinAddress_new"

definition createSeedGeneric :: "('k, 'b) address_env \<Rightarrow> string \<Rightarrow> address result option" where
  "createSeedGeneric E strText = map_option (\<lambda>r. case r of (Inl e, _) \<Rightarrow> Inl e | (Inr _, naNew) \<Rightarrow> Inr naNew)
     (setSeedGeneric E strText NewcoinAddress_new)"


lemma source_error_runtime: "\<exists>m. source_error d = Runtime_error m"
  by (simp add: source_error_def)

lemma public_error_runtime: "\<exists>m. public_error d = Runtime_error m"
  using source_error_runtime [of d] by (simp add: public_error_def)

section \<open>Text forms\<close>

text \<open>The contract of \<^verbatim>\<open>ToString\<close> and \<^verbatim>\<open>SetString\<close> that the address kinds rely on.\<close>

locale text_form =
  fixes to_text :: "address \<Rightarrow> string result option"
    and of_text :: "string \<Rightarrow> byte \<Rightarrow> (address, bool) action"
    and printable :: "address \<Rightarrow> bool"
  assumes prints: "printable d \<Longrightarrow> \<exists>str. to_text d = Some (Inr str)"
    and reads: "printable d \<Longrightarrow> to_text d = Some (Inr str) \<Longrightarrow>
      of_text str v old = (if v = nVersion d then (Inr True, d) else (Inr False, NewcoinAddress_new))"

text \<open>An address kind: a version, the accessor that prints addresses of the kind and the setter that
  reads them.\<close>

locale address_kind = text_form +
  fixes version :: byte
    and human :: "address \<Rightarrow> string result option"
    and set_human :: "string \<Rightarrow> (address, bool) action"
  assumes human_own: "nVersion d = version \<Longrightarrow> human d = to_text d"
    and set_human: "set_human str old = of_text str version old"
begin

lemma human_round_trip:
  "printable d \<Longrightarrow> nVersion d = version \<Longrightarrow> \<exists>str. human d = Some (Inr str) \<and> set_human str old = (Inr True, d)"
  using prints [of d] by (auto simp: human_own set_human reads)

lemma set_human_text:
  "printable d \<Longrightarrow> to_text d = Some (Inr str) \<Longrightarrow>
     set_human str old = (if nVersion d = version then (Inr True, d) else (Inr False, NewcoinAddress_new))"
  by (auto simp: set_human reads)

end

text \<open>What the address code relies on: the laws of the big numbers, digests of the documented length,
  and data short enough for the text form.\<close>

definition env_laws :: "('k, 'b) address_env \<Rightarrow> bool" where
  "env_laws E \<longleftrightarrow> (\<exists>val. bn_laws (env_bn E) val) \<and> sha256_laws (SHA256 E) \<and> (\<forall>bs. length (RIPEMD160 E bs) = 20)"

definition short_data :: "address \<Rightarrow> bool" where
  "short_data d \<longleftrightarrow> length (vchData d) < 2147483642"

lemma c_str_text58: "c_str (text58 bs) = text58 bs"
  using text58_plain [of _ bs] by (auto simp: c_str_def takeWhile_eq_all_conv)

lemma na_ToString_text:
  assumes "env_laws E" "short_data d"
  shows "na_ToString E d = Some (Inr (text58 ((nVersion d # vchData d) @ checksum (SHA256 E) (nVersion d # vchData d))))"
proof -
  obtain val where "bn_laws (env_bn E) val" using assms(1) by (auto simp: env_laws_def)
  moreover have "length (nVersion d # vchData d) < 2 ^ 31 - 5" using assms(2) by (simp add: short_data_def)
  moreover have "sha256_laws (SHA256 E)" using assms(1) by (simp add: env_laws_def)
  ultimately show ?thesis
    using EncodeBase58Check_text by (simp only: na_ToString_def ToString_def)
qed

lemma na_SetString_text:
  assumes "env_laws E" "na_ToString E d = Some (Inr str)" "short_data d"
  shows "na_SetString E str v old = (if v = nVersion d then (Inr True, d) else (Inr False, NewcoinAddress_new))"
proof -
  obtain val where val: "bn_laws (env_bn E) val" using assms(1) by (auto simp: env_laws_def)
  have str: "str = text58 ((nVersion d # vchData d) @ checksum (SHA256 E) (nVersion d # vchData d))"
    using na_ToString_text [OF assms(1,3)] assms(2) by simp
  then have "DecodeBase58Check (SHA256 E) (env_bn E) (c_str str) = Inr (True, nVersion d # vchData d)"
    using DecodeBase58Check_text [OF val, of "SHA256 E"] assms(1) by (simp only: c_str_text58 env_laws_def)
  then show ?thesis by (simp add: na_SetString_def SetString_def NewcoinAddress_new_def VER_NONE_def)
qed

text \<open>Printing an address always returns: the digit loop ends for every number.\<close>

lemma na_ToString_returns:
  assumes "env_laws E"
  shows "\<exists>r. na_ToString E d = Some r"
proof -
  obtain val where bn: "bn_laws (env_bn E) val" using assms by (auto simp: env_laws_def)
  obtain b58 where 1: "CBigNum_int (env_bn E) 58 = Inr b58" "val b58 = 58" using CBigNum_int_val [OF bn, of 58] by auto
  obtain b0 where 2: "CBigNum_int (env_bn E) 0 = Inr b0" "val b0 = 0" using CBigNum_int_val [OF bn, of 0] by auto
  have "\<exists>r. enc58_loop (env_bn E) b58 b0 b [] = Some r" for b
  proof (cases "val b \<le> 0")
    case True
    then show ?thesis using 2 bn_laws_words(5) [OF bn, of b b0] by (subst enc58_loop.simps) (simp add: bn_gt_def)
  next
    case False
    then have "val b = int (nat (val b))" by simp
    from enc58_loop_digits [OF bn 1(2) 2(2) this] show ?thesis by blast
  qed
  then have "\<exists>r. EncodeBase58_range (env_bn E) vch = Some r" for vch
    using 1 2 by (auto simp: EncodeBase58_range_def Let_def split: sum.split)
  then show ?thesis by (simp add: na_ToString_def ToString_def EncodeBase58Check_def EncodeBase58_def)
qed

interpretation b58: text_form "na_ToString E" "na_SetString E" "\<lambda>d. env_laws E \<and> short_data d" for E
  by unfold_locales (auto simp: na_ToString_text na_SetString_text)

interpretation node_public: address_kind "na_ToString E" "na_SetString E" "\<lambda>d. env_laws E \<and> short_data d"
    VER_NODE_PUBLIC "humanNodePublic E" "setNodePublic E" for E
  by unfold_locales (simp_all add: humanNodePublic_def setNodePublic_def)

interpretation node_private: address_kind "na_ToString E" "na_SetString E" "\<lambda>d. env_laws E \<and> short_data d"
    VER_NODE_PRIVATE "humanNodePrivate E" "setNodePrivate E" for E
  by unfold_locales (simp_all add: humanNodePrivate_def setNodePrivate_def)

interpretation account_id: address_kind "na_ToString E" "na_SetString E" "\<lambda>d. env_laws E \<and> short_data d"
    VER_ACCOUNT_ID "humanAccountID E" "setAccountID E" for E
  by unfold_locales (simp_all add: humanAccountID_def setAccountID_def)

interpretation account_public: address_kind "na_ToString E" "na_SetString E" "\<lambda>d. env_laws E \<and> short_data d"
    VER_ACCOUNT_PUBLIC "humanAccountPublic E" "setAccountPublic E" for E
  by unfold_locales (simp_all add: humanAccountPublic_def setAccountPublic_def)

interpretation account_private: address_kind "na_ToString E" "na_SetString E" "\<lambda>d. env_laws E \<and> short_data d"
    VER_ACCOUNT_PRIVATE "humanAccountPrivate E" "setAccountPrivate E" for E
  by unfold_locales (simp_all add: humanAccountPrivate_def setAccountPrivate_def)

interpretation family_generator: address_kind "na_ToString E" "na_SetString E" "\<lambda>d. env_laws E \<and> short_data d"
    VER_FAMILY_GENERATOR "humanGenerator E" "setGenerator E" for E
  by unfold_locales (simp_all add: humanGenerator_def setGenerator_def)

interpretation family_seed: address_kind "na_ToString E" "na_SetString E" "\<lambda>d. env_laws E \<and> short_data d"
    VER_FAMILY_SEED "humanSeed E" "setSeed E" for E
  by unfold_locales (simp_all add: humanSeed_def setSeed_def)

section \<open>Texts that are no address\<close>

lemma dec58_loop_bad:
  assumes bn: "bn_laws bn val"
  shows "bad \<in> set s \<Longrightarrow> index_of bad pszBase58 = None \<Longrightarrow> \<not> isspace (last s) \<Longrightarrow> dec58_loop bn b58 b s = Inr None"
proof (induction s arbitrary: b)
  case (Cons c cs)
  show ?case
  proof (cases "index_of c pszBase58")
    case None
    have "dropWhile isspace (c # cs) \<noteq> []" using Cons.prems(3) by (metis dropWhile_eq_Nil_conv last_in_set list.distinct(1))
    then show ?thesis by (simp add: None)
  next
    case (Some i)
    then have "cs \<noteq> []" "bad \<in> set cs" using Cons.prems by auto
    then have ih: "dec58_loop bn b58 b' cs = Inr None" for b' using Cons by simp
    have "i < 58" using index_of_SomeD [OF Some] by simp
    then obtain x where "BN_set_word bn i = Some x" using bn_laws_words(3) [OF bn, of i] by auto
    moreover obtain y where "BN_mul bn b b58 = Some y" using bn_laws_arith(2) [OF bn, of b b58] by auto
    moreover obtain z where "BN_add bn y x = Some z" using bn_laws_arith(1) [OF bn, of y x] by auto
    ultimately show ?thesis using Some ih by (simp add: setulong_def bn_plus_eq_def)
  qed
qed simp

lemma na_SetString_bad:
  assumes "env_laws E" "bad \<in> set s" "index_of bad pszBase58 = None" "s \<noteq> []" "\<not> isspace (hd s)" "\<not> isspace (last s)"
    "CHR 0x00 \<notin> set s"
  shows "na_SetString E s v old = (Inr False, NewcoinAddress_new)"
proof -
  obtain val where bn: "bn_laws (env_bn E) val" using assms(1) by (auto simp: env_laws_def)
  obtain b58 where 1: "CBigNum_int (env_bn E) 58 = Inr b58" using CBigNum_int_val [OF bn, of 58] by auto
  obtain b0 where 2: "CBigNum_int (env_bn E) 0 = Inr b0" using CBigNum_int_val [OF bn, of 0] by auto
  obtain b1 where 3: "CBigNum_new (env_bn E) = Inr b1" using bn_laws_words(1) [OF bn] by (auto simp: CBigNum_new_def)
  have "takeWhile (\<lambda>c. c \<noteq> CHR 0x00) s = s" using assms(7) by (auto simp: takeWhile_eq_all_conv)
  then have c: "c_str s = s" "dropWhile isspace s = s" using assms(4,5) by (cases s; simp add: c_str_def)+
  have "DecodeBase58 (env_bn E) s = Inr (False, [])"
    by (simp add: DecodeBase58_def c 1 2 3 dec58_loop_bad [OF bn assms(2,3,6)] Let_def)
  then show ?thesis
    by (simp add: na_SetString_def SetString_def DecodeBase58Check_def c NewcoinAddress_new_def VER_NONE_def)
qed

lemma index_of_space: "index_of (CHR '' '') pszBase58 = None"
  by code_simp

lemma trim_plain: "\<forall>c\<in>set s. \<not> isspace c \<Longrightarrow> trim s = s"
  by (metis ParseSection.trim_def dropWhile_eq_self_iff hd_in_set rev_rev_ident set_rev)

lemma setSeed1751_one_word:
  assumes "\<forall>c\<in>set s. \<not> isspace c"
  shows "setSeed1751 E s d = Some (Inr (- 1), d)"
  by (simp add: setSeed1751_def eng2key_def trim_plain [OF assms] split_ws_word [OF assms])

text \<open>Twelve dictionary words are no base 58 text: there is a space between them.\<close>

lemma plain_word_chars: "plain_word w \<Longrightarrow> c \<in> set w \<Longrightarrow> \<not> isspace c"
  by (simp add: plain_word_def)

lemma words_of_no_NUL: "w \<in> set (words_of d) \<Longrightarrow> CHR 0x00 \<notin> set w"
proof -
  assume "w \<in> set (words_of d)"
  then obtain v where v: "v \<in> set (word_values (with_parity d))" "w = pcDict ! nat v"
    by (auto simp: words_of_def dict_word_def)
  then have "nat v < length pcDict" using word_values_range [OF v(1)] length_pcDict by linarith
  then have "w \<in> set pcDict" unfolding v(2) by (rule nth_mem)
  then show ?thesis by (rule pcDict_no_NUL)
qed

lemma set_join_words: "set (join_words ws) \<subseteq> insert (CHR '' '') (\<Union> (set ` set ws))"
  by (induction ws rule: join_words.induct) auto

lemma join_words_text:
  assumes "\<forall>w\<in>set (a # b # ws). plain_word w"
  shows "CHR '' '' \<in> set (join_words (a # b # ws))" "join_words (a # b # ws) \<noteq> []"
    "\<not> isspace (hd (join_words (a # b # ws)))" "\<not> isspace (last (join_words (a # b # ws)))"
proof -
  have a: "a \<noteq> []" "\<forall>c\<in>set a. \<not> isspace c" using assms by (auto simp: plain_word_def)
  show "CHR '' '' \<in> set (join_words (a # b # ws))" "join_words (a # b # ws) \<noteq> []" by simp_all
  show "\<not> isspace (hd (join_words (a # b # ws)))" using a by (cases a) auto
  show "\<not> isspace (last (join_words (a # b # ws)))" using last_join [OF assms] by simp
qed

section \<open>Properties\<close>

text \<open>The answer of the setter of a kind to the text of an address.\<close>

definition kind_answer :: "byte \<Rightarrow> address \<Rightarrow> bool result \<times> address" where
  "kind_answer v d = (if nVersion d = v then (Inr True, d) else (Inr False, NewcoinAddress_new))"

text \<open>C8: Addresses are read back from their text by the setter of their own kind and by no other:
  the seven setters accept the text of an address exactly when its version is theirs, and otherwise
  leave an unset address; the seven versions are different.\<close>

theorem kinds_separate:
  assumes "env_laws E" and "short_data d"
  shows "distinct [VER_NODE_PUBLIC, VER_NODE_PRIVATE, VER_ACCOUNT_ID, VER_ACCOUNT_PUBLIC, VER_ACCOUNT_PRIVATE, VER_FAMILY_GENERATOR, VER_FAMILY_SEED]
    \<and> (\<exists>str. na_ToString E d = Some (Inr str)
    \<and> setNodePublic E str old = kind_answer VER_NODE_PUBLIC d \<and> setNodePrivate E str old = kind_answer VER_NODE_PRIVATE d
    \<and> setAccountID E str old = kind_answer VER_ACCOUNT_ID d \<and> setAccountPublic E str old = kind_answer VER_ACCOUNT_PUBLIC d
    \<and> setAccountPrivate E str old = kind_answer VER_ACCOUNT_PRIVATE d
    \<and> setGenerator E str old = kind_answer VER_FAMILY_GENERATOR d \<and> setSeed E str old = kind_answer VER_FAMILY_SEED d)"
proof -
  obtain str where str: "na_ToString E d = Some (Inr str)" using b58.prints [of E d] assms by blast
  have p: "env_laws E \<and> short_data d" using assms by blast
  have "distinct [VER_NODE_PUBLIC, VER_NODE_PRIVATE, VER_ACCOUNT_ID, VER_ACCOUNT_PUBLIC, VER_ACCOUNT_PRIVATE, VER_FAMILY_GENERATOR, VER_FAMILY_SEED]"
    by (simp add: VER_NODE_PUBLIC_def VER_NODE_PRIVATE_def VER_ACCOUNT_ID_def VER_ACCOUNT_PUBLIC_def VER_ACCOUNT_PRIVATE_def
      VER_FAMILY_GENERATOR_def VER_FAMILY_SEED_def)
  then show ?thesis
    unfolding kind_answer_def
    by (intro conjI exI [of _ str] str node_public.set_human_text [OF p str] node_private.set_human_text [OF p str]
      account_id.set_human_text [OF p str] account_public.set_human_text [OF p str] account_private.set_human_text [OF p str]
      family_generator.set_human_text [OF p str] family_seed.set_human_text [OF p str])
qed

text \<open>The human form of an address of each kind is produced by the accessor of that kind and read
  back to the same address; an accessor asked for another kind throws, except that the account ID of
  an account public key is available.\<close>

theorem human_forms:
  assumes "env_laws E" and "short_data d"
    and "(v, human, set_human) \<in> {(VER_NODE_PUBLIC, humanNodePublic E, setNodePublic E),
      (VER_NODE_PRIVATE, humanNodePrivate E, setNodePrivate E), (VER_ACCOUNT_ID, humanAccountID E, setAccountID E),
      (VER_ACCOUNT_PUBLIC, humanAccountPublic E, setAccountPublic E),
      (VER_ACCOUNT_PRIVATE, humanAccountPrivate E, setAccountPrivate E),
      (VER_FAMILY_GENERATOR, humanGenerator E, setGenerator E), (VER_FAMILY_SEED, humanSeed E, setSeed E)}"
  shows "if nVersion d = v then \<exists>str. human d = Some (Inr str) \<and> set_human str old = (Inr True, d)
    else (v = VER_ACCOUNT_ID \<and> nVersion d = VER_ACCOUNT_PUBLIC) \<or> (\<exists>m. human d = Some (Inl (Runtime_error m)))"
proof -
  have p: "env_laws E \<and> short_data d" using assms(1,2) by blast
  note rt = node_public.human_round_trip [OF p] node_private.human_round_trip [OF p] account_id.human_round_trip [OF p]
    account_public.human_round_trip [OF p] account_private.human_round_trip [OF p]
    family_generator.human_round_trip [OF p] family_seed.human_round_trip [OF p]
  obtain m m' where "source_error d = Runtime_error m" "public_error d = Runtime_error m'"
    using source_error_runtime public_error_runtime by blast
  then have other: "nVersion d \<noteq> v \<longrightarrow> (v = VER_ACCOUNT_ID \<and> nVersion d = VER_ACCOUNT_PUBLIC) \<or> (\<exists>m. human d = Some (Inl (Runtime_error m)))"
    using assms(3)
    by (auto simp: humanNodePublic_def humanNodePrivate_def humanAccountID_def humanAccountPublic_def
      humanAccountPrivate_def humanGenerator_def humanSeed_def)
  have "nVersion d = v \<longrightarrow> (\<exists>str. human d = Some (Inr str) \<and> set_human str old = (Inr True, d))"
    using assms(3) rt [of old] by (elim insertE emptyE) simp_all
  with other show ?thesis by (cases "nVersion d = v") simp_all
qed


text \<open>C27: What \<^verbatim>\<open>setSeedGeneric\<close> makes of the text of an address: accounts and node keys are
  refused and the object is untouched, a seed is taken over, and any other address text, a family
  generator included, is hashed like a pass phrase.\<close>

theorem setSeedGeneric_address_text:
  assumes "env_laws E" and "short_data d" and "na_ToString E d = Some (Inr str)"
  shows "setSeedGeneric E str old = Some
    (if nVersion d \<in> {VER_ACCOUNT_ID, VER_ACCOUNT_PUBLIC, VER_ACCOUNT_PRIVATE, VER_NODE_PUBLIC, VER_NODE_PRIVATE} then (Inr False, old)
     else if nVersion d = VER_FAMILY_SEED then (Inr True, d)
     else (Inr True, setSeed_uint (PassPhraseToKey E str) NewcoinAddress_new))"
proof -
  have p: "env_laws E \<and> short_data d" using assms by blast
  note ans = node_public.set_human_text [OF p assms(3)] node_private.set_human_text [OF p assms(3)]
    account_id.set_human_text [OF p assms(3)] account_public.set_human_text [OF p assms(3)]
    account_private.set_human_text [OF p assms(3)] family_seed.set_human_text [OF p assms(3)]
  let ?v = "(nVersion d # vchData d) @ checksum (SHA256 E) (nVersion d # vchData d)"
  have str: "str = text58 ?v" using na_ToString_text [OF assms(1,2)] assms(3) by simp
  then have sp: "\<forall>c\<in>set str. \<not> isspace c" using text58_plain by blast
  have "length (checksum (SHA256 E) (nVersion d # vchData d)) = 4"
    by (rule length_checksum) (use assms(1) in \<open>simp add: env_laws_def\<close>)
  have "str \<noteq> []"
  proof
    assume "str = []"
    then have "takeWhile (\<lambda>x. x = 0) ?v = []" "digits58 (bytes_val ?v) = []" by (auto simp: str text58_def)
    then have "bytes_val ?v = 0" using hd_digits58 by blast
    moreover have "nVersion d \<noteq> 0" using \<open>takeWhile (\<lambda>x. x = 0) ?v = []\<close> by (auto split: if_splits)
    ultimately show False by (simp add: unat_eq_zero)
  qed
  then show ?thesis
    by (simp add: setSeedGeneric_def ans setSeed1751_one_word [OF sp])
qed


text \<open>C26: What \<^verbatim>\<open>setSeedGeneric\<close> makes of the twelve words that \<^verbatim>\<open>humanSeed1751\<close> prints
  for a seed: without the word \<^verbatim>\<open>YOU\<close> it restores the seed; with it the words are silently
  hashed as a pass phrase.\<close>

theorem setSeedGeneric_words:
  assumes "env_laws E" and "nVersion d = VER_FAMILY_SEED" and "length (vchData d) = 16"
  shows "\<exists>str. humanSeed1751 E d = Inr str \<and> setSeedGeneric E str old = Some (Inr True,
    if 570 \<in> set (word_values (with_parity (take 8 (rev (vchData d)))) @ word_values (with_parity (drop 8 (rev (vchData d)))))
    then setSeed_uint (PassPhraseToKey E str) NewcoinAddress_new else d)"
proof -
  let ?k = "rev (vchData d)"
  let ?ws = "words_of (take 8 ?k) @ words_of (drop 8 ?k)"
  define str where "str = join_words ?ws"
  have h: "humanSeed1751 E d = Inr str"
    using assms(2,3) by (simp add: humanSeed1751_def getSeed_def uint128_of_vch_def Let_def key2eng_words str_def)
  obtain a b ws where ws: "?ws = a # b # ws"
    using length_words_of [of "take 8 ?k"] by (cases "words_of (take 8 ?k)"; cases "tl (words_of (take 8 ?k))") auto
  have plain: "\<forall>w\<in>set (a # b # ws). plain_word w" unfolding ws [symmetric] using plain_words_of by auto
  have nul: "CHR 0x00 \<notin> set str"
    using set_join_words [of ?ws] words_of_no_NUL by (auto simp: str_def)
  note t = join_words_text [OF plain, folded ws, folded str_def]
  have none: "na_SetString E str v x = (Inr False, NewcoinAddress_new)" for v x
    using na_SetString_bad [OF assms(1) t(1) index_of_space t(2,3,4) nul] .
  have eng: "eng2key (stack_memory E) [] str = Some (Inr
     (if 570 \<in> set (word_values (with_parity (take 8 ?k)) @ word_values (with_parity (drop 8 ?k))) then (0, []) else (1, ?k)))"
    unfolding str_def using assms(3) by (intro eng2key_words) simp
  have d: "setSeed_uint (uint128_of_vch (vchData d)) x = d" for x
    using assms(2,3) by (cases d) (simp add: setSeed_uint_def uint128_of_vch_def SetData_def)
  have "setSeedGeneric E str old = Some (Inr True,
    if 570 \<in> set (word_values (with_parity (take 8 ?k)) @ word_values (with_parity (drop 8 ?k)))
    then setSeed_uint (PassPhraseToKey E str) NewcoinAddress_new else d)"
    using t(2) by (simp add: setSeedGeneric_def setAccountID_def setAccountPublic_def setAccountPrivate_def setNodePublic_def
      setNodePrivate_def setSeed_def none setSeed1751_def eng d)
  with h show ?thesis by blast
qed


text \<open>The account ID printed for an account public key is the hash of that key: read back, it is
  an account address with the same ID.\<close>

theorem account_id_of_public:
  assumes "env_laws E" and "nVersion d = VER_ACCOUNT_PUBLIC" and "vchData d \<noteq> []"
  shows "\<exists>i str. getAccountID E d = Inr i \<and> humanAccountID E d = Some (Inr str)
    \<and> (\<exists>d'. setAccountID E str old = (Inr True, d') \<and> nVersion d' = VER_ACCOUNT_ID \<and> getAccountID E d' = Inr i)"
proof -
  let ?i = "of_uint_bytes (RIPEMD160 E (uint_bytes (of_uint_bytes (SHA256 E (vchData d)))))"
  let ?d = "setAccountID_uint ?i NewcoinAddress_new"
  have i: "getAccountID E d = Inr ?i"
    using assms(2,3) by (simp add: getAccountID_def Hash160_def Let_def ver_defs)
  have b: "length (uint_bytes ?i) = 20" "uint_bytes ?i = RIPEMD160 E (uint_bytes (of_uint_bytes (SHA256 E (vchData d))))"
    using assms(1) by (simp_all add: env_laws_def)
  have v: "nVersion ?d = VER_ACCOUNT_ID" "vchData ?d = uint_bytes ?i"
    using b by (simp_all add: setAccountID_uint_def SetData_def)
  have p: "env_laws E \<and> short_data ?d" using assms(1) b v by (simp add: short_data_def)
  then obtain str where str: "na_ToString E ?d = Some (Inr str)" using b58.prints by blast
  have "humanAccountID E d = Some (Inr str)" using assms(2) i str by (simp add: humanAccountID_def ver_defs)
  moreover have "setAccountID E str old = (Inr True, ?d)" using account_id.set_human_text [OF p str] v by simp
  moreover have "getAccountID E ?d = Inr ?i" using b v by (simp add: getAccountID_def uint160_of_vch_def)
  ultimately show ?thesis using i v by blast
qed

section \<open>Signatures\<close>

text \<open>What the node keys rely on: a compressed public key is 33 bytes, a private number at most 32,
  and a signature made with the private number of a key verifies against its public part.\<close>

definition ec_laws :: "'k openssl_ec \<Rightarrow> bool" where
  "ec_laws os \<longleftrightarrow> (\<exists>k. EC_KEY_new_by_curve_name os = Some k)
     \<and> (\<forall>k. length (i2o_ECPublicKey os k) = 33)
     \<and> (\<forall>k p. EC_KEY_get0_private_key os k = Some p \<longrightarrow> length p \<le> 32 \<and> minimal_bytes p = p)
     \<and> (\<forall>k p. length p = 32 \<longrightarrow> (\<exists>k'. EC_KEY_set_private_key os k p = Some k'))
     \<and> (\<forall>k k'. \<exists>k''. o2i_ECPublicKey os k' (i2o_ECPublicKey os k) = Some k'')
     \<and> (\<forall>k h. length h = 32 \<longrightarrow> (\<exists>sig. ECDSA_sign os k h = Some sig \<and> sig \<noteq> [] \<and> length sig \<le> 10000))
     \<and> (\<forall>k p k1 k1' k2 k2' h sig. EC_KEY_get0_private_key os k = Some (minimal_bytes p) \<longrightarrow> length p = 32 \<longrightarrow>
          EC_KEY_set_private_key os k1 p = Some k1' \<longrightarrow> o2i_ECPublicKey os k2 (i2o_ECPublicKey os k) = Some k2' \<longrightarrow>
          length h = 32 \<longrightarrow> ECDSA_sign os k1' h = Some sig \<longrightarrow>
          ECDSA_verify os (EC_KEY_set_conv_form os k2') h sig = 1)"

lemma minimal_bytes_zeros: "minimal_bytes (replicate n 0 @ p) = minimal_bytes p"
  by (induction n) (simp_all add: minimal_bytes_def)

lemma node_keys_of_seed:
  assumes "ec_laws (env_ec E)" "getSeed naSeed = Inr seed" "GenerateRootDeterministicKey E seed = Some k"
    "EC_KEY_get0_private_key (env_ec E) k = Some p"
  shows "createNodePublic E naSeed = Inr (CBase58Data VER_NODE_PUBLIC (i2o_ECPublicKey (env_ec E) k))"
    "createNodePrivate E naSeed = Inr (CBase58Data VER_NODE_PRIVATE (replicate (32 - length p) 0 @ p))"
proof -
  have l: "length (i2o_ECPublicKey (env_ec E) k) = 33" "length p \<le> 32"
    using assms(1,4) unfolding ec_laws_def by blast+
  show "createNodePublic E naSeed = Inr (CBase58Data VER_NODE_PUBLIC (i2o_ECPublicKey (env_ec E) k))"
    using l assms(2,3)
    by (simp add: createNodePublic_def CKey_of_seed_def GetPubKey_def setNodePublic_vch_def SetData_def)
  show "createNodePrivate E naSeed = Inr (CBase58Data VER_NODE_PRIVATE (replicate (32 - length p) 0 @ p))"
    using l assms(2,3,4)
    by (simp add: createNodePrivate_def CKey_of_seed_def GetPrivateKeyU_def setNodePrivate_uint_def SetData_def)
qed


text \<open>An account private key whose data is not 32 bytes, as a text can give it, makes the validity test
  abort in the constructor of \<^verbatim>\<open>uint256\<close>.\<close>

lemma isValid_aborts:
  assumes "EC_KEY_new_by_curve_name (env_ec E) = Some k" "nVersion d = VER_ACCOUNT_PRIVATE"
    "vchData d \<noteq> []" "length (vchData d) \<noteq> 32"
  shows "isValid E d = Inl Assert_failed"
  using assms by (simp add: isValid_def CKey_new_def getAccountPrivate_def uint256_of_vch_def ver_defs)

section \<open>An instance of the parameters\<close>

text \<open>Keys of one byte, digests that return constants.\<close>

definition toy_os :: "byte openssl_ec" where
  "toy_os = \<lparr>EC_KEY_new_by_curve_name = Some 0, EC_KEY_set_conv_form = (\<lambda>k. k),
     EC_KEY_generate_key = (\<lambda>k. Some 5), EC_KEY_dup = Some, EC_KEY_copy = (\<lambda>a b. Some b),
     EC_KEY_get0_private_key = (\<lambda>k. Some (minimal_bytes [k])),
     EC_KEY_set_private_key = (\<lambda>k bs. if bs = [] then None else Some (last bs)),
     o2i_ECPublicKey = (\<lambda>k bs. if bs = [] then None else Some (hd bs)), i2o_ECPublicKey = (\<lambda>k. k # replicate 32 0),
     ECDSA_sign = (\<lambda>k h. Some (k # take 32 h)), ECDSA_verify = (\<lambda>k h s. if s = k # take 32 h then 1 else 0)\<rparr>"

definition toy_env :: "(byte, int) address_env" where
  "toy_env = \<lparr>env_ec = toy_os, env_bn = int_bn, SHA256 = (\<lambda>bs. replicate 32 7), RIPEMD160 = (\<lambda>bs. replicate 20 9),
     PassPhraseToKey = (\<lambda>s. uint_zero 4), GenerateRootDeterministicKey = (\<lambda>s. Some 6),
     GeneratePublicDeterministicKey = (\<lambda>a n. Some 6), GeneratePrivateDeterministicKey = (\<lambda>a b n. Some 6),
     encryptECIES = (\<lambda>a b p. Inr p), decryptECIES = (\<lambda>a b p. Inr p), BN_bin2bn = (\<lambda>bs. Some (int (bytes_val bs))),
     stack_memory = (\<lambda>_. 0)\<rparr>"

lemma env_laws_toy: "env_laws toy_env"
  using bn_laws_int by (auto simp: env_laws_def toy_env_def sha256_laws_def)

lemma last_minimal: "p \<noteq> [] \<Longrightarrow> minimal_bytes p = minimal_bytes [k] \<Longrightarrow> last p = k"
proof (induction p)
  case (Cons a p)
  then show ?case by (cases "p = []") (auto simp: minimal_bytes_def split: if_splits)
qed simp

lemma ec_laws_toy: "ec_laws toy_os"
proof -
  have "last p = k" if "length p = 32" "minimal_bytes p = minimal_bytes [k]" for p k
    using that last_minimal [of p k] by (cases p) auto
  then show ?thesis by (auto simp: ec_laws_def toy_os_def minimal_bytes_def [of "[_]"] minimal_bytes_def [of "[]"])
qed

theorem kinds_separate_witness:
  "\<exists>str. setNodePublic toy_env str NewcoinAddress_new = (Inr True, CBase58Data 28 [5])
     \<and> setSeed toy_env str NewcoinAddress_new = (Inr False, NewcoinAddress_new)"
  using kinds_separate [OF env_laws_toy, of "CBase58Data 28 [5]" NewcoinAddress_new]
  by (auto simp: short_data_def kind_answer_def ver_defs)

theorem human_forms_witness:
  "\<exists>str. humanSeed toy_env (CBase58Data 33 [1]) = Some (Inr str) \<and> setSeed toy_env str NewcoinAddress_new = (Inr True, CBase58Data 33 [1])"
  using human_forms [OF env_laws_toy, of "CBase58Data 33 [1]" VER_FAMILY_SEED "humanSeed toy_env" "setSeed toy_env" NewcoinAddress_new]
  by (auto simp: short_data_def VER_FAMILY_SEED_def)

theorem setSeedGeneric_address_text_witness:
  "\<exists>str. setSeedGeneric toy_env str NewcoinAddress_new = Some (Inr True, CBase58Data 33 [1])"
proof -
  obtain str where "na_ToString toy_env (CBase58Data 33 [1]) = Some (Inr str)"
    using na_ToString_text [OF env_laws_toy, of "CBase58Data 33 [1]"] by (auto simp: short_data_def)
  from setSeedGeneric_address_text [OF env_laws_toy _ this, of NewcoinAddress_new] show ?thesis
    by (auto simp: short_data_def ver_defs)
qed

theorem setSeedGeneric_words_witness:
  "\<exists>str. setSeedGeneric toy_env str NewcoinAddress_new = Some (Inr True, CBase58Data 33 (replicate 16 0))"
proof -
  have "570 \<notin> set (word_values (with_parity (replicate 8 0)))" by code_simp
  then show ?thesis
    using setSeedGeneric_words [OF env_laws_toy, of "CBase58Data 33 (replicate 16 0)" NewcoinAddress_new]
    by (auto simp: VER_FAMILY_SEED_def)
qed

theorem account_id_of_public_witness:
  "\<exists>i. getAccountID toy_env (CBase58Data 35 [1]) = Inr i"
  using account_id_of_public [OF env_laws_toy, of "CBase58Data 35 [1]" NewcoinAddress_new] by (auto simp: VER_ACCOUNT_PUBLIC_def)


end
