(* ===== verification/Scoring.thy ===== *)
theory Scoring
  imports Prelude "HOL-Library.Signed_Division"
begin

text \<open>
  The trust scores of \<^verbatim>\<open>src/UniqueNodeList/UniqueNodeList.cpp\<close>: \<^verbatim>\<open>iSourceScore\<close> and
  \<^verbatim>\<open>scoreRound\<close>, which hands the points of every node to the nodes it refers to, more of them to
  the ones it mentions first. \<^verbatim>\<open>int\<close> sums and products that overflow are
  \<open>Undefined_behaviour\<close>; \<^verbatim>\<open>score\<close> is a 64-bit \<^verbatim>\<open>long\<close>, in which the products of two
  \<^verbatim>\<open>int\<close>s cannot overflow. The progress output is not modelled.
\<close>

section \<open>Definitions\<close>

text \<open>A \<^verbatim>\<open>validatorSource\<close> is one of seven letters, but the code casts it from any character
  of the database.\<close>

type_synonym validatorSource = char

definition vsConfig :: validatorSource where "vsConfig = CHR ''C''"
definition vsInbound :: validatorSource where "vsInbound = CHR ''I''"
definition vsManual :: validatorSource where "vsManual = CHR ''M''"
definition vsReferral :: validatorSource where "vsReferral = CHR ''R''"
definition vsTold :: validatorSource where "vsTold = CHR ''T''"
definition vsValidator :: validatorSource where "vsValidator = CHR ''V''"
definition vsWeb :: validatorSource where "vsWeb = CHR ''W''"

lemmas vs_defs = vsConfig_def vsInbound_def vsManual_def vsReferral_def vsTold_def vsValidator_def vsWeb_def

definition iSourceScore :: "validatorSource \<Rightarrow> int result" where
  "iSourceScore vsWhy =
     (if vsWhy = vsConfig then Inr 1500
      else if vsWhy = vsInbound then Inr 0
      else if vsWhy = vsManual then Inr 1500
      else if vsWhy = vsReferral then Inr 0
      else if vsWhy = vsTold then Inr 0
      else if vsWhy = vsValidator then Inr 1000
      else if vsWhy = vsWeb then Inr 200
      else Inl (Runtime_error ''Internal error: bad validatorSource.''))"

record scoreNode =
  iScore :: int
  iRoundScore :: int
  iRoundSeed :: int
  iSeen :: int
  strValidator :: string
  viReferrals :: "int list"

definition iPoints :: "int \<Rightarrow> int \<Rightarrow> int \<Rightarrow> int" where
  "iPoints iBase iEntries i = (iBase * (iEntries - i)) sdiv iEntries"

text \<open>The inner loop, over the referrals from the \<open>i\<close>-th on.\<close>

fun dist_loop :: "scoreNode list \<Rightarrow> int \<Rightarrow> int \<Rightarrow> int \<Rightarrow> int list \<Rightarrow> scoreNode list result" where
  "dist_loop vsnNodes iBase iEntries i [] = Inr vsnNodes"
| "dist_loop vsnNodes iBase iEntries i (r # rs) =
     ebind (vec_at vsnNodes r) (\<lambda>n.
       dist_loop (vsnNodes[nat r := n\<lparr>iRoundScore := to_int (iRoundScore n + iPoints iBase iEntries i)\<rparr>])
         iBase iEntries (i + 1) rs)"

definition dist_node :: "scoreNode list \<Rightarrow> scoreNode \<Rightarrow> scoreNode list result" where
  "dist_node vsnNodes sn =
     (let iEntries = to_int (int (length (viReferrals sn))) in
      if iRoundSeed sn \<noteq> 0 \<and> iEntries \<noteq> 0 then
        ebind (int_val ((iEntries + 1) * iEntries)) (\<lambda>p.
        ebind (int_val (iRoundSeed sn * iEntries)) (\<lambda>q.
        dist_loop vsnNodes (q sdiv (p sdiv 2)) iEntries 0 (viReferrals sn)))
      else Inr vsnNodes)"

text \<open>The outer loop visits the nodes in order; the reference \<^verbatim>\<open>sn\<close> sees the current vector.\<close>

fun dist_nodes :: "scoreNode list \<Rightarrow> nat list \<Rightarrow> scoreNode list result" where
  "dist_nodes vsnNodes [] = Inr vsnNodes"
| "dist_nodes vsnNodes (k # ks) =
     ebind (dist_node vsnNodes (vsnNodes ! k)) (\<lambda>vsn. dist_nodes vsn ks)"

fun finish_round :: "scoreNode list \<Rightarrow> scoreNode list result" where
  "finish_round [] = Inr []"
| "finish_round (sn # sns) =
     ebind (int_add (iScore sn) (iRoundScore sn)) (\<lambda>s.
     ebind (finish_round sns) (\<lambda>sns'.
     Inr (sn\<lparr>iScore := s, iRoundSeed := iRoundScore sn, iRoundScore := 0\<rparr> # sns')))"

definition scoreRound :: "scoreNode list \<Rightarrow> (bool \<times> scoreNode list) result" where
  "scoreRound vsnNodes =
     ebind (dist_nodes vsnNodes [0..<length vsnNodes]) (\<lambda>vsn.
     ebind (finish_round vsn) (\<lambda>vsn'.
     Inr (list_ex (\<lambda>sn. iRoundScore sn \<noteq> 0) vsn, vsn')))"

definition SCORE_ROUNDS :: nat where
  "SCORE_ROUNDS = 10"

text \<open>\<^verbatim>\<open>for (int i = SCORE_ROUNDS; bDist && i--;)\<close>.\<close>

fun score_rounds :: "nat \<Rightarrow> bool \<Rightarrow> scoreNode list \<Rightarrow> scoreNode list result" where
  "score_rounds 0 bDist vsn = Inr vsn"
| "score_rounds (Suc i) bDist vsn =
     (if bDist then ebind (scoreRound vsn) (\<lambda>(bDist', vsn'). score_rounds i bDist' vsn') else Inr vsn)"

section \<open>The points of one node\<close>

lemma sdiv_nonneg: "0 \<le> (a::int) \<Longrightarrow> 0 \<le> b \<Longrightarrow> a sdiv b = a div b"
  by (simp add: signed_divide_int_def sgn_if)

lemma div_mult_le_int: "0 < (c::int) \<Longrightarrow> a div c * c \<le> a"
  by (simp flip: minus_mod_eq_div_mult)

fun points_from :: "int \<Rightarrow> int \<Rightarrow> nat \<Rightarrow> int" where
  "points_from b n 0 = 0"
| "points_from b n (Suc k) = b * int (Suc k) div n + points_from b n k"

lemma points_from_bound: "0 < n \<Longrightarrow> 2 * n * points_from b n k \<le> b * (int k * (int k + 1))"
proof (induction k)
  case (Suc k)
  have "n * (b * int (Suc k) div n) \<le> b * int (Suc k)"
    using Suc.prems by (simp add: mult.commute [of n] div_mult_le_int)
  then have "2 * (n * (b * int (Suc k) div n)) \<le> 2 * (b * int (Suc k))" by linarith
  moreover have "2 * n * points_from b n k \<le> b * (int k * (int k + 1))" using Suc by simp
  ultimately show ?case by (simp add: algebra_simps)
qed simp

lemma points_from_nonneg: "0 \<le> b \<Longrightarrow> 0 < n \<Longrightarrow> 0 \<le> points_from b n k"
  by (induction k) (simp_all add: pos_imp_zdiv_nonneg_iff)

text \<open>A node never hands out more than its seed.\<close>

lemma points_total:
  assumes "0 \<le> seed" "0 < n"
  shows "points_from (seed * int n div ((int n + 1) * int n div 2)) (int n) n \<le> seed"
proof -
  let ?n = "int n" and ?t = "(int n + 1) * int n div 2"
  let ?b = "seed * ?n div ?t"
  have t: "2 * ?t = (?n + 1) * ?n" by simp
  have "(1 + 1) * 1 \<le> (?n + 1) * ?n" using assms by (intro mult_mono) auto
  then have tp: "0 < ?t" by (simp add: pos_imp_zdiv_pos_iff)
  have "2 * ?n * points_from ?b ?n n \<le> ?b * (?n * (?n + 1))" using assms by (intro points_from_bound) simp
  also have "\<dots> = 2 * (?b * ?t)" using t by (metis mult.commute mult.left_commute)
  also have "\<dots> \<le> 2 * (seed * ?n)" using tp by (simp add: div_mult_le_int)
  finally show ?thesis using assms(2) by (simp add: mult.commute)
qed

section \<open>Sums over the nodes\<close>

abbreviation total_of :: "(scoreNode \<Rightarrow> int) \<Rightarrow> scoreNode list \<Rightarrow> int" where
  "total_of f vsn \<equiv> sum_list (map f vsn)"

lemma total_of_update:
  "k < length vsn \<Longrightarrow> total_of f (vsn[k := n]) = total_of f vsn + f n - f (vsn ! k)"
proof (induction vsn arbitrary: k)
  case (Cons a vsn)
  then show ?case by (cases k) simp_all
qed simp

lemma total_of_nonneg: "\<forall>n\<in>set vsn. 0 \<le> f n \<Longrightarrow> 0 \<le> total_of f vsn"
  by (induction vsn) auto

lemma total_of_member: "\<forall>n\<in>set vsn. 0 \<le> f n \<Longrightarrow> n \<in> set vsn \<Longrightarrow> f n \<le> total_of f vsn"
proof (induction vsn)
  case (Cons a vsn)
  have "0 \<le> total_of f vsn" using Cons.prems by (intro total_of_nonneg) simp
  with Cons show ?case by auto
qed simp

text \<open>Everything of a node but its round score.\<close>

definition strip :: "scoreNode \<Rightarrow> scoreNode" where
  "strip n = n\<lparr>iRoundScore := 0\<rparr>"

lemma strip_fields [simp]:
  "iScore (strip n) = iScore n" "iRoundSeed (strip n) = iRoundSeed n"
  "viReferrals (strip n) = viReferrals n" "strValidator (strip n) = strValidator n"
  "strip (n\<lparr>iRoundScore := x\<rparr>) = strip n"
  by (simp_all add: strip_def)

lemma strip_eq_nth: "map strip vsn' = map strip vsn \<Longrightarrow> k < length vsn \<Longrightarrow> strip (vsn' ! k) = strip (vsn ! k)"
  by (metis length_map nth_map)

lemma strip_update: "k < length vsn \<Longrightarrow> strip n = strip (vsn ! k) \<Longrightarrow> map strip (vsn[k := n]) = map strip vsn"
  by (simp add: map_update list_update_same_conv)

section \<open>Distribution\<close>

text \<open>What a distribution step may do to the nodes: add round points of value at most \<open>p\<close> in all, to
  nodes in \<open>R\<close> only.\<close>

definition dist_to :: "scoreNode list \<Rightarrow> scoreNode list \<Rightarrow> int \<Rightarrow> int set \<Rightarrow> bool" where
  "dist_to vsn vsn' p R \<longleftrightarrow> map strip vsn' = map strip vsn \<and> (\<forall>n\<in>set vsn'. 0 \<le> iRoundScore n)
     \<and> total_of iRoundScore vsn \<le> total_of iRoundScore vsn'
     \<and> total_of iRoundScore vsn' \<le> total_of iRoundScore vsn + p
     \<and> (\<forall>k<length vsn. int k \<notin> R \<longrightarrow> vsn' ! k = vsn ! k)"

lemma dist_to_length: "dist_to vsn vsn' p R \<Longrightarrow> length vsn' = length vsn"
  unfolding dist_to_def by (metis length_map)

lemma dist_to_refl: "\<forall>n\<in>set vsn. 0 \<le> iRoundScore n \<Longrightarrow> 0 \<le> p \<Longrightarrow> dist_to vsn vsn p R"
  by (simp add: dist_to_def)

lemma dist_to_trans:
  assumes "dist_to a b p P" "dist_to b c q Q" "p + q \<le> r"
  shows "dist_to a c r (P \<union> Q)"
  using assms dist_to_length [OF assms(1)] by (auto simp: dist_to_def)

lemma dist_to_mono: "dist_to a b p P \<Longrightarrow> p \<le> q \<Longrightarrow> P \<subseteq> Q \<Longrightarrow> dist_to a b q Q"
  by (auto simp: dist_to_def)

lemma dist_loop_ok:
  assumes "\<forall>r\<in>set rs. 0 \<le> r \<and> r < int (length vsn)" "0 \<le> b" "0 < n" "i + int (length rs) = n" "0 \<le> i"
    and "\<forall>x\<in>set vsn. 0 \<le> iRoundScore x"
    and "total_of iRoundScore vsn + points_from b n (length rs) \<le> INT_MAX"
  shows "\<exists>vsn'. dist_loop vsn b n i rs = Inr vsn' \<and> dist_to vsn vsn' (points_from b n (length rs)) (set rs)"
  using assms
proof (induction rs arbitrary: vsn i)
  case Nil
  then show ?case by (simp add: dist_to_refl)
next
  case (Cons r rs)
  let ?x = "vsn ! nat r" and ?p = "b * int (Suc (length rs)) div n"
  let ?v = "vsn[nat r := ?x\<lparr>iRoundScore := iRoundScore ?x + ?p\<rparr>]"
  have r: "nat r < length vsn" "vec_at vsn r = Inr ?x" using Cons.prems by (auto simp: vec_at_def)
  have p: "0 \<le> ?p" using Cons.prems by (simp add: pos_imp_zdiv_nonneg_iff)
  have ni: "n - i = int (Suc (length rs))" using Cons.prems by simp
  have ip: "iPoints b n i = ?p"
    unfolding iPoints_def ni using Cons.prems by (intro sdiv_nonneg) simp_all
  have x: "0 \<le> iRoundScore ?x" "iRoundScore ?x \<le> total_of iRoundScore vsn"
    using Cons.prems r(1) total_of_member [of vsn iRoundScore ?x] by auto
  have pf: "0 \<le> points_from b n (length rs)" using Cons.prems by (intro points_from_nonneg) auto
  have ti: "to_int (iRoundScore ?x + ?p) = iRoundScore ?x + ?p"
    using x p pf Cons.prems by (intro to_int_id) (simp add: in_int_def INT_MIN_def)
  have tot: "total_of iRoundScore ?v = total_of iRoundScore vsn + ?p"
    using r by (simp add: total_of_update)
  have nn: "\<forall>m\<in>set ?v. 0 \<le> iRoundScore m"
    using Cons.prems x p by (auto dest!: set_update_subset_insert [THEN subsetD])
  obtain vsn' where v: "dist_loop ?v b n (i + 1) rs = Inr vsn'"
      and d: "dist_to ?v vsn' (points_from b n (length rs)) (set rs)"
    using Cons.IH [of ?v "i + 1"] Cons.prems nn tot by auto
  have "dist_to vsn ?v ?p {r}"
    using tot nn p r Cons.prems by (auto simp: dist_to_def strip_update nth_list_update)
  from dist_to_trans [OF this d, of "points_from b n (length (r # rs))"]
  have "dist_to vsn vsn' (points_from b n (length (r # rs))) (set (r # rs))" by simp
  with v r ip ti show ?case by simp
qed

text \<open>The nodes that a round can be run on: no pending round points, no negative numbers,
  referrals that point into the vector and are at most the fifty that the site files may list.\<close>

definition node_ok :: "nat \<Rightarrow> scoreNode \<Rightarrow> bool" where
  "node_ok len n \<longleftrightarrow> 0 \<le> iScore n \<and> 0 \<le> iRoundSeed n \<and> length (viReferrals n) \<le> 50
     \<and> (\<forall>r\<in>set (viReferrals n). 0 \<le> r \<and> r < int len)"

lemma node_ok_strip [simp]: "node_ok len (strip n) = node_ok len n"
  by (simp add: node_ok_def)

lemma dist_node_ok:
  assumes "node_ok (length vsn) sn" "\<forall>x\<in>set vsn. 0 \<le> iRoundScore x"
    and "50 * iRoundSeed sn \<le> INT_MAX" "total_of iRoundScore vsn + iRoundSeed sn \<le> INT_MAX"
  shows "\<exists>vsn'. dist_node vsn sn = Inr vsn' \<and> dist_to vsn vsn' (iRoundSeed sn) (set (viReferrals sn))"
proof -
  let ?l = "length (viReferrals sn)" and ?s = "iRoundSeed sn"
  let ?b = "?s * int ?l div ((int ?l + 1) * int ?l div 2)"
  have l: "?l \<le> 50" "0 \<le> ?s" using assms by (auto simp: node_ok_def)
  have ti: "to_int (int ?l) = int ?l" using l by (simp add: in_int_of_nat)
  show ?thesis
  proof (cases "?s = 0 \<or> ?l = 0")
    case True
    then show ?thesis using assms l by (auto simp: dist_node_def ti intro: dist_to_refl)
  next
    case False
    have "?s * int ?l \<le> ?s * 50" using l by (intro mult_left_mono) auto
    moreover have "0 \<le> ?s * int ?l" using l by simp
    ultimately have q: "in_int (?s * int ?l)"
      unfolding in_int_def INT_MIN_def using assms(3) by linarith
    have "(int ?l + 1) * int ?l \<le> 51 * 50" using l by (intro mult_mono) auto
    moreover have "0 \<le> (int ?l + 1) * int ?l" by simp
    ultimately have p: "in_int ((int ?l + 1) * int ?l)"
      unfolding in_int_def INT_MIN_def INT_MAX_def by linarith
    have bp: "0 \<le> ?b" using l by (simp add: div_int_pos_iff)
    have "points_from ?b (int ?l) ?l \<le> ?s" using False l by (intro points_total) auto
    then obtain vsn' where v: "dist_loop vsn ?b (int ?l) 0 (viReferrals sn) = Inr vsn'"
      and d: "dist_to vsn vsn' (points_from ?b (int ?l) ?l) (set (viReferrals sn))"
      using dist_loop_ok [of "viReferrals sn" vsn ?b "int ?l" 0] assms False bp by (auto simp: node_ok_def)
    have "dist_node vsn sn = Inr vsn'"
      using v False l ti p q by (simp add: dist_node_def int_val_ok sdiv_nonneg)
    with d \<open>points_from ?b (int ?l) ?l \<le> ?s\<close> show ?thesis by (blast intro: dist_to_mono)
  qed
qed

lemma dist_nodes_ok:
  assumes "\<forall>k\<in>set ks. k < length vsn" "\<forall>x\<in>set vsn. node_ok (length vsn) x \<and> 0 \<le> iRoundScore x"
    and "\<forall>k\<in>set ks. 50 * iRoundSeed (vsn ! k) \<le> INT_MAX"
    and "total_of iRoundScore vsn + (\<Sum>k\<leftarrow>ks. iRoundSeed (vsn ! k)) \<le> INT_MAX"
  shows "\<exists>vsn'. dist_nodes vsn ks = Inr vsn' \<and> dist_to vsn vsn' (\<Sum>k\<leftarrow>ks. iRoundSeed (vsn ! k))
     (\<Union>k\<in>set ks. set (viReferrals (vsn ! k)))"
  using assms
proof (induction ks arbitrary: vsn)
  case Nil
  then show ?case by (simp add: dist_to_refl)
next
  case (Cons k ks)
  have rest: "0 \<le> (\<Sum>k\<leftarrow>ks. iRoundSeed (vsn ! k))"
    using Cons.prems by (intro sum_list_nonneg) (auto simp: node_ok_def)
  obtain v1 where v1: "dist_node vsn (vsn ! k) = Inr v1"
      and d1: "dist_to vsn v1 (iRoundSeed (vsn ! k)) (set (viReferrals (vsn ! k)))"
    using dist_node_ok [of vsn "vsn ! k"] Cons.prems rest by auto
  have len: "length v1 = length vsn" by (rule dist_to_length [OF d1])
  have st: "strip (v1 ! j) = strip (vsn ! j)" if "j < length vsn" for j
    using d1 that by (intro strip_eq_nth) (auto simp: dist_to_def)
  have sd: "iRoundSeed (v1 ! j) = iRoundSeed (vsn ! j)" "viReferrals (v1 ! j) = viReferrals (vsn ! j)"
    if "j < length vsn" for j using st [OF that] by (metis strip_fields)+
  have seeds: "map (\<lambda>j. iRoundSeed (v1 ! j)) ks = map (\<lambda>j. iRoundSeed (vsn ! j)) ks"
    using Cons.prems sd by auto
  have refs: "(\<Union>j\<in>set ks. set (viReferrals (v1 ! j))) = (\<Union>j\<in>set ks. set (viReferrals (vsn ! j)))"
    using Cons.prems sd by auto
  have ok: "\<forall>x\<in>set v1. node_ok (length v1) x \<and> 0 \<le> iRoundScore x"
    using Cons.prems d1 st len by (auto simp: dist_to_def in_set_conv_nth) (metis node_ok_strip nth_mem)
  obtain v2 where v2: "dist_nodes v1 ks = Inr v2"
      and d2: "dist_to v1 v2 (\<Sum>j\<leftarrow>ks. iRoundSeed (v1 ! j)) (\<Union>j\<in>set ks. set (viReferrals (v1 ! j)))"
    using Cons.IH [of v1] Cons.prems len ok sd d1 seeds by (auto simp: dist_to_def)
  have "dist_to vsn v2 (\<Sum>j\<leftarrow>k # ks. iRoundSeed (vsn ! j))
      (set (viReferrals (vsn ! k)) \<union> (\<Union>j\<in>set ks. set (viReferrals (vsn ! j))))"
    using dist_to_trans [OF d1 d2] by (simp add: seeds refs)
  with v1 v2 show ?case by auto
qed

section \<open>Rounds\<close>

text \<open>Between rounds no points are pending.\<close>

definition nodes_ok :: "scoreNode list \<Rightarrow> bool" where
  "nodes_ok vsn \<longleftrightarrow> (\<forall>n\<in>set vsn. node_ok (length vsn) n \<and> iRoundScore n = 0)"

definition same_graph :: "scoreNode list \<Rightarrow> scoreNode list \<Rightarrow> bool" where
  "same_graph vsn vsn' \<longleftrightarrow> map (\<lambda>n. (strValidator n, viReferrals n)) vsn = map (\<lambda>n. (strValidator n, viReferrals n)) vsn'"

definition finished :: "scoreNode \<Rightarrow> scoreNode" where
  "finished n = n\<lparr>iScore := iScore n + iRoundScore n, iRoundSeed := iRoundScore n, iRoundScore := 0\<rparr>"

lemma finish_round_ok:
  assumes "\<forall>n\<in>set vsn. in_int (iScore n + iRoundScore n)"
  shows "finish_round vsn = Inr (map finished vsn)"
  using assms by (induction vsn) (simp_all add: int_add_ok finished_def)

lemma total_of_nth: "(\<Sum>k\<leftarrow>[0..<length vsn]. f (vsn ! k)) = total_of f vsn"
  by (metis map_map comp_def map_nth map_eq_conv)

lemma zero_total: "\<forall>n\<in>set vsn. f n = 0 \<Longrightarrow> total_of f vsn = 0"
  by (induction vsn) auto

lemma scoreRound_eq:
  assumes "nodes_ok vsn" "50 * total_of iRoundSeed vsn \<le> INT_MAX"
    and "total_of iScore vsn + total_of iRoundSeed vsn \<le> INT_MAX"
  shows "\<exists>v. scoreRound vsn = Inr (list_ex (\<lambda>n. iRoundScore n \<noteq> 0) v, map finished v)
     \<and> dist_to vsn v (total_of iRoundSeed vsn) (\<Union>n\<in>set vsn. set (viReferrals n))"
proof -
  have ok: "\<forall>n\<in>set vsn. node_ok (length vsn) n \<and> 0 \<le> iRoundScore n" "total_of iRoundScore vsn = 0"
    using assms(1) by (auto simp: nodes_ok_def intro: zero_total)
  have seed: "0 \<le> iRoundSeed n" "iRoundSeed n \<le> total_of iRoundSeed vsn" if "n \<in> set vsn" for n
    using ok that total_of_member [of vsn iRoundSeed n] by (auto simp: node_ok_def)
  have s50: "50 * iRoundSeed (vsn ! k) \<le> INT_MAX" if "k < length vsn" for k
    using seed(2) [OF nth_mem [OF that]] assms(2) by linarith
  have un: "(\<Union>k\<in>{0..<length vsn}. set (viReferrals (vsn ! k))) = (\<Union>n\<in>set vsn. set (viReferrals n))"
    by (force simp: in_set_conv_nth)
  have s0: "0 \<le> total_of iRoundSeed vsn" using seed by (intro total_of_nonneg) auto
  obtain v where v: "dist_nodes vsn [0..<length vsn] = Inr v"
      and d: "dist_to vsn v (total_of iRoundSeed vsn) (\<Union>n\<in>set vsn. set (viReferrals n))"
    using dist_nodes_ok [of "[0..<length vsn]" vsn] ok assms seed s0
    by (auto simp: total_of_nth un s50)
  have "in_int (iScore n + iRoundScore n)" if "n \<in> set v" for n
  proof -
    have "total_of iScore v = total_of iScore vsn"
      using d unfolding dist_to_def by (metis (no_types, lifting) list.map_comp map_eq_conv comp_apply strip_fields(1))
    moreover have "\<forall>n\<in>set v. 0 \<le> iScore n"
      using d ok unfolding dist_to_def
      by (metis (no_types, lifting) in_set_conv_nth length_map node_ok_def nth_map strip_fields(1))
    moreover have "\<forall>n\<in>set v. 0 \<le> iRoundScore n" "total_of iRoundScore v \<le> total_of iRoundSeed vsn"
      using d ok by (simp_all add: dist_to_def)
    ultimately have "0 \<le> iScore n" "0 \<le> iRoundScore n" "iScore n + iRoundScore n \<le> INT_MAX"
      using that total_of_member [of v iScore n] total_of_member [of v iRoundScore n] assms by auto
    then show ?thesis by (simp add: in_int_def INT_MIN_def)
  qed
  with v d show ?thesis by (auto simp: scoreRound_def finish_round_ok)
qed

lemma same_strip:
  assumes "map strip v = map strip vsn"
  shows "total_of iScore v = total_of iScore vsn" "same_graph vsn v"
    "\<forall>n\<in>set vsn. node_ok (length vsn) n \<Longrightarrow> \<forall>n\<in>set v. node_ok (length v) n"
proof -
  have f: "map f v = map f vsn" if "\<And>n. f (strip n) = f n" for f :: "scoreNode \<Rightarrow> 'a"
    using arg_cong [OF assms, of "map f"] that by (simp add: comp_def)
  show "total_of iScore v = total_of iScore vsn" by (subst f) simp_all
  show "same_graph vsn v" unfolding same_graph_def by (subst f) simp_all
  have "length v = length vsn" using assms by (metis length_map)
  then show "\<forall>n\<in>set v. node_ok (length v) n" if "\<forall>n\<in>set vsn. node_ok (length vsn) n"
    using that assms by (metis (no_types, lifting) imageE image_eqI list.set_map node_ok_strip)
qed

lemma finished_props:
  assumes "\<forall>n\<in>set v. node_ok (length v) n \<and> 0 \<le> iRoundScore n"
  shows "nodes_ok (map finished v)" "same_graph v (map finished v)"
    "total_of iRoundSeed (map finished v) = total_of iRoundScore v"
    "total_of iScore (map finished v) = total_of iScore v + total_of iRoundScore v"
  using assms
  by (auto simp: nodes_ok_def node_ok_def finished_def same_graph_def comp_def sum_list_addf)

lemma list_ex_total:
  "\<forall>n\<in>set v. 0 \<le> f n \<Longrightarrow> list_ex (\<lambda>n. f n \<noteq> 0) v \<longleftrightarrow> total_of f v \<noteq> 0"
proof (induction v)
  case (Cons n v)
  have "0 \<le> total_of f v" using Cons.prems by (intro total_of_nonneg) simp
  with Cons show ?case by auto
qed simp

text \<open>The round as one lemma, from which all consequences for several rounds follow.\<close>

lemma scoreRound_step:
  assumes "nodes_ok vsn" and "50 * total_of iRoundSeed vsn \<le> INT_MAX"
    and "total_of iScore vsn + total_of iRoundSeed vsn \<le> INT_MAX"
  obtains vsn' where "scoreRound vsn = Inr (total_of iRoundSeed vsn' \<noteq> 0, vsn')" "nodes_ok vsn'"
    "same_graph vsn vsn'" "0 \<le> total_of iRoundSeed vsn'"
    "total_of iRoundSeed vsn' \<le> total_of iRoundSeed vsn"
    "total_of iScore vsn' = total_of iScore vsn + total_of iRoundSeed vsn'"
    "\<forall>k<length vsn. iScore (vsn ! k) \<le> iScore (vsn' ! k)"
    "\<forall>k<length vsn. (\<forall>n\<in>set vsn. int k \<notin> set (viReferrals n)) \<longrightarrow> iScore (vsn' ! k) = iScore (vsn ! k)"
proof -
  obtain v where v: "scoreRound vsn = Inr (list_ex (\<lambda>n. iRoundScore n \<noteq> 0) v, map finished v)"
      and d: "dist_to vsn v (total_of iRoundSeed vsn) (\<Union>n\<in>set vsn. set (viReferrals n))"
    using scoreRound_eq [OF assms] by blast
  have z: "total_of iRoundScore vsn = 0" using assms(1) by (auto simp: nodes_ok_def intro: zero_total)
  have st: "map strip v = map strip vsn" using d by (simp add: dist_to_def)
  have ok: "\<forall>n\<in>set v. node_ok (length v) n \<and> 0 \<le> iRoundScore n"
    using same_strip(3) [OF st] assms(1) d by (auto simp: nodes_ok_def dist_to_def)
  have g: "same_graph vsn (map finished v)"
    using same_strip(2) [OF st] finished_props(2) [OF ok] by (simp add: same_graph_def)
  have len: "length v = length vsn" by (rule dist_to_length [OF d])
  have sc: "iScore (v ! k) = iScore (vsn ! k)" if "k < length vsn" for k
    using strip_eq_nth [OF st that] by (metis strip_fields(1))
  show thesis
  proof (rule that [of "map finished v"])
    show "\<forall>k<length vsn. iScore (vsn ! k) \<le> iScore (map finished v ! k)"
      using ok len sc by (simp add: finished_def)
    show "\<forall>k<length vsn. (\<forall>n\<in>set vsn. int k \<notin> set (viReferrals n)) \<longrightarrow> iScore (map finished v ! k) = iScore (vsn ! k)"
    proof (intro allI impI)
      fix k assume k: "k < length vsn" and "\<forall>n\<in>set vsn. int k \<notin> set (viReferrals n)"
      then have "v ! k = vsn ! k" using d by (auto simp: dist_to_def)
      moreover have "iRoundScore (vsn ! k) = 0" using assms(1) k by (simp add: nodes_ok_def)
      ultimately show "iScore (map finished v ! k) = iScore (vsn ! k)" using k len by (simp add: finished_def)
    qed
  qed (use v d z finished_props [OF ok] same_strip(1) [OF st] list_ex_total [of v iRoundScore] ok g
      in \<open>auto simp: dist_to_def\<close>)
qed

lemma same_graph_trans: "same_graph a b \<Longrightarrow> same_graph b c \<Longrightarrow> same_graph a c"
  by (simp add: same_graph_def)

lemma same_graph_length: "same_graph a b \<Longrightarrow> length b = length a"
  unfolding same_graph_def by (metis length_map)

lemma same_graph_refs: "same_graph a b \<Longrightarrow> viReferrals ` set b = viReferrals ` set a"
proof -
  assume "same_graph a b"
  then have "map viReferrals a = map viReferrals b"
    unfolding same_graph_def by (metis (no_types, lifting) list.map_comp map_eq_conv comp_apply snd_conv)
  then show ?thesis by (metis list.set_map)
qed

lemma score_rounds_ok:
  assumes "nodes_ok vsn" "50 * total_of iRoundSeed vsn \<le> INT_MAX"
    and "total_of iScore vsn + int i * total_of iRoundSeed vsn \<le> INT_MAX"
  shows "\<exists>vsn'. score_rounds i bDist vsn = Inr vsn' \<and> nodes_ok vsn' \<and> same_graph vsn vsn'
     \<and> total_of iScore vsn' \<le> total_of iScore vsn + int i * total_of iRoundSeed vsn
     \<and> (\<forall>k<length vsn. iScore (vsn ! k) \<le> iScore (vsn' ! k))
     \<and> (\<forall>k<length vsn. (\<forall>n\<in>set vsn. int k \<notin> set (viReferrals n)) \<longrightarrow> iScore (vsn' ! k) = iScore (vsn ! k))"
  using assms
proof (induction i arbitrary: bDist vsn)
  case 0
  then show ?case by (simp add: same_graph_def)
next
  case (Suc i)
  let ?S = "total_of iRoundSeed vsn"
  have S: "0 \<le> ?S" using Suc.prems by (intro total_of_nonneg) (simp add: nodes_ok_def node_ok_def)
  have iS: "0 \<le> int i * ?S" using S by simp
  show ?case
  proof (cases bDist)
    case False
    then show ?thesis using Suc.prems S iS by (simp add: same_graph_def algebra_simps)
  next
    case True
    have first: "total_of iScore vsn + ?S \<le> INT_MAX" using Suc.prems(3) iS by (simp add: algebra_simps)
    obtain v where v: "scoreRound vsn = Inr (total_of iRoundSeed v \<noteq> 0, v)" "nodes_ok v" "same_graph vsn v"
      "total_of iRoundSeed v \<le> ?S" "total_of iScore v = total_of iScore vsn + total_of iRoundSeed v"
      "\<forall>k<length vsn. iScore (vsn ! k) \<le> iScore (v ! k)"
      "\<forall>k<length vsn. (\<forall>n\<in>set vsn. int k \<notin> set (viReferrals n)) \<longrightarrow> iScore (v ! k) = iScore (vsn ! k)"
      using scoreRound_step [OF Suc.prems(1,2) first] by metis
    have "int i * total_of iRoundSeed v \<le> int i * ?S" using v(4) by (intro mult_left_mono) auto
    then have bound: "total_of iScore v + int i * total_of iRoundSeed v \<le> total_of iScore vsn + int (Suc i) * ?S"
      using v(4,5) by (simp add: algebra_simps)
    obtain vsn' where w: "score_rounds i (total_of iRoundSeed v \<noteq> 0) v = Inr vsn'" "nodes_ok vsn'" "same_graph v vsn'"
      "total_of iScore vsn' \<le> total_of iScore v + int i * total_of iRoundSeed v"
      "\<forall>k<length v. iScore (v ! k) \<le> iScore (vsn' ! k)"
      "\<forall>k<length v. (\<forall>n\<in>set v. int k \<notin> set (viReferrals n)) \<longrightarrow> iScore (vsn' ! k) = iScore (v ! k)"
      using Suc.IH [OF v(2), of "total_of iRoundSeed v \<noteq> 0"] v(4) Suc.prems bound by auto
    have len: "length v = length vsn" by (rule same_graph_length [OF v(3)])
    have refs: "(\<forall>n\<in>set v. x \<notin> set (viReferrals n)) = (\<forall>n\<in>set vsn. x \<notin> set (viReferrals n))" for x
      using same_graph_refs [OF v(3)] by (metis (no_types, lifting) imageE image_eqI)
    show ?thesis
    proof (intro exI conjI)
      show "score_rounds (Suc i) bDist vsn = Inr vsn'" using True v(1) w(1) by simp
      show "total_of iScore vsn' \<le> total_of iScore vsn + int (Suc i) * ?S" using w(4) bound by simp
      show "\<forall>k<length vsn. iScore (vsn ! k) \<le> iScore (vsn' ! k)" using v(6) w(5) len by fastforce
      show "\<forall>k<length vsn. (\<forall>n\<in>set vsn. int k \<notin> set (viReferrals n)) \<longrightarrow> iScore (vsn' ! k) = iScore (vsn ! k)"
        using v(7) w(6) len refs by auto
    qed (use w(2) same_graph_trans [OF v(3) w(3)] in auto)
  qed
qed

section \<open>Properties\<close>





end
