(* ===== verification/UniqueNodes.thy ===== *)
theory UniqueNodes
  imports WalletDb NewcoinAddress Scoring
begin

text \<open>
  The state of \<^verbatim>\<open>src/UniqueNodeList/UniqueNodeList.cpp\<close>, its persistence in the wallet database and
  its two schedules: fetching the site files of the domains it was told about, at most ten at a time,
  and scoring after a fetch. What the code starts and does not wait for (https requests, timers, the
  connection pool's scan) is appended to \<open>outbox\<close>; the clock is an arbitrary sequence of readings. The
  handlers run one at a time, so the locks are not modelled, nor is the output on \<^verbatim>\<open>std::cerr\<close>.
\<close>

section \<open>State\<close>

text \<open>The handler that an https request calls when it is complete.\<close>

datatype reply =
    ResponseFetch string
  | ResponseValidators string address sections string
  | ResponseIps string address
  | ValidatorsResponse

datatype effect =
    ScoreTimer ptime
  | FetchTimer ptime
  | ScanRefresh
  | HttpsGet "string list" string reply

record unl =
  walletDB :: walletdb
  mtpScoreUpdated :: ptime
  mtpFetchUpdated :: ptime
  mUNL :: "string set"
  mtpScoreNext :: ptime
  mtpScoreStart :: ptime
  mFetchActive :: int
  mtpFetchNext :: ptime
  clock :: "nat \<Rightarrow> int"
  readings :: nat
  outbox :: "effect list"

record seedDomain =
  strDomain :: string
  naPublicKey :: address
  vsSource :: validatorSource
  tpNext :: ptime
  tpScan :: ptime
  tpFetch :: ptime
  iSha256 :: base_uint
  strComment :: string

text \<open>\<^verbatim>\<open>seedNode\<close> has the fields of \<^verbatim>\<open>seedDomain\<close> but the domain, which stays empty here.\<close>

type_synonym seedNode = seedDomain

text \<open>The default constructed struct. \<^verbatim>\<open>vsSource\<close> is not initialised; it is written before it is read.\<close>

definition seedDomain_new :: seedDomain where
  "seedDomain_new = \<lparr>strDomain = [], naPublicKey = NewcoinAddress_new, vsSource = CHR 0x00, tpNext = None, tpScan = None,
     tpFetch = None, iSha256 = uint_zero 8, strComment = []\<rparr>"

definition NODE_FETCH_JOBS :: int where "NODE_FETCH_JOBS = 10"
definition SCORE_DELAY_SECONDS :: int where "SCORE_DELAY_SECONDS = 5"

definition universal_time :: "(unl, int) prog" where
  "universal_time s = Some (Inr (clock s (readings s)), s\<lparr>readings := readings s + 1\<rparr>)"

definition emit :: "effect \<Rightarrow> (unl, unit) prog" where
  "emit e = change (\<lambda>s. s\<lparr>outbox := outbox s @ [e]\<rparr>)"

definition on_db :: "(walletdb \<Rightarrow> walletdb) \<Rightarrow> (unl, unit) prog" where
  "on_db f = change (\<lambda>s. s\<lparr>walletDB := f (walletDB s)\<rparr>)"

lemma mbind_time [simp]: "mbind universal_time f s = f (clock s (readings s)) (s\<lparr>readings := readings s + 1\<rparr>)"
  by (simp add: mbind_def universal_time_def)

lemma wp_time [wp_simps]: "wp universal_time Q s \<longleftrightarrow> Q (clock s (readings s)) (s\<lparr>readings := readings s + 1\<rparr>)"
  by (simp add: wp_def universal_time_def)

text \<open>A new \<^verbatim>\<open>UniqueNodeList\<close>.\<close>

definition unl_new :: "walletdb \<Rightarrow> (nat \<Rightarrow> int) \<Rightarrow> unl" where
  "unl_new db clk = \<lparr>walletDB = db, mtpScoreUpdated = None, mtpFetchUpdated = None, mUNL = {}, mtpScoreNext = None, mtpScoreStart = None,
     mFetchActive = 0, mtpFetchNext = None, clock = clk, readings = 0, outbox = []\<rparr>"

section \<open>Misc and TrustedNodes\<close>

definition trustedLoad :: "(unl, unit) prog" where
  "trustedLoad = change (\<lambda>s. s\<lparr>mUNL :=
     {getStrBinary (tn_PublicKey r) | r. r \<in> set (filter (\<lambda>r. tn_Score r \<noteq> 0) (TrustedNodes (walletDB s)))}\<rparr>)"

definition miscLoad :: "(unl, bool) prog" where
  "miscLoad = mbind (gets (\<lambda>s. Misc (walletDB s))) (\<lambda>row.
     mseq (change (\<lambda>s. s\<lparr>mtpFetchUpdated := ptFromSeconds (case row of None \<Rightarrow> - 1 | Some r \<Rightarrow> FetchUpdated r),
                         mtpScoreUpdated := ptFromSeconds (case row of None \<Rightarrow> - 1 | Some r \<Rightarrow> ScoreUpdated r)\<rparr>))
     (mseq trustedLoad (return True)))"

definition miscSave :: "(unl, bool) prog" where
  "miscSave = mbind (gets (\<lambda>s. \<lparr>ScoreUpdated = iToSeconds (mtpScoreUpdated s), FetchUpdated = iToSeconds (mtpFetchUpdated s)\<rparr>))
     (\<lambda>row. mseq (on_db (\<lambda>db. db\<lparr>Misc := Some row\<rparr>)) (return True))"

section \<open>The scoring schedule\<close>

definition scoreNext :: "bool \<Rightarrow> (unl, unit) prog" where
  "scoreNext bNow = mbind (gets (\<lambda>s. s)) (\<lambda>s.
     let bCanScore = (mtpScoreStart s = None \<and> mtpFetchUpdated s \<noteq> None);
         bDirty = ((mtpScoreUpdated s = None \<or> pt_le (mtpScoreUpdated s) (mtpFetchUpdated s))
            \<and> (mtpScoreNext s = None \<or> pt_less (mtpScoreNext s) (pt_plus (mtpFetchUpdated s) SCORE_DELAY_SECONDS)))
     in if \<not> bCanScore then return ()
        else if bNow \<or> bDirty then
          mbind universal_time (\<lambda>now.
          let t = Some (now + (if bNow then 0 else SCORE_DELAY_SECONDS)) in
          mseq (change (\<lambda>s. s\<lparr>mtpScoreNext := t\<rparr>)) (emit (ScoreTimer t)))
        else return ())"

definition nodeScore :: "(unl, unit) prog" where
  "nodeScore = scoreNext True"

definition fetchDirty :: "(unl, unit) prog" where
  "fetchDirty = mbind universal_time (\<lambda>now.
     mseq (change (\<lambda>s. s\<lparr>mtpFetchUpdated := Some now\<rparr>)) (mbind miscSave (\<lambda>_. scoreNext False)))"

section \<open>Seed domains\<close>

text \<open>\<^verbatim>\<open>db->getStr\<close> into an address: a failed parse leaves an unset address.\<close>

definition read_key :: "('k, 'b) address_env \<Rightarrow> sqlval \<Rightarrow> address \<Rightarrow> address result" where
  "read_key E v old = (if getNull v then Inr (na_clear old)
     else case setNodePublic E (getStr v) old of (Inl e, _) \<Rightarrow> Inl e | (Inr _, na) \<Rightarrow> Inr na)"

definition read_sha256 :: "sqlval \<Rightarrow> base_uint" where
  "read_sha256 v = (if getNull v then uint_zero 8 else uint_SetHex 8 (getStr v))"

definition getSeedDomains :: "('k, 'b) address_env \<Rightarrow> string \<Rightarrow> seedDomain \<Rightarrow> (unl, bool \<times> seedDomain) prog" where
  "getSeedDomains E domain dst = mbind (gets (\<lambda>s. sql_find sd_Domain (SqlBlob domain) (SeedDomains (walletDB s)))) (\<lambda>q.
     case q of
       None \<Rightarrow> return (False, dst)
     | Some r \<Rightarrow>
         mbind (lift (read_key E (sd_PublicKey r) (naPublicKey dst))) (\<lambda>na.
         return (True, \<lparr>strDomain = getStrBinary (sd_Domain r), naPublicKey = na,
           vsSource = first_char (getStrBinary (sd_Source r)), tpNext = ptFromSeconds (sd_Next r),
           tpScan = ptFromSeconds (sd_Scan r), tpFetch = ptFromSeconds (sd_Fetch r),
           iSha256 = read_sha256 (sd_Sha256 r), strComment = getStrBinary (sd_Comment r)\<rparr>)))"

text \<open>The statement of \<^verbatim>\<open>setSeedDomains\<close>.\<close>

definition storeSeedDomains :: "('k, 'b) address_env \<Rightarrow> seedDomain \<Rightarrow> (unl, unit) prog" where
  "storeSeedDomains E sd =
     mbind (lift (isValid E (naPublicKey sd))) (\<lambda>valid.
     mbind (if valid then mbind (lift_opt (humanNodePublic E (naPublicKey sd))) (\<lambda>h. return (SqlBlob h)) else return SqlNull) (\<lambda>k.
     on_db (\<lambda>db. db\<lparr>SeedDomains := sql_replace sd_Domain
       \<lparr>sd_Domain = SqlBlob (strDomain sd), sd_PublicKey = k, sd_Source = SqlBlob [vsSource sd],
        sd_Next = iToSeconds (tpNext sd), sd_Scan = iToSeconds (tpScan sd), sd_Fetch = iToSeconds (tpFetch sd),
        sd_Sha256 = SqlText (uint_GetHex (iSha256 sd)), sd_Comment = SqlBlob (strComment sd)\<rparr> (SeedDomains db)\<rparr>)))"

definition NODE_FILE_PATH :: string where "NODE_FILE_PATH = ''/newcoin.txt''"

definition fetchProcess :: "string \<Rightarrow> (unl, unit) prog" where
  "fetchProcess domain =
     emit (HttpsGet [''newcoin.'' @ domain, ''www.'' @ domain, domain] NODE_FILE_PATH (ResponseFetch domain))"

text \<open>The branch of \<^verbatim>\<open>fetchNext\<close> that fetches now.\<close>

definition fetchNow :: "('k, 'b) address_env \<Rightarrow> string \<Rightarrow> ptime \<Rightarrow> (unl, bool) prog" where
  "fetchNow E domain now =
     mseq (change (\<lambda>s. s\<lparr>mtpFetchNext := None\<rparr>))
     (mbind (getSeedDomains E domain seedDomain_new) (\<lambda>(bFound, sdCurrent).
      if \<not> bFound then throw Assert_failed
      else mseq (storeSeedDomains E (sdCurrent\<lparr>tpScan := now, tpNext := pt_plus now (7 * 24 * 3600)\<rparr>))
        (mseq (fetchProcess domain) (return True))))"

text \<open>One pass of \<^verbatim>\<open>fetchNext\<close>: whether it started a fetch and calls itself again.\<close>

definition fetchNext_step :: "('k, 'b) address_env \<Rightarrow> (unl, bool) prog" where
  "fetchNext_step E = mbind (gets (\<lambda>s. mFetchActive s = NODE_FETCH_JOBS)) (\<lambda>bFull.
     if bFull then return False
     else mbind (gets (\<lambda>s. sql_first sd_Next (SeedDomains (walletDB s)))) (\<lambda>q.
       case q of
         None \<Rightarrow> return False
       | Some r \<Rightarrow>
           let next = ptFromSeconds (sd_Next r); domain = getStrBinary (sd_Domain r) in
           mbind universal_time (\<lambda>t. let now = Some t in
           if domain = [] then return False
           else mbind (gets (\<lambda>s. mFetchActive s = NODE_FETCH_JOBS)) (\<lambda>bFull.
             mseq (if \<not> bFull \<and> pt_le next now then change (\<lambda>s. s\<lparr>mFetchActive := mFetchActive s + 1\<rparr>) else return ())
             (if bFull then return False
              else if pt_less now next then
                mseq (change (\<lambda>s. s\<lparr>mtpFetchNext := next\<rparr>)) (mseq (emit (FetchTimer next)) (return False))
              else fetchNow E domain now)))))"

partial_function (option) fetchNext :: "('k, 'b) address_env \<Rightarrow> (unl, unit) prog" where
  "fetchNext E s = (case fetchNext_step E s of
     None \<Rightarrow> None
   | Some (Inl e, s') \<Rightarrow> Some (Inl e, s')
   | Some (Inr again, s') \<Rightarrow> if again then fetchNext E s' else Some (Inr (), s'))"

definition fetchTimerHandler :: "('k, 'b) address_env \<Rightarrow> bool \<Rightarrow> (unl, unit) prog" where
  "fetchTimerHandler E err = (if \<not> err then fetchNext E else return ())"

definition fetchFinish :: "('k, 'b) address_env \<Rightarrow> (unl, unit) prog" where
  "fetchFinish E = mseq (change (\<lambda>s. s\<lparr>mFetchActive := mFetchActive s - 1\<rparr>)) (fetchNext E)"

definition unl_start :: "('k, 'b) address_env \<Rightarrow> (unl, unit) prog" where
  "unl_start E = mbind miscLoad (\<lambda>_. mseq (fetchNext E) (scoreNext False))"

definition setSeedDomains :: "('k, 'b) address_env \<Rightarrow> seedDomain \<Rightarrow> bool \<Rightarrow> (unl, unit) prog" where
  "setSeedDomains E sdSource bNext = mseq (storeSeedDomains E sdSource)
     (mbind (gets (\<lambda>s. mtpFetchNext s)) (\<lambda>next.
      if bNext \<and> (next = None \<or> pt_less (tpNext sdSource) next) then fetchNext E else return ()))"

definition to_lower :: "string \<Rightarrow> string" where
  "to_lower s = map (\<lambda>c. if of_char c \<ge> (65::nat) \<and> of_char c \<le> (90::nat) then char_of (of_char c + 32 :: nat) else c) s"

text \<open>The part of \<^verbatim>\<open>nodeAddDomain\<close> and \<^verbatim>\<open>nodeAddPublic\<close> after the lookup: promote the source, and
  schedule at once what was added by hand. The result is the entry and whether it changed.\<close>

definition promote :: "validatorSource \<Rightarrow> string \<Rightarrow> bool \<Rightarrow> seedDomain \<Rightarrow> (unl, bool \<times> seedDomain) prog" where
  "promote vsWhy comment bFound sd0 =
     mbind (if bFound then mbind (lift (iSourceScore vsWhy)) (\<lambda>a. mbind (lift (iSourceScore (vsSource sd0))) (\<lambda>b. return (a \<ge> b)))
            else return True) (\<lambda>up.
     let sd1 = (if up then sd0\<lparr>vsSource := vsWhy, strComment := comment\<rparr> else sd0) in
     if vsManual = vsWhy then mbind universal_time (\<lambda>now. return (True, sd1\<lparr>tpNext := Some now\<rparr>))
     else return (up, sd1))"

definition nodeAddDomain :: "('k, 'b) address_env \<Rightarrow> string \<Rightarrow> validatorSource \<Rightarrow> string \<Rightarrow> (unl, unit) prog" where
  "nodeAddDomain E domain vsWhy comment = (let domain = to_lower (trim domain) in
     mbind (getSeedDomains E domain seedDomain_new) (\<lambda>(bFound, sd).
     mbind (if bFound then return sd
            else mbind universal_time (\<lambda>now. return (sd\<lparr>strDomain := domain, tpNext := Some now\<rparr>))) (\<lambda>sd0.
     mbind (promote vsWhy comment bFound sd0) (\<lambda>(bChanged, sd').
     if bChanged then setSeedDomains E sd' True else return ()))))"

section \<open>Seed nodes\<close>

definition getSeedNodes :: "('k, 'b) address_env \<Rightarrow> address \<Rightarrow> seedNode \<Rightarrow> (unl, bool \<times> seedNode) prog" where
  "getSeedNodes E na dst =
     mbind (lift_opt (humanNodePublic E na)) (\<lambda>h. mbind (lift (quoted h)) (\<lambda>k.
     mbind (gets (\<lambda>s. sql_find sn_PublicKey k (SeedNodes (walletDB s)))) (\<lambda>q.
     case q of
       None \<Rightarrow> return (False, dst)
     | Some r \<Rightarrow>
         mbind (lift (read_key E (sn_PublicKey r) (naPublicKey dst))) (\<lambda>na.
         return (True, dst\<lparr>naPublicKey := na,
           vsSource := first_char (getStrBinary (sn_Source r)), tpNext := ptFromSeconds (sn_Next r),
           tpScan := ptFromSeconds (sn_Scan r), tpFetch := ptFromSeconds (sn_Fetch r),
           iSha256 := read_sha256 (sn_Sha256 r), strComment := getStrBinary (sn_Comment r)\<rparr>)))))"

definition setSeedNodes :: "('k, 'b) address_env \<Rightarrow> seedNode \<Rightarrow> bool \<Rightarrow> (unl, unit) prog" where
  "setSeedNodes E snSource bNext =
     mbind (lift (isValid E (naPublicKey snSource))) (\<lambda>valid.
     if \<not> valid then throw Assert_failed
     else mbind (lift_opt (humanNodePublic E (naPublicKey snSource))) (\<lambda>h. mbind (lift (quoted h)) (\<lambda>k.
       mbind (lift (quoted [vsSource snSource])) (\<lambda>src.
       mseq (on_db (\<lambda>db. db\<lparr>SeedNodes := sql_replace sn_PublicKey
         \<lparr>sn_PublicKey = k, sn_Source = src,
          sn_Next = iToSeconds (tpNext snSource), sn_Scan = iToSeconds (tpScan snSource), sn_Fetch = iToSeconds (tpFetch snSource),
          sn_Sha256 = SqlText (uint_GetHex (iSha256 snSource)), sn_Comment = SqlBlob (strComment snSource)\<rparr> (SeedNodes db)\<rparr>))
       fetchDirty))))"

definition nodeAddPublic :: "('k, 'b) address_env \<Rightarrow> address \<Rightarrow> validatorSource \<Rightarrow> string \<Rightarrow> (unl, unit) prog" where
  "nodeAddPublic E na vsWhy comment =
     mbind (getSeedNodes E na seedDomain_new) (\<lambda>(bFound, sn).
     mbind (if bFound then return sn
            else mbind universal_time (\<lambda>now. return (sn\<lparr>naPublicKey := na, tpNext := Some now\<rparr>))) (\<lambda>sn0.
     mbind (promote vsWhy comment bFound sn0) (\<lambda>(bChanged, sn').
     if bChanged then setSeedNodes E sn' True else return ())))"

text \<open>The key is spliced into the statement without quotes, so SQLite takes it for a column that does not
  exist, refuses to prepare the statement and deletes nothing.\<close>

definition nodeRemovePublic :: "('k, 'b) address_env \<Rightarrow> address \<Rightarrow> (unl, unit) prog" where
  "nodeRemovePublic E na = mbind (lift_opt (humanNodePublic E na)) (\<lambda>h. fetchDirty)"

definition nodeRemoveDomain :: "string \<Rightarrow> (unl, unit) prog" where
  "nodeRemoveDomain domain = (let domain = to_lower (trim domain) in
     mseq (on_db (\<lambda>db. db\<lparr>SeedDomains := sql_delete sd_Domain (SqlBlob domain) (SeedDomains db)\<rparr>)) fetchDirty)"

definition nodeReset :: "(unl, unit) prog" where
  "nodeReset = mseq (on_db (\<lambda>db. db\<lparr>SeedDomains := [], SeedNodes := []\<rparr>)) fetchDirty"

definition nodeInUNL :: "('k, 'b) address_env \<Rightarrow> address \<Rightarrow> (unl, bool) prog" where
  "nodeInUNL E na = mbind (lift_opt (humanNodePublic E na)) (\<lambda>h. gets (\<lambda>s. h \<in> mUNL s))"

text \<open>The public keys of the objects \<^verbatim>\<open>getUnlJson\<close> returns. It also asks for the column
  \<^verbatim>\<open>Comment\<close>, which no statement fills.\<close>

definition getUnlJson :: "(unl, (string \<times> string) list) prog" where
  "getUnlJson = gets (\<lambda>s. map (\<lambda>r. (getStrBinary (tn_PublicKey r), [])) (TrustedNodes (walletDB s)))"


section \<open>Fetch slots\<close>

text \<open>The requests under way that hold one of the ten fetch slots: the fetch of a site file and of the two
  lists it may refer to.\<close>

fun holds_slot :: "effect \<Rightarrow> bool" where
  "holds_slot (HttpsGet _ _ ValidatorsResponse) = False"
| "holds_slot (HttpsGet _ _ _) = True"
| "holds_slot _ = False"

definition pending :: "unl \<Rightarrow> int" where
  "pending s = int (length (filter holds_slot (outbox s)))"

text \<open>\<open>slots k s\<close>: \<^verbatim>\<open>mFetchActive\<close> counts the requests under way, and \<open>k\<close> more that are being handled.\<close>

definition slots :: "int \<Rightarrow> unl \<Rightarrow> bool" where
  "slots k s \<longleftrightarrow> mFetchActive s = pending s + k \<and> mFetchActive s \<le> NODE_FETCH_JOBS"

lemma slots_other [simp]:
  "slots k (s\<lparr>walletDB := x\<rparr>) = slots k s" "slots k (s\<lparr>mtpScoreUpdated := t\<rparr>) = slots k s"
  "slots k (s\<lparr>mtpFetchUpdated := t\<rparr>) = slots k s" "slots k (s\<lparr>mUNL := m\<rparr>) = slots k s"
  "slots k (s\<lparr>mtpScoreNext := t\<rparr>) = slots k s" "slots k (s\<lparr>mtpScoreStart := t\<rparr>) = slots k s"
  "slots k (s\<lparr>mtpFetchNext := t\<rparr>) = slots k s" "slots k (s\<lparr>readings := n\<rparr>) = slots k s"
  by (simp_all add: slots_def pending_def)

lemma slots_emit: "\<not> holds_slot e \<Longrightarrow> slots k (s\<lparr>outbox := outbox s @ [e]\<rparr>) = slots k s"
  by (simp add: slots_def pending_def)

lemma keeps_slots_basic [keeps_rules]:
  "keeps (slots k) universal_time" "keeps (slots k) (on_db f)" "\<not> holds_slot e \<Longrightarrow> keeps (slots k) (emit e)"
  by (auto simp: keeps_def wp_def universal_time_def on_db_def emit_def slots_emit)

lemma keeps_slots_sched [keeps_rules]:
  "keeps (slots k) miscSave" "keeps (slots k) (scoreNext b)"
  unfolding miscSave_def scoreNext_def Let_def by (intro keeps_rules keeps_change; simp)+

lemma keeps_slots_dirty [keeps_rules]: "keeps (slots k) fetchDirty"
  unfolding fetchDirty_def by (intro keeps_rules keeps_change; simp)

lemma keeps_slots_store [keeps_rules]:
  "keeps (slots k) (getSeedDomains E d x)" "keeps (slots k) (storeSeedDomains E y)"
  "keeps (slots k) (getSeedNodes E na z)"
  unfolding getSeedDomains_def storeSeedDomains_def getSeedNodes_def by (intro keeps_rules)+


lemma keeps_active:
  "keeps (\<lambda>s. mFetchActive s = a \<and> outbox s = ob) (getSeedDomains E d x)"
  "keeps (\<lambda>s. mFetchActive s = a \<and> outbox s = ob) (storeSeedDomains E y)"
  unfolding getSeedDomains_def storeSeedDomains_def on_db_def by (intro keeps_rules keeps_change; simp)+

text \<open>Starting a fetch takes a slot and puts one request under way.\<close>

abbreviation fetch_request :: "string \<Rightarrow> effect" where
  "fetch_request d \<equiv> HttpsGet [''newcoin.'' @ d, ''www.'' @ d, d] NODE_FILE_PATH (ResponseFetch d)"

lemma fetchNow_active:
  "wp (fetchNow E d now) (\<lambda>again t. again \<and> mFetchActive t = mFetchActive s \<and> outbox t = outbox s @ [fetch_request d]) s"
  unfolding fetchNow_def wp_simps
  by (rule keeps_wp [OF keeps_active(1), of _ "mFetchActive s" "outbox s"])
    (auto simp: wp_simps fetchProcess_def emit_def split: prod.split
      intro!: keeps_wp [OF keeps_active(2), of _ "mFetchActive s" "outbox s"])

lemma fetchNext_step_active:
  assumes "fetchNext_step E s = Some (Inr again, t)"
  shows "if again then mFetchActive s \<noteq> NODE_FETCH_JOBS \<and> mFetchActive t = mFetchActive s + 1
      \<and> (\<exists>d. outbox t = outbox s @ [fetch_request d])
    else mFetchActive t = mFetchActive s \<and> (outbox t = outbox s \<or> (\<exists>n. outbox t = outbox s @ [FetchTimer n]))"
proof -
  have "wp (fetchNext_step E) (\<lambda>again t. if again then mFetchActive s \<noteq> NODE_FETCH_JOBS \<and> mFetchActive t = mFetchActive s + 1
      \<and> (\<exists>d. outbox t = outbox s @ [fetch_request d])
    else mFetchActive t = mFetchActive s \<and> (outbox t = outbox s \<or> (\<exists>n. outbox t = outbox s @ [FetchTimer n]))) s"
    unfolding fetchNext_step_def
    by (auto simp: wp_simps Let_def emit_def pt_le_def
      split: option.split intro!: wp_conseq [OF fetchNow_active])
  from wpD [OF this assms] show ?thesis .
qed


subsection \<open>Fetching returns\<close>

lemma humanNodePublic_returns: "env_laws E \<Longrightarrow> \<exists>r. humanNodePublic E d = Some r"
  using na_ToString_returns [of E d] by (auto simp: humanNodePublic_def)

lemma returns_time [returns_rules]: "returns universal_time" "returns (emit e)" "returns (on_db f)"
  by (simp_all add: returns_def universal_time_def emit_def on_db_def)

lemma fetchNext_step_returns: "env_laws E \<Longrightarrow> returns (fetchNext_step E)"
  unfolding fetchNext_step_def fetchNow_def getSeedDomains_def storeSeedDomains_def fetchProcess_def Let_def
  by (intro returns_rules returns_lift_opt humanNodePublic_returns)

lemma fetchNext_runs:
  assumes "env_laws E" "mFetchActive s \<le> NODE_FETCH_JOBS"
  shows "\<exists>r t. fetchNext E s = Some (r, t) \<and> (r = Inr () \<longrightarrow>
    (\<exists>ds. mFetchActive t = mFetchActive s + int (length ds) \<and> mFetchActive t \<le> NODE_FETCH_JOBS
      \<and> filter holds_slot (outbox t) = filter holds_slot (outbox s) @ map fetch_request ds)
    \<and> (\<exists>s'. fetchNext_step E s' = Some (Inr False, t)))"
  using assms(2)
proof (induction "nat (NODE_FETCH_JOBS - mFetchActive s)" arbitrary: s rule: less_induct)
  case less
  obtain q u where q: "fetchNext_step E s = Some (q, u)" using fetchNext_step_returns [OF assms(1)] unfolding returns_def by blast
  show ?case
  proof (cases q)
    case (Inl e)
    then show ?thesis using q by (subst fetchNext.simps) simp
  next
    case (Inr again)
    show ?thesis
    proof (cases again)
      case False
      then have "fetchNext E s = Some (Inr (), u)" using q Inr by (subst fetchNext.simps) simp
      moreover have "mFetchActive u = mFetchActive s" "filter holds_slot (outbox u) = filter holds_slot (outbox s)"
        using fetchNext_step_active [of E s again u] q Inr False by auto
      ultimately show ?thesis using q Inr False less.prems by (intro exI [of _ "Inr ()"] exI [of _ u]) (auto intro!: exI [of _ "[]"])
    next
      case True
      then have e: "fetchNext E s = fetchNext E u" using q Inr by (subst fetchNext.simps) simp
      obtain d where a: "mFetchActive s \<noteq> NODE_FETCH_JOBS" "mFetchActive u = mFetchActive s + 1" "outbox u = outbox s @ [fetch_request d]"
        using fetchNext_step_active [of E s again u] q Inr True by auto
      then have "nat (NODE_FETCH_JOBS - mFetchActive u) < nat (NODE_FETCH_JOBS - mFetchActive s)" "mFetchActive u \<le> NODE_FETCH_JOBS"
        using less.prems by auto
      from less.hyps [OF this] obtain r t where t: "fetchNext E u = Some (r, t)" "r = Inr () \<longrightarrow>
        (\<exists>ds. mFetchActive t = mFetchActive u + int (length ds) \<and> mFetchActive t \<le> NODE_FETCH_JOBS
          \<and> filter holds_slot (outbox t) = filter holds_slot (outbox u) @ map fetch_request ds)
        \<and> (\<exists>s'. fetchNext_step E s' = Some (Inr False, t))" by blast
      have "\<exists>ds. mFetchActive t = mFetchActive s + int (length ds) \<and> mFetchActive t \<le> NODE_FETCH_JOBS
          \<and> filter holds_slot (outbox t) = filter holds_slot (outbox s) @ map fetch_request ds" if r: "r = Inr ()"
      proof -
        from t(2) r obtain ds where "mFetchActive t = mFetchActive u + int (length ds)" "mFetchActive t \<le> NODE_FETCH_JOBS"
          "filter holds_slot (outbox t) = filter holds_slot (outbox u) @ map fetch_request ds" by blast
        then show ?thesis using a by (intro exI [of _ "d # ds"]) simp
      qed
      with t e show ?thesis by auto
    qed
  qed
qed

lemma fetchNext_slots: "env_laws E \<Longrightarrow> keeps (slots k) (fetchNext E)"
proof (rule keepsI)
  fix s assume E: "env_laws E" and s: "slots k s"
  then have "mFetchActive s \<le> NODE_FETCH_JOBS" by (simp add: slots_def)
  from fetchNext_runs [OF E this] s show "wp (fetchNext E) (\<lambda>_. slots k) s"
    by (auto simp: wp_def slots_def pending_def)
qed

text \<open>Where a chain of passes stops.\<close>

lemma fetchNext_step_stops:
  assumes "fetchNext_step E s = Some (Inr False, t)"
  shows "mFetchActive t = NODE_FETCH_JOBS \<or> SeedDomains (walletDB t) = []
    \<or> (\<exists>r\<in>set (SeedDomains (walletDB t)). getStrBinary (sd_Domain r) = [])
    \<or> (\<exists>n. mtpFetchNext t = Some n \<and> clock t (readings t - 1) < n \<and> (\<forall>r\<in>set (SeedDomains (walletDB t)). n \<le> sd_Next r)
        \<and> outbox t \<noteq> [] \<and> last (outbox t) = FetchTimer (Some n))"
proof -
  have "wp (fetchNext_step E) (\<lambda>again t. \<not> again \<longrightarrow> mFetchActive t = NODE_FETCH_JOBS \<or> SeedDomains (walletDB t) = []
    \<or> (\<exists>r\<in>set (SeedDomains (walletDB t)). getStrBinary (sd_Domain r) = [])
    \<or> (\<exists>n. mtpFetchNext t = Some n \<and> clock t (readings t - 1) < n \<and> (\<forall>r\<in>set (SeedDomains (walletDB t)). n \<le> sd_Next r)
        \<and> outbox t \<noteq> [] \<and> last (outbox t) = FetchTimer (Some n))) s"
    unfolding fetchNext_step_def
    by (auto simp: wp_simps Let_def emit_def pt_le_def ptFromSeconds_def sql_first_None
      split: option.split if_splits intro!: wp_conseq [OF fetchNow_active] dest!: sql_first_Some)
  from wpD [OF this assms] show ?thesis by simp
qed


section \<open>What is stored is read back\<close>

lemma read_sha256_GetHex:
  assumes "length (pn u) = 8"
  shows "read_sha256 (SqlText (uint_GetHex u)) = u"
proof -
  have "length (strHex (uint_bytes u)) = 2 * (4 * length (pn u))" by (simp add: uint_size_def)
  moreover have "c_str (c_str x) = c_str x" for x by (simp add: c_str_def)
  ultimately show ?thesis
    using assms
    by (simp add: read_sha256_def getNull_def getStr_def uint_SetHex_def uint_GetHex_def Let_def uint_size_def SetHex_text_strHex)
qed

text \<open>The text of an address survives \<^verbatim>\<open>char*\<close> and single quotes.\<close>

lemma na_text_plain:
  assumes "env_laws E" "short_data d" "na_ToString E d = Some (Inr h)"
  shows "c_str h = h" "quoted h = Inr (SqlText h)"
proof -
  let ?v = "(nVersion d # vchData d) @ checksum (SHA256 E) (nVersion d # vchData d)"
  have h: "h = text58 ?v" using assms(3) na_ToString_text [OF assms(1,2)] by simp
  then show "c_str h = h" by (simp only: c_str_text58)
  have "set pszBase58 \<inter> {CHR 0x27} = {}" by code_simp
  moreover have "set (text58 ?v) \<subseteq> set pszBase58"
    using digits58_bound [of "bytes_val ?v"] by (auto simp: text58_def digit58_def)
  ultimately have "CHR 0x27 \<notin> set h" using h by blast
  then show "quoted h = Inr (SqlText h)" by (simp add: quoted_def)
qed

text \<open>An entry as the code builds it: no key yet or a valid node key, times the database can hold, a
  256-bit checksum.\<close>

definition storable_time :: "ptime \<Rightarrow> bool" where
  "storable_time t \<longleftrightarrow> (\<forall>n. t = Some n \<longrightarrow> 0 \<le> n \<and> in_int n)"

definition node_key :: "('k, 'b) address_env \<Rightarrow> address \<Rightarrow> bool" where
  "node_key E na \<longleftrightarrow> nVersion na = VER_NODE_PUBLIC \<and> short_data na \<and> isValid E na = Inr True"

definition storable :: "('k, 'b) address_env \<Rightarrow> seedDomain \<Rightarrow> bool" where
  "storable E sd \<longleftrightarrow> (naPublicKey sd = NewcoinAddress_new \<or> node_key E (naPublicKey sd))
     \<and> storable_time (tpNext sd) \<and> storable_time (tpScan sd) \<and> storable_time (tpFetch sd) \<and> length (pn (iSha256 sd)) = 8"

lemma node_key_human:
  assumes "env_laws E" "node_key E na"
  shows "\<exists>h. humanNodePublic E na = Some (Inr h) \<and> quoted h = Inr (SqlText h)
    \<and> (\<forall>old. read_key E (SqlText h) old = Inr na \<and> read_key E (SqlBlob h) old = Inr na)"
proof -
  have p: "env_laws E \<and> short_data na" and v: "nVersion na = VER_NODE_PUBLIC" using assms by (auto simp: node_key_def)
  obtain h where h: "na_ToString E na = Some (Inr h)" using b58.prints [OF p] by blast
  then have hh: "humanNodePublic E na = Some (Inr h)" using v by (simp add: humanNodePublic_def)
  have c: "c_str h = h" "quoted h = Inr (SqlText h)" using na_text_plain [OF _ _ h] p by auto
  have "setNodePublic E h old = (Inr True, na)" for old using node_public.set_human_text [OF p h] v by simp
  then show ?thesis using hh c by (auto simp: read_key_def getNull_def getStr_def)
qed

lemma isValid_new: "isValid E NewcoinAddress_new = Inr False"
  by (simp add: isValid_def NewcoinAddress_new_def)

definition domain_row :: "sqlval \<Rightarrow> seedDomain \<Rightarrow> SeedDomains_row" where
  "domain_row k sd = \<lparr>sd_Domain = SqlBlob (strDomain sd), sd_PublicKey = k, sd_Source = SqlBlob [vsSource sd],
     sd_Next = iToSeconds (tpNext sd), sd_Scan = iToSeconds (tpScan sd), sd_Fetch = iToSeconds (tpFetch sd),
     sd_Sha256 = SqlText (uint_GetHex (iSha256 sd)), sd_Comment = SqlBlob (strComment sd)\<rparr>"

lemma storeSeedDomains_row:
  assumes "env_laws E" "storable E sd"
  shows "\<exists>k. storeSeedDomains E sd s = Some (Inr (), s\<lparr>walletDB := (walletDB s)\<lparr>SeedDomains :=
      sql_replace sd_Domain (domain_row k sd) (SeedDomains (walletDB s))\<rparr>\<rparr>) \<and> (\<forall>old. read_key E k old = Inr (naPublicKey sd))"
proof (cases "naPublicKey sd = NewcoinAddress_new")
  case True
  then have "\<forall>old. read_key E SqlNull old = Inr (naPublicKey sd)"
    by (simp add: read_key_def getNull_def na_clear_def NewcoinAddress_new_def)
  with True show ?thesis
    by (intro exI [of _ SqlNull]) (simp add: storeSeedDomains_def isValid_new on_db_def domain_row_def)
next
  case False
  then have k: "node_key E (naPublicKey sd)" using assms(2) by (simp add: storable_def)
  from node_key_human [OF assms(1) k] obtain h where "humanNodePublic E (naPublicKey sd) = Some (Inr h)"
    "\<forall>old. read_key E (SqlBlob h) old = Inr (naPublicKey sd)" by blast
  moreover have "isValid E (naPublicKey sd) = Inr True" using k by (simp add: node_key_def)
  ultimately show ?thesis by (intro exI [of _ "SqlBlob h"]) (simp add: storeSeedDomains_def on_db_def domain_row_def)
qed

lemma storable_times: "storable_time t \<Longrightarrow> ptFromSeconds (iToSeconds t) = t"
  by (auto simp: storable_time_def intro: seconds_roundtrip')

text \<open>C20: An entry stored with \<^verbatim>\<open>setSeedDomains\<close> is what \<^verbatim>\<open>getSeedDomains\<close> returns for its
  domain, every field of it, and the entries of other domains are as before.\<close>

theorem seed_domain_roundtrip:
  assumes "env_laws E" and "storable E sd"
  shows "\<exists>t. setSeedDomains E sd False s = Some (Inr (), t) \<and> getSeedDomains E (strDomain sd) x t = Some (Inr (True, sd), t)
    \<and> (d \<noteq> strDomain sd \<longrightarrow> map_option fst (getSeedDomains E d x t) = map_option fst (getSeedDomains E d x s))"
proof -
  obtain k where k: "storeSeedDomains E sd s = Some (Inr (), s\<lparr>walletDB := (walletDB s)\<lparr>SeedDomains :=
      sql_replace sd_Domain (domain_row k sd) (SeedDomains (walletDB s))\<rparr>\<rparr>)" "\<And>old. read_key E k old = Inr (naPublicKey sd)"
    using storeSeedDomains_row [OF assms] by blast
  let ?t = "s\<lparr>walletDB := (walletDB s)\<lparr>SeedDomains := sql_replace sd_Domain (domain_row k sd) (SeedDomains (walletDB s))\<rparr>\<rparr>"
  have key: "sd_Domain (domain_row k sd) = SqlBlob (strDomain sd)" by (simp add: domain_row_def)
  have "setSeedDomains E sd False s = Some (Inr (), ?t)" using k by (simp add: setSeedDomains_def mseq_return)
  moreover have "getSeedDomains E (strDomain sd) x ?t = Some (Inr (True, sd), ?t)"
    using assms(2) k(2) sd.look_put [of "domain_row k sd" "SqlBlob (strDomain sd)"]
    by (simp add: getSeedDomains_def key storable_def storable_times read_sha256_GetHex) (simp add: domain_row_def first_char_def storable_times read_sha256_GetHex)
  moreover have "map_option fst (getSeedDomains E d x ?t) = map_option fst (getSeedDomains E d x s)" if "d \<noteq> strDomain sd"
    using that sd.look_put [of "domain_row k sd" "SqlBlob d"]
    by (auto simp: getSeedDomains_def key mbind_def lift_def split: option.split sum.split)
  ultimately show ?thesis by blast
qed


section \<open>Adding and removing\<close>

lemma fetchDirty_runs:
  "\<exists>t m. fetchDirty s = Some (Inr (), t) \<and> walletDB t = (walletDB s)\<lparr>Misc := m\<rparr> \<and> mtpFetchUpdated t = Some (clock s (readings s))"
  by (auto simp: fetchDirty_def miscSave_def scoreNext_def universal_time_def on_db_def emit_def Let_def mbind_def mseq_def)

definition known_source :: "sqlval \<Rightarrow> bool" where
  "known_source v \<longleftrightarrow> (\<exists>c b. v = SqlText [c] \<and> iSourceScore c = Inr b)"

lemma known_source_plain: "iSourceScore c = Inr b \<Longrightarrow> quoted [c] = Inr (SqlText [c])"
  by (auto simp: iSourceScore_def vs_defs quoted_def split: if_splits)

text \<open>The source kept for a node: the better one, and the new one when they are equal.\<close>

definition better_source :: "validatorSource \<Rightarrow> sqlval \<Rightarrow> validatorSource" where
  "better_source why v = (let c = first_char (getStrBinary v) in
     case (iSourceScore why, iSourceScore c) of (Inr a, Inr b) \<Rightarrow> if a \<ge> b then why else c | _ \<Rightarrow> why)"

lemma setSeedNodes_runs:
  assumes "env_laws E" "node_key E (naPublicKey sn)" "humanNodePublic E (naPublicKey sn) = Some (Inr h)"
    "quoted [vsSource sn] = Inr src"
  shows "\<exists>t r. setSeedNodes E sn b s = Some (Inr (), t) \<and> sn_PublicKey r = SqlText h \<and> sn_Source r = src
    \<and> SeedNodes (walletDB t) = sql_replace sn_PublicKey r (SeedNodes (walletDB s))"
proof -
  let ?r = "\<lparr>sn_PublicKey = SqlText h, sn_Source = src, sn_Next = iToSeconds (tpNext sn), sn_Scan = iToSeconds (tpScan sn),
    sn_Fetch = iToSeconds (tpFetch sn), sn_Sha256 = SqlText (uint_GetHex (iSha256 sn)), sn_Comment = SqlBlob (strComment sn)\<rparr>"
  let ?u = "s\<lparr>walletDB := (walletDB s)\<lparr>SeedNodes := sql_replace sn_PublicKey ?r (SeedNodes (walletDB s))\<rparr>\<rparr>"
  have v: "isValid E (naPublicKey sn) = Inr True" using assms(2) by (simp add: node_key_def)
  have q: "quoted h = Inr (SqlText h)" using node_key_human [OF assms(1,2)] assms(3) by auto
  obtain t m where t: "fetchDirty ?u = Some (Inr (), t)" "walletDB t = (walletDB ?u)\<lparr>Misc := m\<rparr>" using fetchDirty_runs by blast
  have "setSeedNodes E sn b s = Some (Inr (), t)"
    using t(1) by (simp add: setSeedNodes_def v assms(3,4) q on_db_def)
  then show ?thesis using t(2) by (intro exI [of _ t] exI [of _ ?r]) simp
qed

text \<open>C19: Adding a node key stores it under its text with the better of the old and the new source, so
  that its trust is never lowered, and leaves every other node as it was.\<close>

theorem nodeAddPublic_promotes:
  assumes "env_laws E" and "node_key E na" and "humanNodePublic E na = Some (Inr h)" and "iSourceScore why = Inr a"
    and "\<forall>r\<in>set (SeedNodes (walletDB s)). known_source (sn_Source r)"
  shows "\<exists>t. nodeAddPublic E na why comment s = Some (Inr (), t)
    \<and> map_option sn_Source (sql_find sn_PublicKey (SqlText h) (SeedNodes (walletDB t)))
        = Some (SqlText [case sql_find sn_PublicKey (SqlText h) (SeedNodes (walletDB s)) of
            None \<Rightarrow> why | Some r \<Rightarrow> better_source why (sn_Source r)])
    \<and> (\<forall>k. k \<noteq> h \<longrightarrow> sql_find sn_PublicKey (SqlText k) (SeedNodes (walletDB t))
        = sql_find sn_PublicKey (SqlText k) (SeedNodes (walletDB s)))"
proof -
  have q: "quoted h = Inr (SqlText h)" and rk: "\<And>old. read_key E (SqlText h) old = Inr na"
    using node_key_human [OF assms(1,2)] assms(3) by auto
  have put: "\<exists>t. setSeedNodes E sn True u = Some (Inr (), t)
      \<and> map_option sn_Source (sql_find sn_PublicKey (SqlText h) (SeedNodes (walletDB t))) = Some (SqlText [c])
      \<and> (\<forall>k. k \<noteq> h \<longrightarrow> sql_find sn_PublicKey (SqlText k) (SeedNodes (walletDB t))
        = sql_find sn_PublicKey (SqlText k) (SeedNodes (walletDB s)))"
    if "walletDB u = walletDB s" "naPublicKey sn = na" "vsSource sn = c" "iSourceScore c = Inr b" for sn u c b
  proof -
    note prem = that
    obtain t r where t: "setSeedNodes E sn True u = Some (Inr (), t)" "sn_PublicKey r = SqlText h" "sn_Source r = SqlText [c]"
      "SeedNodes (walletDB t) = sql_replace sn_PublicKey r (SeedNodes (walletDB u))"
      using setSeedNodes_runs [OF assms(1), of sn h "SqlText [c]" True u] prem assms(2,3) known_source_plain [OF prem(4)] by auto
    then show ?thesis using prem(1) sn.look_put [of r] by (intro exI [of _ t]) simp
  qed
  show ?thesis
  proof (cases "sql_find sn_PublicKey (SqlText h) (SeedNodes (walletDB s))")
    case None
    define sn0 where "sn0 = seedDomain_new\<lparr>naPublicKey := na, tpNext := Some (clock s (readings s)), vsSource := why, strComment := comment\<rparr>"
    define u where "u = s\<lparr>readings := readings s + 1\<rparr>"
    have get: "getSeedNodes E na seedDomain_new s = Some (Inr (False, seedDomain_new), s)"
      by (simp add: getSeedNodes_def assms(3) q None)
    have step: "mbind (getSeedNodes E na seedDomain_new) f s = f (False, seedDomain_new) s" for f :: "_ \<Rightarrow> (unl, unit) prog"
      using get by (rule mbind_return [where m = "getSeedNodes E na seedDomain_new"])
    have "nodeAddPublic E na why comment s =
      (if vsManual = why then setSeedNodes E (sn0\<lparr>tpNext := Some (clock u (readings u))\<rparr>) True (u\<lparr>readings := readings u + 1\<rparr>)
       else setSeedNodes E sn0 True u)"
      unfolding nodeAddPublic_def
      by (subst step) (simp add: promote_def Let_def sn0_def u_def)
    then show ?thesis
      using put [of u sn0 why a] put [of "u\<lparr>readings := readings u + 1\<rparr>" "sn0\<lparr>tpNext := Some (clock u (readings u))\<rparr>" why a] assms(4) None
      by (simp add: sn0_def u_def split: if_splits)
  next
    case (Some r)
    then have r: "sn_PublicKey r = SqlText h" "r \<in> set (SeedNodes (walletDB s))" using sn.look_key by (auto simp: sql_eq_def)
    then obtain c b where c: "sn_Source r = SqlText [c]" "iSourceScore c = Inr b" using assms(5) by (auto simp: known_source_def)
    define sn0 where "sn0 = seedDomain_new\<lparr>naPublicKey := na, vsSource := c, tpNext := ptFromSeconds (sn_Next r),
           tpScan := ptFromSeconds (sn_Scan r), tpFetch := ptFromSeconds (sn_Fetch r),
           iSha256 := read_sha256 (sn_Sha256 r), strComment := getStrBinary (sn_Comment r)\<rparr>"
    define sn1 where "sn1 = sn0\<lparr>vsSource := why, strComment := comment\<rparr>"
    have get: "getSeedNodes E na seedDomain_new s = Some (Inr (True, sn0), s)"
      by (simp add: getSeedNodes_def assms(3) q Some r(1) rk c first_char_def sn0_def)
    have step: "mbind (getSeedNodes E na seedDomain_new) f s = f (True, sn0) s" for f :: "_ \<Rightarrow> (unl, unit) prog"
      using get by (rule mbind_return [where m = "getSeedNodes E na seedDomain_new"])
    have man: "b \<le> a" if "vsManual = why"
      using that assms(4) c(2) by (auto simp: iSourceScore_def vs_defs split: if_splits)
    have run: "nodeAddPublic E na why comment s =
      (if vsManual = why then setSeedNodes E (sn1\<lparr>tpNext := Some (clock s (readings s))\<rparr>) True (s\<lparr>readings := readings s + 1\<rparr>)
       else if b \<le> a then setSeedNodes E sn1 True s else Some (Inr (), s))"
      unfolding nodeAddPublic_def
      using man by (subst step) (simp add: promote_def Let_def assms(4) c sn0_def sn1_def)
    have bs: "better_source why (sn_Source r) = (if b \<le> a then why else c)"
      by (simp add: better_source_def c assms(4) first_char_def)
    show ?thesis
      using run put [of s sn1 why a] put [of "s\<lparr>readings := readings s + 1\<rparr>" "sn1\<lparr>tpNext := Some (clock s (readings s))\<rparr>" why a] assms(4) Some c(1) bs man
      by (cases "vsManual = why"; cases "b \<le> a") (simp_all add: sn0_def sn1_def)
  qed
qed



section \<open>Slots and the other operations\<close>

lemma keeps_slots_promote [keeps_rules]: "keeps (slots k) (promote w c b x)"
  unfolding promote_def Let_def by (intro keeps_rules)

lemma keeps_slots_domains:
  assumes "env_laws E"
  shows "keeps (slots k) (setSeedDomains E x b)" "keeps (slots k) (nodeAddDomain E d w c)"
proof -
  show 1: "keeps (slots k) (setSeedDomains E x b)" for x b
    unfolding setSeedDomains_def by (intro keeps_rules fetchNext_slots assms)
  show "keeps (slots k) (nodeAddDomain E d w c)"
    unfolding nodeAddDomain_def Let_def by (intro keeps_rules 1)
qed

lemma keeps_slots_nodes [keeps_rules]:
  "keeps (slots k) (setSeedNodes E x b)" "keeps (slots k) (nodeAddPublic E na w c)" "keeps (slots k) (nodeRemovePublic E na)"
  "keeps (slots k) (nodeRemoveDomain d)" "keeps (slots k) nodeReset" "keeps (slots k) nodeScore"
proof -
  show 1: "keeps (slots k) (setSeedNodes E x b)" for x b
    unfolding setSeedNodes_def by (intro keeps_rules)
  show "keeps (slots k) (nodeAddPublic E na w c)"
    unfolding nodeAddPublic_def by (intro keeps_rules 1)
  show "keeps (slots k) (nodeRemovePublic E na)" "keeps (slots k) (nodeRemoveDomain d)" "keeps (slots k) nodeReset" "keeps (slots k) nodeScore"
    unfolding nodeRemovePublic_def nodeRemoveDomain_def nodeReset_def nodeScore_def Let_def by (intro keeps_rules)+
qed

text \<open>\<^verbatim>\<open>fetchFinish\<close> gives one slot back.\<close>

lemma fetchFinish_slots: "env_laws E \<Longrightarrow> slots (k + 1) s \<Longrightarrow> wp (fetchFinish E) (\<lambda>_. slots k) s"
  unfolding fetchFinish_def wp_simps
  by (rule keeps_wp [OF fetchNext_slots]) (auto simp: slots_def pending_def)

section \<open>Fetching succeeds\<close>

text \<open>Rows as \<^verbatim>\<open>setSeedDomains\<close> writes them: the domain as a blob, no key or the text of a node key.\<close>

definition domain_rows_ok :: "('k, 'b) address_env \<Rightarrow> unl \<Rightarrow> bool" where
  "domain_rows_ok E s \<longleftrightarrow> (\<forall>r\<in>set (SeedDomains (walletDB s)). (\<exists>d. sd_Domain r = SqlBlob d)
     \<and> (sd_PublicKey r = SqlNull \<or> (\<exists>na. node_key E na \<and> (\<forall>old. read_key E (sd_PublicKey r) old = Inr na))))"

lemma domain_rows_other [simp]:
  "domain_rows_ok E (s\<lparr>readings := n\<rparr>) = domain_rows_ok E s" "domain_rows_ok E (s\<lparr>outbox := x\<rparr>) = domain_rows_ok E s"
  "domain_rows_ok E (s\<lparr>mtpFetchNext := t\<rparr>) = domain_rows_ok E s" "domain_rows_ok E (s\<lparr>mFetchActive := a\<rparr>) = domain_rows_ok E s"
  by (simp_all add: domain_rows_ok_def)

lemma fetchNow_succeeds:
  assumes "env_laws E" "domain_rows_ok E s" "r \<in> set (SeedDomains (walletDB s))"
  shows "\<exists>t. fetchNow E (getStrBinary (sd_Domain r)) now s = Some (Inr True, t) \<and> domain_rows_ok E t"
proof -
  let ?d = "getStrBinary (sd_Domain r)" and ?rows = "SeedDomains (walletDB s)"
  have "sd_Domain r = SqlBlob ?d" using assms(2,3) by (auto simp: domain_rows_ok_def)
  then have "sql_find sd_Domain (SqlBlob ?d) ?rows \<noteq> None"
    using assms(3) by (auto simp: sql_find_def find_None_iff sql_eq_def)
  then obtain x where x: "sql_find sd_Domain (SqlBlob ?d) ?rows = Some x" "x \<in> set ?rows" using sql_find_Some by fastforce
  obtain na where na: "read_key E (sd_PublicKey x) NewcoinAddress_new = Inr na" "na = NewcoinAddress_new \<or> node_key E na"
    using assms(2) x(2) by (auto simp: domain_rows_ok_def read_key_def getNull_def na_clear_def NewcoinAddress_new_def)
  let ?s = "s\<lparr>mtpFetchNext := None\<rparr>"
  obtain sd where sd: "getSeedDomains E ?d seedDomain_new ?s = Some (Inr (True, sd), ?s)" "naPublicKey sd = na"
    using x(1) na(1) by (simp add: getSeedDomains_def seedDomain_new_def)
  let ?sd = "sd\<lparr>tpScan := now, tpNext := pt_plus now (7 * 24 * 3600)\<rparr>"
  obtain k where k: "storeSeedDomains E ?sd ?s = Some (Inr (), ?s\<lparr>walletDB := (walletDB s)\<lparr>SeedDomains := sql_replace sd_Domain
      (domain_row k ?sd) ?rows\<rparr>\<rparr>)" "k = SqlNull \<or> (node_key E na \<and> (\<forall>old. read_key E k old = Inr na))"
    using na(2) node_key_human [OF assms(1), of na] sd(2)
    by (auto simp: storeSeedDomains_def isValid_new on_db_def domain_row_def node_key_def)
  have "domain_rows_ok E (?s\<lparr>walletDB := (walletDB s)\<lparr>SeedDomains := sql_replace sd_Domain (domain_row k ?sd) ?rows\<rparr>\<rparr>)"
    using assms(2) k(2) by (auto simp: domain_rows_ok_def sql_replace_def domain_row_def)
  moreover have "mbind (getSeedDomains E ?d seedDomain_new) f ?s = f (True, sd) ?s" for f :: "_ \<Rightarrow> (unl, bool) prog"
    using sd(1) by (rule mbind_return [where m = "getSeedDomains E ?d seedDomain_new"])
  moreover have "mseq (storeSeedDomains E ?sd) f ?s = f (?s\<lparr>walletDB := (walletDB s)\<lparr>SeedDomains := sql_replace sd_Domain
      (domain_row k ?sd) ?rows\<rparr>\<rparr>)" for f :: "(unl, bool) prog"
    using k(1) by (rule mseq_return [where m = "storeSeedDomains E ?sd"])
  ultimately show ?thesis by (simp add: fetchNow_def fetchProcess_def emit_def)
qed

lemma fetchNext_step_succeeds:
  assumes "env_laws E" "domain_rows_ok E s"
  shows "\<exists>b t. fetchNext_step E s = Some (Inr b, t) \<and> domain_rows_ok E t"
proof (cases "sql_first sd_Next (SeedDomains (walletDB s))")
  case None
  then show ?thesis using assms(2) by (auto simp: fetchNext_step_def)
next
  case (Some r)
  then have "r \<in> set (SeedDomains (walletDB s))" using sql_first_Some by fast
  then show ?thesis
    using fetchNow_succeeds [OF assms(1), of "s\<lparr>readings := readings s + 1, mFetchActive := mFetchActive s + 1\<rparr>" r "Some (clock s (readings s))"] Some assms(2)
    by (auto simp: fetchNext_step_def Let_def emit_def pt_le_def)
qed

lemma fetchNext_no_throw:
  assumes "env_laws E" "domain_rows_ok E s" "fetchNext E s = Some (r, t)"
  shows "r = Inr ()"
proof -
  have "env_laws E \<longrightarrow> domain_rows_ok E s \<longrightarrow> (\<exists>x. fst y = Inr x)" if "fetchNext E s = Some y" for s y
    using that
  proof (induction rule: fetchNext.raw_induct [rotated, consumes 1])
    case (1 fetchNext E s y)
    show ?case
    proof (intro impI)
      assume E: "env_laws E" and s: "domain_rows_ok E s"
      then obtain b u where u: "fetchNext_step E s = Some (Inr b, u)" "domain_rows_ok E u" using fetchNext_step_succeeds by blast
      then show "\<exists>x. fst y = Inr x" using 1(1) [of E u y] 1(2) E by (cases b) auto
    qed
  qed
  from this [OF assms(3)] assms show ?thesis by auto
qed

section \<open>Properties\<close>


text \<open>A key of the instance and a database with one domain.\<close>

definition toy_key :: address where
  "toy_key = CBase58Data 28 (5 # replicate 32 0)"

lemma node_key_toy: "node_key toy_env toy_key"
  by (simp add: node_key_def toy_key_def VER_NODE_PUBLIC_def short_data_def isValid_def toy_env_def toy_os_def CKey_new_def getNodePublic_def SetPubKey_def SetPubKey_ptr_def)

definition toy_domain :: seedDomain where
  "toy_domain = seedDomain_new\<lparr>strDomain := ''example.com'', naPublicKey := toy_key, vsSource := vsManual, tpNext := Some 100\<rparr>"

definition toy_unl :: unl where
  "toy_unl = unl_new (walletdb_empty\<lparr>SeedDomains := [domain_row SqlNull (toy_domain\<lparr>naPublicKey := NewcoinAddress_new\<rparr>)]\<rparr>) (\<lambda>_. 200)"

lemma toy_human: "\<exists>h. humanNodePublic toy_env toy_key = Some (Inr h)"
  using node_key_human [OF env_laws_toy node_key_toy] by blast


theorem seed_domain_roundtrip_witness:
  "\<exists>t. setSeedDomains toy_env toy_domain False toy_unl = Some (Inr (), t)
    \<and> getSeedDomains toy_env ''example.com'' seedDomain_new t = Some (Inr (True, toy_domain), t)"
proof -
  have "storable toy_env toy_domain"
    using node_key_toy by (simp add: storable_def toy_domain_def storable_time_def seedDomain_new_def uint_zero_def in_int_def INT_MIN_def INT_MAX_def)
  moreover have "strDomain toy_domain = ''example.com''" by (simp add: toy_domain_def)
  ultimately show ?thesis
    using seed_domain_roundtrip [OF env_laws_toy, of toy_domain toy_unl seedDomain_new "''example.com''"] by auto
qed

theorem nodeAddPublic_promotes_witness:
  "\<exists>h t. nodeAddPublic toy_env toy_key vsManual ''me'' toy_unl = Some (Inr (), t)
    \<and> map_option sn_Source (sql_find sn_PublicKey (SqlText h) (SeedNodes (walletDB t))) = Some (SqlText ''M'')"
proof -
  obtain h where h: "humanNodePublic toy_env toy_key = Some (Inr h)" using toy_human by blast
  have "iSourceScore vsManual = Inr 1500" by (simp add: iSourceScore_def vs_defs)
  moreover have "SeedNodes (walletDB toy_unl) = []" by (simp add: toy_unl_def unl_new_def walletdb_empty_def)
  ultimately show ?thesis
    using nodeAddPublic_promotes [OF env_laws_toy node_key_toy h, of vsManual 1500 toy_unl "''me''"]
    by (auto simp: sql_find_def vs_defs)
qed


end
