(* ===== verification/UnlProcess.thy ===== *)
theory UnlProcess
  imports UniqueNodes Serializer
begin

text \<open>
  The handlers of \<^verbatim>\<open>src/UniqueNodeList/UniqueNodeList.cpp\<close> that digest what was fetched or loaded: the
  site file of a domain, its lists of validators and addresses, and \<^verbatim>\<open>validators.txt\<close>. The parsers
  \<^verbatim>\<open>parseIpPort\<close> (\<^verbatim>\<open>shared/utils.cpp\<close>) and \<^verbatim>\<open>httpsParseUrl\<close> (\<^verbatim>\<open>shared/HttpsClient.cpp\<close>)
  are regular expressions; the matches they give are written out. The address parser of boost, the digest,
  the configuration and the file system are the fields of \<open>net_env\<close>.
\<close>

section \<open>Parsers\<close>

record net_env =
  from_string :: "string \<Rightarrow> string option"
  SHA512 :: "bytes \<Rightarrow> bytes"
  UNL_DEFAULT :: string
  VALIDATORS_SITE :: string
  VALIDATORS :: "string list"
  IPS :: "string list"
  file_exists :: "string \<Rightarrow> bool"
  is_regular_file :: "string \<Rightarrow> bool"
  open_file :: "string \<Rightarrow> string option"
  read_failed :: "string \<Rightarrow> bool"

definition is_digit :: "char \<Rightarrow> bool" where
  "is_digit c \<longleftrightarrow> of_char c \<ge> (48::nat) \<and> of_char c \<le> (57::nat)"

definition digits_val :: "string \<Rightarrow> nat" where
  "digits_val s = be_val 10 (map (\<lambda>c. of_char c - 48) s)"

text \<open>\<^verbatim>\<open>lexical_cast<int>\<close> of a string of digits.\<close>

definition lexical_cast_int :: "string \<Rightarrow> int result" where
  "lexical_cast_int s = (if int (digits_val s) \<le> INT_MAX then Inr (int (digits_val s)) else Inl Bad_lexical_cast)"

text \<open>The groups of \<^verbatim>\<open>\s*(\S+)(?:\s+(\d+))?\s*\<close>, matched against the whole text.\<close>

definition match_endpoint :: "string \<Rightarrow> (string \<times> string) option" where
  "match_endpoint s =
     (let s1 = dropWhile isspace s; ip = takeWhile (\<lambda>c. \<not> isspace c) s1;
          s2 = dropWhile isspace (dropWhile (\<lambda>c. \<not> isspace c) s1); port = takeWhile is_digit s2;
          s3 = dropWhile isspace (dropWhile is_digit s2)
      in if ip \<noteq> [] \<and> s3 = [] then Some (ip, port) else None)"

text \<open>The address in the form boost prints it, and the port, -1 when there is none.\<close>

definition parseIpPort :: "net_env \<Rightarrow> string \<Rightarrow> (string \<times> int) option result" where
  "parseIpPort N strSource = (case match_endpoint strSource of
     None \<Rightarrow> Inr None
   | Some (strIPRaw, strPortRaw) \<Rightarrow>
       (case from_string N strIPRaw of
          None \<Rightarrow> Inr None
        | Some strIP \<Rightarrow>
            if strPortRaw = [] then Inr (Some (strIP, - 1))
            else ebind (lexical_cast_int strPortRaw) (\<lambda>iPort. Inr (Some (strIP, iPort)))))"

text \<open>The groups of \<^verbatim>\<open>(?i)\s*https://([^/]+)(/.*)\s*\<close>.\<close>

definition httpsParseUrl :: "string \<Rightarrow> (string \<times> string) option" where
  "httpsParseUrl strUrl =
     (let s1 = dropWhile isspace strUrl; rest = drop 8 s1;
          domain = takeWhile (\<lambda>c. c \<noteq> CHR ''/'') rest; path = dropWhile (\<lambda>c. c \<noteq> CHR ''/'') rest
      in if to_lower (take 8 s1) = ''https://'' \<and> domain \<noteq> [] \<and> path \<noteq> [] then Some (domain, path) else None)"

text \<open>The groups of \<^verbatim>\<open>\s*(\S+)(?:\s+(.+))?\s*\<close>. The second takes all that is left; when only white
  space is left, more than one character of it, it gets the last.\<close>

definition match_referral :: "string \<Rightarrow> (string \<times> string) option" where
  "match_referral s =
     (let s1 = dropWhile isspace s; tok = takeWhile (\<lambda>c. \<not> isspace c) s1; rest = dropWhile (\<lambda>c. \<not> isspace c) s1;
          body = dropWhile isspace rest
      in if tok = [] then None
         else Some (tok, if body \<noteq> [] then body else if length rest \<ge> 2 then [last rest] else []))"

section \<open>Referrals\<close>

definition REFERRAL_VALIDATORS_MAX :: nat where "REFERRAL_VALIDATORS_MAX = 50"

text \<open>One turn of the loop of \<^verbatim>\<open>processIps\<close>; the values so far are carried along.\<close>

definition ip_value :: "net_env \<Rightarrow> sqlval \<Rightarrow> string \<Rightarrow> IpReferrals_row list \<Rightarrow> (unl, IpReferrals_row list) prog" where
  "ip_value N validator strReferral vs =
     (if length vs = REFERRAL_VALIDATORS_MAX then return vs
      else mbind (lift (parseIpPort N strReferral)) (\<lambda>q. case q of
          None \<Rightarrow> return vs
        | Some (strIP, iPort) \<Rightarrow>
            return (vs @ [\<lparr>ir_Validator = validator, ir_Entry = int (length vs), ir_IP = SqlBlob strIP, ir_Port = iPort\<rparr>])))"

definition processIps ::
  "('k, 'b) address_env \<Rightarrow> net_env \<Rightarrow> string \<Rightarrow> address \<Rightarrow> string list option \<Rightarrow> (unl, unit) prog" where
  "processIps E N strSite na ips =
     mbind (lift_opt (humanNodePublic E na)) (\<lambda>h.
     mseq (on_db (\<lambda>db. db\<lparr>IpReferrals := sql_delete ir_Validator (SqlBlob h) (IpReferrals db)\<rparr>))
     (mseq (case ips of
              None \<Rightarrow> return ()
            | Some lines \<Rightarrow>
                mbind (mfold (ip_value N (SqlBlob h)) lines []) (\<lambda>vs.
                if vs = [] then return ()
                else on_db (\<lambda>db. db\<lparr>IpReferrals := sql_inserts (\<lambda>r. (ir_Validator r, ir_Entry r)) vs (IpReferrals db)\<rparr>)))
      fetchDirty))"

text \<open>One turn of the loop of \<^verbatim>\<open>processValidators\<close>: the counter \<^verbatim>\<open>iValues\<close> and the values.\<close>

definition validator_value ::
  "('k, 'b) address_env \<Rightarrow> address \<Rightarrow> sqlval \<Rightarrow> validatorSource \<Rightarrow> string \<Rightarrow> nat \<times> ValidatorReferrals_row list \<Rightarrow>
    (unl, nat \<times> ValidatorReferrals_row list) prog" where
  "validator_value E na validator vsWhy strReferral acc = (case acc of (iValues, vs) \<Rightarrow>
     if iValues = REFERRAL_VALIDATORS_MAX then return acc
     else case match_referral strReferral of
       None \<Rightarrow> return acc
     | Some (strRefered, comment) \<Rightarrow>
         mbind (\<lambda>s. map_option (\<lambda>(r, na'). (ebind r (\<lambda>b. Inr (b, na')), s)) (setSeedGeneric E strRefered NewcoinAddress_new))
         (\<lambda>(seed, naTemp).
         if seed then return acc
         else case setNodePublic E strRefered naTemp of
           (Inl e, _) \<Rightarrow> throw e
         | (Inr True, naValidator) \<Rightarrow>
             mseq (nodeAddPublic E naValidator vsWhy comment)
             (mbind (lift (isValid E na)) (\<lambda>valid.
              if valid then mbind (lift_opt (humanNodePublic E naValidator)) (\<lambda>h. mbind (lift (quoted h)) (\<lambda>ref.
                return (iValues + 1, vs @ [\<lparr>vr_Validator = validator, vr_Entry = int iValues, vr_Referral = ref\<rparr>])))
              else return (iValues + 1, vs)))
         | (Inr False, _) \<Rightarrow>
             mseq (nodeAddDomain E strRefered vsWhy comment)
             (mbind (lift (isValid E na)) (\<lambda>valid.
              if valid then
                return (iValues + 1, vs @ [\<lparr>vr_Validator = validator, vr_Entry = int iValues, vr_Referral = SqlBlob strRefered\<rparr>])
              else return (iValues + 1, vs)))))"

definition processValidators ::
  "('k, 'b) address_env \<Rightarrow> string \<Rightarrow> string \<Rightarrow> address \<Rightarrow> validatorSource \<Rightarrow> string list option \<Rightarrow> (unl, nat) prog" where
  "processValidators E strSite strValidatorsSrc na vsWhy lines =
     mbind (lift (isValid E na)) (\<lambda>valid.
     mbind (if valid then lift_opt (humanNodePublic E na) else return strValidatorsSrc) (\<lambda>strNodePublic.
     mbind (lift (quoted strNodePublic)) (\<lambda>validator.
     mseq (on_db (\<lambda>db. db\<lparr>ValidatorReferrals := sql_delete vr_Validator validator (ValidatorReferrals db)\<rparr>))
     (mbind (case lines of
               None \<Rightarrow> return 0
             | Some ls \<Rightarrow>
                 mbind (mfold (validator_value E na validator vsWhy) ls (0, [])) (\<lambda>(iValues, vs).
                 mseq (if vs = [] then return ()
                       else on_db (\<lambda>db. db\<lparr>ValidatorReferrals :=
                         sql_inserts (\<lambda>r. (vr_Validator r, vr_Entry r)) vs (ValidatorReferrals db)\<rparr>))
                 (return iValues)))
      (\<lambda>iValues. mseq fetchDirty (return iValues))))))"

section \<open>Answers\<close>

definition SECTION_CURRENCIES :: string where "SECTION_CURRENCIES = ''currencies''"
definition SECTION_DOMAIN :: string where "SECTION_DOMAIN = ''domain''"
definition SECTION_IPS :: string where "SECTION_IPS = ''ips''"
definition SECTION_IPS_URL :: string where "SECTION_IPS_URL = ''ips_url''"
definition SECTION_PUBLIC_KEY :: string where "SECTION_PUBLIC_KEY = ''validation_public_key''"
definition SECTION_VALIDATORS :: string where "SECTION_VALIDATORS = ''validators''"
definition SECTION_VALIDATORS_URL :: string where "SECTION_VALIDATORS_URL = ''validators_url''"

text \<open>\<open>err\<close> is \<^verbatim>\<open>!!err\<close>.\<close>

definition responseIps :: "('k, 'b) address_env \<Rightarrow> net_env \<Rightarrow> string \<Rightarrow> address \<Rightarrow> bool \<Rightarrow> string \<Rightarrow> (unl, unit) prog" where
  "responseIps E N strSite na err strIpsFile =
     mseq (if err then return ()
           else processIps E N strSite na (sectionEntries (ParseSection strIpsFile True) SECTION_IPS))
     (fetchFinish E)"

text \<open>The url of a section with one entry, split into domain and path.\<close>

definition section_url :: "sections \<Rightarrow> string \<Rightarrow> (string \<times> string \<times> string) option" where
  "section_url secSite name = (case sectionSingleB secSite name [] of (one, url) \<Rightarrow>
     if one \<and> url \<noteq> [] then map_option (\<lambda>(d, p). (url, d, p)) (httpsParseUrl url) else None)"

definition getIpsUrl :: "('k, 'b) address_env \<Rightarrow> address \<Rightarrow> sections \<Rightarrow> (unl, unit) prog" where
  "getIpsUrl E na secSite = (case section_url secSite SECTION_IPS_URL of
     Some (_, domain, path) \<Rightarrow> emit (HttpsGet [domain] path (ResponseIps domain na))
   | None \<Rightarrow> fetchFinish E)"

definition responseValidators ::
  "('k, 'b) address_env \<Rightarrow> string \<Rightarrow> address \<Rightarrow> sections \<Rightarrow> string \<Rightarrow> bool \<Rightarrow> string \<Rightarrow> (unl, unit) prog" where
  "responseValidators E url na secSite strSite err strValidatorsFile =
     mseq (if err then return ()
           else mbind (processValidators E strSite url na vsValidator
                  (sectionEntries (ParseSection strValidatorsFile True) SECTION_VALIDATORS)) (\<lambda>_. return ()))
     (getIpsUrl E na secSite)"

definition getValidatorsUrl :: "('k, 'b) address_env \<Rightarrow> address \<Rightarrow> sections \<Rightarrow> (unl, unit) prog" where
  "getValidatorsUrl E na secSite = (case section_url secSite SECTION_VALIDATORS_URL of
     Some (url, domain, path) \<Rightarrow> emit (HttpsGet [domain] path (ResponseValidators url na secSite domain))
   | None \<Rightarrow> getIpsUrl E na secSite)"

definition processFile :: "('k, 'b) address_env \<Rightarrow> net_env \<Rightarrow> string \<Rightarrow> address \<Rightarrow> sections \<Rightarrow> (unl, unit) prog" where
  "processFile E N domain na secSite =
     mbind (processValidators E domain ''newcoin.txt'' na vsReferral (sectionEntries secSite SECTION_VALIDATORS)) (\<lambda>_.
     mseq (processIps E N domain na (sectionEntries secSite SECTION_IPS)) (getValidatorsUrl E na secSite))"

text \<open>The checks of \<^verbatim>\<open>responseFetch\<close>: the node key of a good file.\<close>

definition site_key :: "('k, 'b) address_env \<Rightarrow> string \<Rightarrow> bool \<Rightarrow> sections \<Rightarrow> address option result" where
  "site_key E domain err secSite =
     (if err then Inr None
      else case sectionSingleB secSite SECTION_DOMAIN [] of (one, strSite) \<Rightarrow>
        if \<not> one \<or> strSite \<noteq> domain then Inr None
        else case sectionSingleB secSite SECTION_PUBLIC_KEY [] of (one, strNodePublicKey) \<Rightarrow>
          if \<not> one then Inr None
          else case setNodePublic E strNodePublicKey NewcoinAddress_new of
            (Inl e, _) \<Rightarrow> Inl e
          | (Inr ok, na) \<Rightarrow> Inr (if ok then Some na else None))"

definition responseFetch :: "('k, 'b) address_env \<Rightarrow> net_env \<Rightarrow> string \<Rightarrow> bool \<Rightarrow> string \<Rightarrow> (unl, unit) prog" where
  "responseFetch E N domain err strSiteFile = (let secSite = ParseSection strSiteFile True in
     mbind (lift (site_key E domain err secSite)) (\<lambda>q. case q of
       None \<Rightarrow> fetchFinish E
     | Some na \<Rightarrow>
         mbind (getSeedDomains E domain seedDomain_new) (\<lambda>(bFound, sdCurrent).
         if \<not> bFound then throw Assert_failed
         else mbind (lift (getSHA512Half_str (SHA512 N) strSiteFile)) (\<lambda>sha.
           let bChanged = (iSha256 sdCurrent \<noteq> sha) in
           mbind universal_time (\<lambda>now.
           mseq (setSeedDomains E (sdCurrent\<lparr>strDomain := domain, naPublicKey := na, tpFetch := Some now, iSha256 := sha\<rparr>) True)
           (if bChanged then processFile E N domain na secSite else fetchFinish E))))))"

section \<open>validators.txt\<close>

definition VALIDATORS_FILE_NAME :: string where "VALIDATORS_FILE_NAME = ''validators.txt''"

definition nodeProcess :: "('k, 'b) address_env \<Rightarrow> string \<Rightarrow> string \<Rightarrow> string \<Rightarrow> (unl, unit) prog" where
  "nodeProcess E strSite strValidators strSource =
     (case sectionEntries (ParseSection strValidators True) SECTION_VALIDATORS of
        Some entries \<Rightarrow> mbind (processValidators E strSite strSource NewcoinAddress_new vsValidator (Some entries)) (\<lambda>_. return ())
      | None \<Rightarrow> return ())"

definition nodeLoad :: "('k, 'b) address_env \<Rightarrow> net_env \<Rightarrow> string \<Rightarrow> (unl, bool) prog" where
  "nodeLoad E N pConfig =
     (if pConfig = [] then return False
      else if \<not> file_exists N pConfig then return False
      else if \<not> is_regular_file N pConfig then return False
      else case open_file N pConfig of
        None \<Rightarrow> return False
      | Some strValidators \<Rightarrow>
          if read_failed N pConfig then return False
          else mseq (nodeProcess E ''local'' strValidators pConfig) (return True))"

definition validatorsResponse :: "('k, 'b) address_env \<Rightarrow> net_env \<Rightarrow> bool \<Rightarrow> string \<Rightarrow> (unl, unit) prog" where
  "validatorsResponse E N err strResponse =
     (if err then return () else nodeProcess E ''network'' strResponse (VALIDATORS_SITE N))"

definition nodeNetwork :: "net_env \<Rightarrow> (unl, unit) prog" where
  "nodeNetwork N = emit (HttpsGet [VALIDATORS_SITE N] (''/'' @ VALIDATORS_FILE_NAME) ValidatorsResponse)"

text \<open>\<^verbatim>\<open>%s\<close> and \<^verbatim>\<open>%c\<close> of an enumeration value: boost prints the number, and for \<^verbatim>\<open>%c\<close> its first
  character.\<close>

definition format_enum :: "validatorSource \<Rightarrow> string" where
  "format_enum vs = decimal (of_char vs)"

definition format_enum_c :: "validatorSource \<Rightarrow> string" where
  "format_enum_c vs = take 1 (format_enum vs)"

definition source_count :: "('r \<Rightarrow> sqlval) \<Rightarrow> 'r list \<Rightarrow> nat" where
  "source_count source rows = length (filter (\<lambda>r. sql_eq (source r) (SqlText (format_enum vsManual))
     \<or> sql_eq (source r) (SqlText (format_enum_c vsValidator))) rows)"

definition int_decimal :: "int \<Rightarrow> string" where
  "int_decimal n = (if n < 0 then ''-'' @ decimal (nat (- n)) else decimal (nat n))"

definition peer_value :: "net_env \<Rightarrow> string \<Rightarrow> PeerIps_row list \<Rightarrow> (unl, PeerIps_row list) prog" where
  "peer_value N strPeer vs = mbind (lift (parseIpPort N strPeer)) (\<lambda>q. case q of
     None \<Rightarrow> return vs
   | Some (strIP, iPort) \<Rightarrow> return (vs @ [\<lparr>pi_IpPort = SqlBlob (strIP @ '' '' @ int_decimal iPort), pi_Score = 0,
       pi_Source = SqlText [vsConfig], pi_ScanNext = Some 0, pi_ScanInterval = 0\<rparr>]))"

definition nodeBootstrap :: "('k, 'b) address_env \<Rightarrow> net_env \<Rightarrow> (unl, unit) prog" where
  "nodeBootstrap E N =
     mbind (gets (\<lambda>s. source_count sd_Source (SeedDomains (walletDB s)))) (\<lambda>iDomains.
     mbind (gets (\<lambda>s. source_count sn_Source (SeedNodes (walletDB s)))) (\<lambda>iNodes.
     mbind (if UNL_DEFAULT N \<noteq> [] then nodeLoad E N (UNL_DEFAULT N) else return (iDomains \<noteq> 0 \<or> iNodes \<noteq> 0)) (\<lambda>bLoaded1.
     mbind (if \<not> bLoaded1 \<and> UNL_DEFAULT N = [] then nodeLoad E N VALIDATORS_FILE_NAME else return bLoaded1) (\<lambda>bLoaded2.
     mbind (if VALIDATORS N \<noteq> [] then
              mbind (processValidators E ''local'' ''newcoind.cfg'' NewcoinAddress_new vsConfig (Some (VALIDATORS N)))
                (\<lambda>n. return (bLoaded2 \<or> n \<noteq> 0))
            else return bLoaded2) (\<lambda>bLoaded3.
     mseq (if \<not> bLoaded3 then nodeNetwork N else return ())
     (if IPS N \<noteq> [] then
        mbind (mfold (peer_value N) (IPS N) []) (\<lambda>vs.
        mseq (if vs = [] then return () else on_db (\<lambda>db. db\<lparr>PeerIps := sql_replaces pi_IpPort vs (PeerIps db)\<rparr>)) fetchDirty)
      else return ()))))))"


section \<open>Slots\<close>

lemma keeps_seed_generic [keeps_rules]: "keeps I (\<lambda>s. map_option (\<lambda>(r, na'). (ebind r (\<lambda>b. Inr (b, na')), s)) q)"
  by (auto simp: keeps_def wp_def)

lemma keeps_sum_bool [keeps_rules]:
  "(\<And>e d. keeps I (f e d)) \<Longrightarrow> (\<And>d. keeps I (g d)) \<Longrightarrow> (\<And>d. keeps I (h d)) \<Longrightarrow>
   keeps I (case p of (Inl e, d) \<Rightarrow> f e d | (Inr True, d) \<Rightarrow> g d | (Inr False, d) \<Rightarrow> h d)"
  by (cases p; cases "fst p") (auto split: bool.split)

lemma keeps_slots_ips [keeps_rules]: "keeps (slots k) (processIps E N site na ips)"
  unfolding processIps_def ip_value_def by (intro keeps_rules)

lemma keeps_slots_validators:
  assumes "env_laws E"
  shows "keeps (slots k) (processValidators E site src na why lines)"
proof -
  have "keeps (slots k) (validator_value E na v why line acc)" for v line acc
    unfolding validator_value_def by (intro keeps_rules keeps_slots_domains(2) assms)
  then show ?thesis unfolding processValidators_def by (intro keeps_rules) auto
qed

text \<open>A request for a list takes over the slot of the request whose answer named it.\<close>

lemma request_slots: "holds_slot e \<Longrightarrow> slots (k + 1) s \<Longrightarrow> wp (emit e) (\<lambda>_. slots k) s"
  by (simp add: emit_def wp_simps slots_def pending_def)

lemma getIpsUrl_slots: "env_laws E \<Longrightarrow> slots (k + 1) s \<Longrightarrow> wp (getIpsUrl E na sec) (\<lambda>_. slots k) s"
  by (auto simp: getIpsUrl_def fetchFinish_slots intro: request_slots split: option.split)

lemma getValidatorsUrl_slots: "env_laws E \<Longrightarrow> slots (k + 1) s \<Longrightarrow> wp (getValidatorsUrl E na sec) (\<lambda>_. slots k) s"
  by (auto simp: getValidatorsUrl_def getIpsUrl_slots intro: request_slots split: option.split)

lemma responseIps_slots: "env_laws E \<Longrightarrow> slots (k + 1) s \<Longrightarrow> wp (responseIps E N site na err f) (\<lambda>_. slots k) s"
  unfolding responseIps_def wp_mseq
  by (rule keeps_wp [where I = "slots (k + 1)"]) (auto intro: keeps_rules fetchFinish_slots)

lemma responseValidators_slots:
  "env_laws E \<Longrightarrow> slots (k + 1) s \<Longrightarrow> wp (responseValidators E url na sec site err f) (\<lambda>_. slots k) s"
  unfolding responseValidators_def wp_mseq
  by (rule keeps_wp [where I = "slots (k + 1)"]) (auto intro: keeps_rules keeps_slots_validators getIpsUrl_slots)

lemma processFile_slots: "env_laws E \<Longrightarrow> slots (k + 1) s \<Longrightarrow> wp (processFile E N d na sec) (\<lambda>_. slots k) s"
  unfolding processFile_def wp_mseq wp_mbind
  by (intro keeps_wp [where I = "slots (k + 1)"] keeps_slots_validators keeps_slots_ips getValidatorsUrl_slots)

lemma responseFetch_slots:
  assumes "env_laws E" "slots (k + 1) s"
  shows "wp (responseFetch E N d err f) (\<lambda>_. slots k) s"
  by (auto simp: responseFetch_def Let_def wp_simps fetchFinish_slots [OF assms] split: option.split prod.split
    intro!: keeps_wp [OF keeps_slots_store(1) assms(2)] keeps_wp [OF keeps_slots_domains(1) [OF assms(1)]]
      processFile_slots fetchFinish_slots assms(1))

lemma keeps_slots_load:
  assumes "env_laws E"
  shows "keeps (slots k) (nodeProcess E site vals src)" "keeps (slots k) (nodeLoad E N p)"
    "keeps (slots k) (validatorsResponse E N err r)" "keeps (slots k) (nodeBootstrap E N)"
proof -
  show 1: "keeps (slots k) (nodeProcess E site vals src)" for site vals src
    unfolding nodeProcess_def by (intro keeps_rules keeps_slots_validators assms)
  show 2: "keeps (slots k) (nodeLoad E N p)" for p
    unfolding nodeLoad_def by (intro keeps_rules 1)
  show "keeps (slots k) (validatorsResponse E N err r)"
    unfolding validatorsResponse_def by (intro keeps_rules 1)
  show "keeps (slots k) (nodeBootstrap E N)"
    unfolding nodeBootstrap_def nodeNetwork_def peer_value_def
    by (intro keeps_rules 2 keeps_slots_validators assms) simp
qed

end
