(* ===== verification/UnlScore.thy ===== *)
theory UnlScore
  imports UnlProcess
begin

text \<open>
  \<^verbatim>\<open>scoreCompute\<close> and \<^verbatim>\<open>scoreTimerHandler\<close> of \<^verbatim>\<open>src/UniqueNodeList/UniqueNodeList.cpp\<close>: the nodes to score
  are gathered from the seed domains, the seed nodes and what they refer to, ten rounds of
  \<^verbatim>\<open>scoreRound\<close> (theory \<open>Scoring\<close>) distribute their points, and the results go to the tables
  \<^verbatim>\<open>TrustedNodes\<close> and \<^verbatim>\<open>PeerIps\<close>. The loop over a growing vector keeps references into it;
  \<open>realloc n\<close> says whether \<^verbatim>\<open>push_back\<close> onto a vector of \<open>n\<close> elements moves it, after which those
  references dangle. Hash maps are iterated in the order in which their keys first appear; the sums built
  from them do not depend on it.
\<close>

section \<open>Gathering the nodes\<close>

record scoring =
  umPulicIdx :: "string \<rightharpoonup> int"
  umDomainIdx :: "string \<rightharpoonup> int"
  vsnNodes :: "scoreNode list"

definition scoring_empty :: scoring where
  "scoring_empty = \<lparr>umPulicIdx = Map.empty, umDomainIdx = Map.empty, vsnNodes = []\<rparr>"

definition new_node :: "string \<Rightarrow> int \<Rightarrow> scoreNode" where
  "new_node key sc = \<lparr>iScore = sc, iRoundScore = 0, iRoundSeed = sc, iSeen = - 1, strValidator = key, viReferrals = []\<rparr>"

text \<open>A new node with its entry in the index.\<close>

definition add_node :: "string \<Rightarrow> int \<Rightarrow> scoring \<Rightarrow> scoring" where
  "add_node key sc g = g\<lparr>umPulicIdx := (umPulicIdx g)(key \<mapsto> int (length (vsnNodes g))), vsnNodes := vsnNodes g @ [new_node key sc]\<rparr>"

text \<open>An old node gets the better score.\<close>

definition raise_node :: "int \<Rightarrow> int \<Rightarrow> scoring \<Rightarrow> scoring result" where
  "raise_node i sc g = ebind (vec_at (vsnNodes g) i) (\<lambda>snOld.
     Inr (if iScore snOld < sc then g\<lparr>vsnNodes := (vsnNodes g)[nat i := snOld\<lparr>iScore := sc, iRoundSeed := sc\<rparr>]\<rparr> else g))"

definition score_domain :: "SeedDomains_row \<Rightarrow> scoring \<Rightarrow> scoring result" where
  "score_domain r g =
     (if getNull (sd_PublicKey r) then Inr g
      else let domain = getStrBinary (sd_Domain r); key = getStrBinary (sd_PublicKey r) in
        ebind (iSourceScore (first_char (getStrBinary (sd_Source r)))) (\<lambda>sc.
        case umPulicIdx g key of
          None \<Rightarrow> Inr ((add_node key sc g)\<lparr>umDomainIdx := (umDomainIdx g)(domain \<mapsto> int (length (vsnNodes g)))\<rparr>)
        | Some i \<Rightarrow> raise_node i sc g))"

definition score_seed :: "SeedNodes_row \<Rightarrow> scoring \<Rightarrow> scoring result" where
  "score_seed r g = (let key = getStrBinary (sn_PublicKey r) in
     ebind (iSourceScore (first_char (getStrBinary (sn_Source r)))) (\<lambda>sc.
     case umPulicIdx g key of None \<Rightarrow> Inr (add_node key sc g) | Some i \<Rightarrow> raise_node i sc g))"

fun score_rows :: "('r \<Rightarrow> scoring \<Rightarrow> scoring result) \<Rightarrow> 'r list \<Rightarrow> scoring \<Rightarrow> scoring result" where
  "score_rows f [] g = Inr g"
| "score_rows f (r # rs) g = ebind (f r g) (score_rows f rs)"

text \<open>\<^verbatim>\<open>viReferrals.push_back\<close> through the reference; \<open>alive\<close> says that it does not dangle.\<close>

definition add_referral :: "int \<Rightarrow> int \<Rightarrow> bool \<Rightarrow> scoring \<Rightarrow> (bool \<times> scoring) result" where
  "add_referral iNode iReferral alive g =
     (if iReferral \<ge> 0 \<and> iNode \<noteq> iReferral then
        if alive then ebind (vec_at (vsnNodes g) iNode) (\<lambda>sn.
          Inr (alive, g\<lparr>vsnNodes := (vsnNodes g)[nat iNode := sn\<lparr>viReferrals := viReferrals sn @ [iReferral]\<rparr>]\<rparr>))
        else Inl Undefined_behaviour
      else Inr (alive, g))"

definition score_referral ::
  "('k, 'b) address_env \<Rightarrow> (nat \<Rightarrow> bool) \<Rightarrow> int \<Rightarrow> string \<Rightarrow> bool \<times> scoring \<Rightarrow> (bool \<times> scoring) result" where
  "score_referral E realloc iNode strReferral ag = (case ag of (alive, g) \<Rightarrow>
     (case setNodePublic E strReferral NewcoinAddress_new of
        (Inl e, _) \<Rightarrow> Inl e
      | (Inr True, _) \<Rightarrow>
          (case umPulicIdx g strReferral of
             None \<Rightarrow> ebind (iSourceScore vsReferral) (\<lambda>sc.
               add_referral iNode (int (length (vsnNodes g))) (alive \<and> \<not> realloc (length (vsnNodes g))) (add_node strReferral sc g))
           | Some i \<Rightarrow> add_referral iNode i alive g)
      | (Inr False, _) \<Rightarrow>
          add_referral iNode (case umDomainIdx g strReferral of None \<Rightarrow> - 1 | Some i \<Rightarrow> i) alive g))"

fun score_referrals ::
  "('k, 'b) address_env \<Rightarrow> (nat \<Rightarrow> bool) \<Rightarrow> int \<Rightarrow> string list \<Rightarrow> bool \<times> scoring \<Rightarrow> (bool \<times> scoring) result" where
  "score_referrals E realloc iNode [] ag = Inr ag"
| "score_referrals E realloc iNode (r # rs) ag = ebind (score_referral E realloc iNode r ag) (score_referrals E realloc iNode rs)"

text \<open>\<^verbatim>\<open>SELECT Referral FROM ValidatorReferrals WHERE Validator=X'..' ORDER BY Entry\<close>.\<close>

definition referrals_of :: "walletdb \<Rightarrow> string \<Rightarrow> string list" where
  "referrals_of db validator = map (\<lambda>r. getStrBinary (vr_Referral r))
     (sql_order vr_Entry (filter (\<lambda>r. sql_eq (vr_Validator r) (SqlBlob validator)) (ValidatorReferrals db)))"

partial_function (option) refer_nodes ::
  "('k, 'b) address_env \<Rightarrow> (nat \<Rightarrow> bool) \<Rightarrow> walletdb \<Rightarrow> nat \<Rightarrow> scoring \<Rightarrow> scoring result option" where
  "refer_nodes E realloc db iNode g =
     (if iNode = length (vsnNodes g) then Some (Inr g)
      else case score_referrals E realloc (int iNode) (referrals_of db (strValidator (vsnNodes g ! iNode))) (True, g) of
        Inl e \<Rightarrow> Some (Inl e)
      | Inr (_, g') \<Rightarrow> refer_nodes E realloc db (iNode + 1) g')"

definition gather_nodes :: "('k, 'b) address_env \<Rightarrow> (nat \<Rightarrow> bool) \<Rightarrow> walletdb \<Rightarrow> scoring result option" where
  "gather_nodes E realloc db =
     (case ebind (score_rows score_domain (SeedDomains db) scoring_empty) (score_rows score_seed (SeedNodes db)) of
        Inl e \<Rightarrow> Some (Inl e)
      | Inr g \<Rightarrow> refer_nodes E realloc db 0 g)"

section \<open>Storing the scores\<close>

definition zero_trusted :: "TrustedNodes_row list \<Rightarrow> TrustedNodes_row list" where
  "zero_trusted rows = map (\<lambda>r. if tn_Score r \<noteq> 0 then r\<lparr>tn_Score := 0\<rparr> else r) rows"

text \<open>\<^verbatim>\<open>vsnNodes[umPulicIdx[key]].iSeen = ..\<close> for every row of \<^verbatim>\<open>TrustedNodes\<close> with the key of a node.\<close>

definition load_seen :: "scoring \<Rightarrow> TrustedNodes_row list \<Rightarrow> scoreNode list \<Rightarrow> scoreNode list result" where
  "load_seen g rows vsn = foldl (\<lambda>acc r. ebind acc (\<lambda>v.
     if \<exists>n\<in>set vsn. sql_eq (tn_PublicKey r) (SqlBlob (strValidator n)) then
       case umPulicIdx g (getStrBinary (tn_PublicKey r)) of
         None \<Rightarrow> Inl Undefined_behaviour
       | Some i \<Rightarrow> ebind (vec_at v i) (\<lambda>n. Inr (v[nat i := n\<lparr>iSeen := (case tn_Seen r of None \<Rightarrow> - 1 | Some t \<Rightarrow> t)\<rparr>]))
     else Inr v)) (Inr vsn) rows"

definition trusted_row :: "scoreNode \<Rightarrow> TrustedNodes_row" where
  "trusted_row sn = \<lparr>tn_PublicKey = SqlBlob (strValidator sn), tn_Score = iScore sn,
     tn_Seen = (if iSeen sn \<ge> 0 then Some (iSeen sn) else None)\<rparr>"

definition persist_scores :: "scoring \<Rightarrow> scoreNode list \<Rightarrow> (unl, unit) prog" where
  "persist_scores g vsn =
     mseq (on_db (\<lambda>db. db\<lparr>TrustedNodes := zero_trusted (TrustedNodes db)\<rparr>))
     (mbind (gets (\<lambda>s. TrustedNodes (walletDB s))) (\<lambda>rows.
      mbind (lift (load_seen g rows vsn)) (\<lambda>v.
      mseq (on_db (\<lambda>db. db\<lparr>TrustedNodes := sql_replaces tn_PublicKey (map trusted_row v) (TrustedNodes db)\<rparr>))
      (change (\<lambda>s. s\<lparr>mUNL := set (map strValidator v)\<rparr>)))))"

section \<open>Scoring addresses\<close>

text \<open>\<^verbatim>\<open>umValidators\<close>: the keys and the sizes of the groups, in the order NULL, texts, blobs.\<close>

definition ip_validators :: "IpReferrals_row list \<Rightarrow> string list" where
  "ip_validators rows = remdups (map (\<lambda>r. getStrBinary (ir_Validator r)) rows)"

definition ip_count :: "IpReferrals_row list \<Rightarrow> string \<Rightarrow> int" where
  "ip_count rows v = (let n = (\<lambda>c. int (length (filter (\<lambda>r. ir_Validator r = c) rows))) in
     if n (SqlBlob v) \<noteq> 0 then n (SqlBlob v) else if n (SqlText v) \<noteq> 0 then n (SqlText v) else n SqlNull)"

type_synonym epScore = "((string \<times> int) \<times> int) list"

text \<open>\<^verbatim>\<open>umScore[ep]\<close> is set, or added to.\<close>

fun add_points :: "string \<times> int \<Rightarrow> int \<Rightarrow> epScore \<Rightarrow> epScore" where
  "add_points ep p [] = [(ep, p)]"
| "add_points ep p ((e, q) # m) = (if e = ep then (e, q + p) # m else (e, q) # add_points ep p m)"

fun ip_points :: "int \<Rightarrow> int \<Rightarrow> int \<Rightarrow> IpReferrals_row list \<Rightarrow> epScore \<Rightarrow> epScore" where
  "ip_points iBase iEntries iEntry [] m = m"
| "ip_points iBase iEntries iEntry (r # rs) m =
     ip_points iBase iEntries (iEntry + 1) rs (add_points (getStrBinary (ir_IP r), ir_Port r) (iPoints iBase iEntries iEntry) m)"

definition score_ips :: "scoring \<Rightarrow> scoreNode list \<Rightarrow> IpReferrals_row list \<Rightarrow> string \<Rightarrow> epScore \<Rightarrow> epScore result" where
  "score_ips g vsn rows v m = (case umPulicIdx g v of
     None \<Rightarrow> Inr m
   | Some i \<Rightarrow> ebind (vec_at vsn i) (\<lambda>sn. let iEntries = ip_count rows v in
       ebind (int_val ((iEntries + 1) * iEntries)) (\<lambda>p. ebind (int_val (iScore sn * iEntries)) (\<lambda>q.
       Inr (ip_points (q sdiv (p sdiv 2)) iEntries 0
         (sql_order ir_Entry (filter (\<lambda>r. sql_eq (ir_Validator r) (SqlBlob v)) rows)) m)))))"

fun score_all_ips :: "scoring \<Rightarrow> scoreNode list \<Rightarrow> IpReferrals_row list \<Rightarrow> string list \<Rightarrow> epScore \<Rightarrow> epScore result" where
  "score_all_ips g vsn rows [] m = Inr m"
| "score_all_ips g vsn rows (v # vs) m = ebind (score_ips g vsn rows v m) (score_all_ips g vsn rows vs)"

definition peer_row :: "(string \<times> int) \<times> int \<Rightarrow> PeerIps_row" where
  "peer_row q = (case q of ((ip, port), points) \<Rightarrow> \<lparr>pi_IpPort = SqlBlob (ip @ '' '' @ int_decimal port), pi_Score = points,
     pi_Source = SqlText (format_enum_c vsValidator), pi_ScanNext = Some 0, pi_ScanInterval = 0\<rparr>)"

definition persist_ips :: "scoring \<Rightarrow> scoreNode list \<Rightarrow> (unl, unit) prog" where
  "persist_ips g vsn =
     mseq (on_db (\<lambda>db. db\<lparr>PeerIps := map (\<lambda>r. if pi_Score r \<noteq> 0 then r\<lparr>pi_Score := 0\<rparr> else r) (PeerIps db)\<rparr>))
     (mbind (gets (\<lambda>s. IpReferrals (walletDB s))) (\<lambda>rows.
      mbind (lift (score_all_ips g vsn rows (if vsn = [] then [] else ip_validators rows) [])) (\<lambda>m.
      on_db (\<lambda>db. db\<lparr>PeerIps := sql_replaces pi_IpPort (map peer_row m) (PeerIps db)\<rparr>))))"

definition scoreCompute :: "('k, 'b) address_env \<Rightarrow> (nat \<Rightarrow> bool) \<Rightarrow> (unl, unit) prog" where
  "scoreCompute E realloc =
     mbind (gets (\<lambda>s. walletDB s)) (\<lambda>db.
     mbind (lift_opt (gather_nodes E realloc db)) (\<lambda>g.
     mbind (lift (score_rounds SCORE_ROUNDS True (vsnNodes g))) (\<lambda>vsn.
     mseq (persist_scores g vsn) (persist_ips g vsn))))"

definition scoreTimerHandler :: "('k, 'b) address_env \<Rightarrow> (nat \<Rightarrow> bool) \<Rightarrow> bool \<Rightarrow> (unl, unit) prog" where
  "scoreTimerHandler E realloc err =
     (if err then return ()
      else mseq (change (\<lambda>s. s\<lparr>mtpScoreNext := None\<rparr>))
        (mbind universal_time (\<lambda>now. mseq (change (\<lambda>s. s\<lparr>mtpScoreStart := Some now\<rparr>))
        (mseq (scoreCompute E realloc)
        (mseq (change (\<lambda>s. s\<lparr>mtpScoreUpdated := mtpScoreStart s\<rparr>))
        (mbind miscSave (\<lambda>_. mseq (change (\<lambda>s. s\<lparr>mtpScoreStart := None\<rparr>))
        (mseq (scoreNext False) (emit ScanRefresh)))))))))"

section \<open>Gathering ends\<close>

text \<open>New nodes come from the referral column only, each at most once.\<close>

definition budget :: "string set \<Rightarrow> scoring \<Rightarrow> nat" where
  "budget R g = card (R - dom (umPulicIdx g)) + length (vsnNodes g)"

lemma add_referral_budget:
  "add_referral i j a g = Inr (b, g') \<Longrightarrow> budget R g' = budget R g \<and> length (vsnNodes g') = length (vsnNodes g)"
  by (auto simp: add_referral_def budget_def vec_at_def split: if_splits)

lemma add_node_budget:
  assumes "finite R" "r \<in> R" "umPulicIdx g r = None"
  shows "budget R (add_node r sc g) = budget R g"
proof -
  have "R - dom ((umPulicIdx g)(r \<mapsto> x)) = (R - dom (umPulicIdx g)) - {r}" for x by auto
  moreover have "r \<in> R - dom (umPulicIdx g)" using assms by auto
  moreover from this have "0 < card (R - dom (umPulicIdx g))" using assms(1) by (auto simp: card_gt_0_iff)
  ultimately show ?thesis using assms(1) by (simp add: budget_def add_node_def)
qed

lemma score_referral_budget:
  assumes "finite R" "r \<in> R" "score_referral E realloc i r (a, g) = Inr (b, g')"
  shows "budget R g' = budget R g \<and> length (vsnNodes g) \<le> length (vsnNodes g')"
proof -
  have [simp]: "length (vsnNodes (add_node r sc g)) = Suc (length (vsnNodes g))" for sc by (simp add: add_node_def)
  show ?thesis
    using assms add_node_budget [OF assms(1,2), of g]
    by (auto simp: score_referral_def iSourceScore_def vs_defs dest!: add_referral_budget [where R = R]
      split: prod.splits sum.splits bool.splits option.splits)
qed

lemma score_referrals_budget:
  assumes "finite R" "set rs \<subseteq> R" "score_referrals E realloc i rs (a, g) = Inr (b, g')"
  shows "budget R g' = budget R g \<and> length (vsnNodes g) \<le> length (vsnNodes g')"
  using assms(2,3)
proof (induction rs arbitrary: a g)
  case (Cons r rs)
  from Cons.prems(2) obtain a1 g1 where 1: "score_referral E realloc i r (a, g) = Inr (a1, g1)"
    "score_referrals E realloc i rs (a1, g1) = Inr (b, g')"
    by (cases "score_referral E realloc i r (a, g)") auto
  then show ?case using Cons.IH [OF _ 1(2)] Cons.prems(1) score_referral_budget [OF assms(1) _ 1(1)] by auto
qed auto

lemma refer_nodes_returns:
  assumes "iNode \<le> length (vsnNodes g)"
  shows "\<exists>q. refer_nodes E realloc db iNode g = Some q"
proof -
  define R where "R = (\<lambda>r. getStrBinary (vr_Referral r)) ` set (ValidatorReferrals db)"
  have R: "finite R" "set (referrals_of db v) \<subseteq> R" for v by (auto simp: R_def referrals_of_def sql_order_def)
  show ?thesis
    using assms
  proof (induction "budget R g - iNode" arbitrary: iNode g rule: less_induct)
    case less
    show ?case
    proof (cases "iNode = length (vsnNodes g)")
      case True
      then show ?thesis by (subst refer_nodes.simps) simp
    next
      case False
      let ?q = "score_referrals E realloc (int iNode) (referrals_of db (strValidator (vsnNodes g ! iNode))) (True, g)"
      show ?thesis
      proof (cases ?q)
        case (Inl e)
        then show ?thesis using False by (subst refer_nodes.simps) simp
      next
        case (Inr ag)
        then obtain a g' where q: "?q = Inr (a, g')" by (cases ag) simp
        have b: "budget R g' = budget R g" "length (vsnNodes g) \<le> length (vsnNodes g')"
          using score_referrals_budget [OF R q] by auto
        have "\<exists>q. refer_nodes E realloc db (iNode + 1) g' = Some q"
          using b less.prems False by (intro less.hyps) (auto simp: budget_def)
        then show ?thesis using q False by (subst refer_nodes.simps) simp
      qed
    qed
  qed
qed

lemma gather_nodes_returns: "\<exists>q. gather_nodes E realloc db = Some q"
  by (auto simp: gather_nodes_def refer_nodes_returns split: sum.split)

lemma scoreCompute_returns: "returns (scoreCompute E realloc)"
  unfolding scoreCompute_def persist_scores_def persist_ips_def
  by (intro returns_rules returns_lift_opt gather_nodes_returns)

section \<open>Scores of the seeds\<close>

text \<open>What the gathering is to compute when nobody refers to anybody: every key of a seed once, with the
  best score of its sources.\<close>

definition source_score :: "validatorSource \<Rightarrow> int" where
  "source_score c = (case iSourceScore c of Inl _ \<Rightarrow> 0 | Inr n \<Rightarrow> n)"

definition seeds :: "walletdb \<Rightarrow> (string \<times> validatorSource) list" where
  "seeds db = map (\<lambda>r. (getStrBinary (sd_PublicKey r), first_char (getStrBinary (sd_Source r))))
       (filter (\<lambda>r. \<not> getNull (sd_PublicKey r)) (SeedDomains db))
     @ map (\<lambda>r. (getStrBinary (sn_PublicKey r), first_char (getStrBinary (sn_Source r)))) (SeedNodes db)"

fun best_score :: "(string \<times> validatorSource) list \<Rightarrow> string \<Rightarrow> int" where
  "best_score [] k = 0"
| "best_score ((k', c) # L) k = (if k' = k then max (source_score c) (best_score L k) else best_score L k)"

lemma source_score_bounds: "0 \<le> source_score c" "source_score c \<le> 1500"
  by (auto simp: source_score_def iSourceScore_def)

lemma best_score_bounds: "0 \<le> best_score L k" "best_score L k \<le> 1500"
  by (induction L k rule: best_score.induct) (auto simp: source_score_bounds max_def)

lemma best_score_append: "best_score (L @ [(k', c)]) k = (if k' = k then max (best_score L k) (source_score c) else best_score L k)"
  using source_score_bounds(1) [of c] by (induction L k rule: best_score.induct) auto

lemma best_score_none: "k \<notin> fst ` set L \<Longrightarrow> best_score L k = 0"
  by (induction L k rule: best_score.induct) auto

definition scored :: "(string \<times> validatorSource) list \<Rightarrow> scoring \<Rightarrow> bool" where
  "scored L g \<longleftrightarrow> dom (umPulicIdx g) = fst ` set L
     \<and> (\<forall>k i. umPulicIdx g k = Some i \<longrightarrow> 0 \<le> i \<and> i < int (length (vsnNodes g)) \<and> vsnNodes g ! nat i = new_node k (best_score L k))
     \<and> (\<forall>i<length (vsnNodes g). umPulicIdx g (strValidator (vsnNodes g ! i)) = Some (int i))"

lemma scored_empty: "scored [] scoring_empty"
  by (simp add: scored_def scoring_empty_def)

lemma new_node_fields [simp]:
  "strValidator (new_node k sc) = k" "iScore (new_node k sc) = sc" "iRoundScore (new_node k sc) = 0"
  "viReferrals (new_node k sc) = []" "iSeen (new_node k sc) = - 1"
  by (simp_all add: new_node_def)

lemma scored_add:
  assumes "scored L g" "umPulicIdx g k = None" "iSourceScore c = Inr sc"
  shows "scored (L @ [(k, c)]) (add_node k sc g)"
proof -
  have k: "k \<notin> fst ` set L" using assms by (metis domIff scored_def)
  have sc: "best_score (L @ [(k, c)]) k = sc"
    using best_score_none [OF k] source_score_bounds(1) [of c] assms(3) by (simp add: best_score_append source_score_def)
  have "strValidator (vsnNodes g ! i) \<noteq> k" if "i < length (vsnNodes g)" for i
    using assms(1,2) that by (auto simp: scored_def)
  then show ?thesis
    using assms(1) sc by (auto simp: scored_def add_node_def nth_append best_score_append less_Suc_eq split: if_splits) fastforce+
qed

lemma scored_raise:
  assumes "scored L g" "umPulicIdx g k = Some i" "iSourceScore c = Inr sc"
  shows "\<exists>g'. raise_node i sc g = Inr g' \<and> scored (L @ [(k, c)]) g'"
proof -
  have i: "0 \<le> i" "i < int (length (vsnNodes g))" "vsnNodes g ! nat i = new_node k (best_score L k)"
    using assms(1,2) by (auto simp: scored_def)
  have sc: "source_score c = sc" using assms(3) by (simp add: source_score_def)
  have other: "nat j \<noteq> nat i" if "umPulicIdx g k' = Some j" "k' \<noteq> k" for k' j
    using assms(1) i that unfolding scored_def by (metis new_node_fields(1))
  have k: "k \<in> fst ` set L" using assms(1,2) by (auto simp: scored_def)
  show ?thesis
  proof (cases "best_score L k < sc")
    case True
    let ?n = "(new_node k (best_score L k))\<lparr>iScore := sc, iRoundSeed := sc\<rparr>"
    have n: "?n = new_node k sc" by (simp add: new_node_def)
    have "raise_node i sc g = Inr (g\<lparr>vsnNodes := (vsnNodes g)[nat i := new_node k sc]\<rparr>)"
      using i True n by (simp add: raise_node_def vec_at_def)
    moreover have "scored (L @ [(k, c)]) (g\<lparr>vsnNodes := (vsnNodes g)[nat i := new_node k sc]\<rparr>)"
    proof -
      let ?v = "(vsnNodes g)[nat i := new_node k sc]"
      have il: "nat i < length (vsnNodes g)" using i by linarith
      have "?v ! nat j = new_node k' (best_score (L @ [(k, c)]) k')" if "umPulicIdx g k' = Some j" for k' j
        using that assms(1,2) il True sc other [OF that] by (cases "k' = k") (auto simp: best_score_append scored_def)
      moreover have "umPulicIdx g (strValidator (?v ! j)) = Some (int j)" if "j < length (vsnNodes g)" for j
        using that assms(1,2) il i by (cases "j = nat i") (auto simp: scored_def)
      ultimately show ?thesis using assms(1) k by (auto simp: scored_def insert_absorb)
    qed
    ultimately show ?thesis by blast
  next
    case False
    then have "raise_node i sc g = Inr g" using i by (simp add: raise_node_def vec_at_def)
    moreover have "scored (L @ [(k, c)]) g"
      using assms(1) False sc k by (auto simp: scored_def best_score_append insert_absorb)
    ultimately show ?thesis by blast
  qed
qed

lemma score_seed_step:
  assumes "scored L g" "iSourceScore (first_char (getStrBinary (sn_Source r))) = Inr sc"
  shows "\<exists>g'. score_seed r g = Inr g' \<and> scored (L @ [(getStrBinary (sn_PublicKey r), first_char (getStrBinary (sn_Source r)))]) g'"
  using scored_add [OF assms(1) _ assms(2)] scored_raise [OF assms(1) _ assms(2)] assms(2)
  by (auto simp: score_seed_def Let_def split: option.split)

lemma scored_domain_idx [simp]: "scored L (g\<lparr>umDomainIdx := m\<rparr>) = scored L g"
  by (simp add: scored_def)

lemma score_domain_step:
  assumes "scored L g" "iSourceScore (first_char (getStrBinary (sd_Source r))) = Inr sc" "\<not> getNull (sd_PublicKey r)"
  shows "\<exists>g'. score_domain r g = Inr g' \<and> scored (L @ [(getStrBinary (sd_PublicKey r), first_char (getStrBinary (sd_Source r)))]) g'"
  using scored_add [OF assms(1) _ assms(2)] scored_raise [OF assms(1) _ assms(2)] assms(2,3)
  by (auto simp: score_domain_def Let_def split: option.split)

text \<open>The sources are letters that \<^verbatim>\<open>iSourceScore\<close> knows.\<close>

definition sources_known :: "walletdb \<Rightarrow> bool" where
  "sources_known db \<longleftrightarrow> (\<forall>r\<in>set (SeedDomains db). \<exists>b. iSourceScore (first_char (getStrBinary (sd_Source r))) = Inr b)
     \<and> (\<forall>r\<in>set (SeedNodes db). \<exists>b. iSourceScore (first_char (getStrBinary (sn_Source r))) = Inr b)"

lemma score_rows_domains:
  assumes "scored L g" "\<forall>r\<in>set rows. \<exists>b. iSourceScore (first_char (getStrBinary (sd_Source r))) = Inr b"
  shows "\<exists>g'. score_rows score_domain rows g = Inr g' \<and> scored (L @ map (\<lambda>r. (getStrBinary (sd_PublicKey r),
    first_char (getStrBinary (sd_Source r)))) (filter (\<lambda>r. \<not> getNull (sd_PublicKey r)) rows)) g'"
  using assms
proof (induction rows arbitrary: L g)
  case (Cons r rows)
  show ?case
  proof (cases "getNull (sd_PublicKey r)")
    case True
    then show ?thesis using Cons by (simp add: score_domain_def)
  next
    case False
    with Cons.prems obtain g1 where "score_domain r g = Inr g1"
      "scored (L @ [(getStrBinary (sd_PublicKey r), first_char (getStrBinary (sd_Source r)))]) g1"
      using score_domain_step [of L g r] by auto
    with Cons.IH [of _ g1] Cons.prems(2) False show ?thesis by fastforce
  qed
qed auto

lemma score_rows_seeds:
  assumes "scored L g" "\<forall>r\<in>set rows. \<exists>b. iSourceScore (first_char (getStrBinary (sn_Source r))) = Inr b"
  shows "\<exists>g'. score_rows score_seed rows g = Inr g' \<and> scored (L @ map (\<lambda>r. (getStrBinary (sn_PublicKey r),
    first_char (getStrBinary (sn_Source r)))) rows) g'"
  using assms
proof (induction rows arbitrary: L g)
  case (Cons r rows)
  then obtain g1 where "score_seed r g = Inr g1"
    "scored (L @ [(getStrBinary (sn_PublicKey r), first_char (getStrBinary (sn_Source r)))]) g1"
    using score_seed_step [of L g r] by auto
  with Cons.IH [of _ g1] Cons.prems(2) show ?case by fastforce
qed auto

text \<open>The column \<^verbatim>\<open>Validator\<close> holds texts, which the query for a blob does not find.\<close>

definition validators_text :: "walletdb \<Rightarrow> bool" where
  "validators_text db \<longleftrightarrow> (\<forall>r\<in>set (ValidatorReferrals db). \<exists>v. vr_Validator r = SqlText v)"

lemma referrals_of_none: "validators_text db \<Longrightarrow> referrals_of db v = []"
  by (subst referrals_of_def, subst filter_False) (auto simp: validators_text_def sql_order_def)

lemma refer_nodes_none:
  assumes "validators_text db" "iNode \<le> length (vsnNodes g)"
  shows "refer_nodes E realloc db iNode g = Some (Inr g)"
  using assms(2)
proof (induction "length (vsnNodes g) - iNode" arbitrary: iNode)
  case 0
  then show ?case by (subst refer_nodes.simps) simp
next
  case (Suc n)
  then show ?case by (subst refer_nodes.simps) (simp add: referrals_of_none [OF assms(1)])
qed

lemma gather_nodes_seeds:
  assumes "sources_known db" "validators_text db"
  shows "\<exists>g. gather_nodes E realloc db = Some (Inr g) \<and> scored (seeds db) g"
proof -
  obtain g1 where 1: "score_rows score_domain (SeedDomains db) scoring_empty = Inr g1" "scored ([] @ map (\<lambda>r. (getStrBinary (sd_PublicKey r),
    first_char (getStrBinary (sd_Source r)))) (filter (\<lambda>r. \<not> getNull (sd_PublicKey r)) (SeedDomains db))) g1"
    using score_rows_domains [OF scored_empty, of "SeedDomains db"] assms(1) unfolding sources_known_def by blast
  obtain g where "score_rows score_seed (SeedNodes db) g1 = Inr g" "scored (seeds db) g"
    using score_rows_seeds [OF 1(2), of "SeedNodes db"] assms(1) by (auto simp: seeds_def sources_known_def)
  with 1 show ?thesis by (simp add: gather_nodes_def refer_nodes_none [OF assms(2)])
qed

subsection \<open>Rounds without referrals\<close>

definition idle :: "scoreNode \<Rightarrow> bool" where
  "idle n \<longleftrightarrow> iRoundScore n = 0 \<and> viReferrals n = [] \<and> in_int (iScore n)"

lemma dist_nodes_idle: "\<forall>n\<in>set vsn. idle n \<Longrightarrow> \<forall>k\<in>set ks. k < length vsn \<Longrightarrow> dist_nodes vsn ks = Inr vsn"
proof (induction ks)
  case (Cons k ks)
  then have "idle (vsn ! k)" by simp
  then have "dist_node vsn (vsn ! k) = Inr vsn" by (simp add: dist_node_def idle_def in_int_def INT_MIN_def INT_MAX_def)
  with Cons show ?case by simp
qed simp

lemma scoreRound_idle:
  assumes "\<forall>n\<in>set vsn. idle n"
  shows "scoreRound vsn = Inr (False, map (\<lambda>n. n\<lparr>iRoundSeed := 0\<rparr>) vsn)"
proof -
  have "finish_round vsn = Inr (map (\<lambda>n. n\<lparr>iRoundSeed := 0\<rparr>) vsn)"
    using assms by (induction vsn) (auto simp: idle_def int_add_ok)
  moreover have "dist_nodes vsn [0..<length vsn] = Inr vsn" using assms by (intro dist_nodes_idle) auto
  moreover have "\<not> list_ex (\<lambda>n. iRoundScore n \<noteq> 0) vsn" using assms by (auto simp: idle_def list_ex_iff)
  ultimately show ?thesis by (simp add: scoreRound_def)
qed

lemma score_rounds_idle:
  assumes "\<forall>n\<in>set vsn. idle n"
  shows "score_rounds SCORE_ROUNDS True vsn = Inr (map (\<lambda>n. n\<lparr>iRoundSeed := 0\<rparr>) vsn)"
  using scoreRound_idle [OF assms] by (simp add: SCORE_ROUNDS_def eval_nat_numeral)

subsection \<open>What is stored\<close>

definition seen_of :: "TrustedNodes_row \<Rightarrow> int" where
  "seen_of r = (case tn_Seen r of None \<Rightarrow> - 1 | Some t \<Rightarrow> t)"

text \<open>The nodes and the index agree.\<close>

definition indexed :: "scoring \<Rightarrow> scoreNode list \<Rightarrow> bool" where
  "indexed g vsn \<longleftrightarrow> (\<forall>i<length vsn. umPulicIdx g (strValidator (vsn ! i)) = Some (int i))
     \<and> (\<forall>k i. umPulicIdx g k = Some i \<longrightarrow> 0 \<le> i \<and> i < int (length vsn) \<and> strValidator (vsn ! nat i) = k)"

definition set_seen :: "TrustedNodes_row list \<Rightarrow> scoreNode \<Rightarrow> scoreNode" where
  "set_seen rows n = (case sql_find tn_PublicKey (SqlBlob (strValidator n)) rows of None \<Rightarrow> n | Some r \<Rightarrow> n\<lparr>iSeen := seen_of r\<rparr>)"

lemma set_seen_fields [simp]: "strValidator (set_seen rows n) = strValidator n" "iScore (set_seen rows n) = iScore n"
  by (simp_all add: set_seen_def split: option.split)

lemma load_seen_step:
  assumes "indexed g vsn" "map strValidator v = map strValidator vsn"
  shows "(if \<exists>n\<in>set vsn. sql_eq (tn_PublicKey r) (SqlBlob (strValidator n)) then
       case umPulicIdx g (getStrBinary (tn_PublicKey r)) of
         None \<Rightarrow> Inl Undefined_behaviour
       | Some i \<Rightarrow> ebind (vec_at v i) (\<lambda>n. Inr (v[nat i := n\<lparr>iSeen := (case tn_Seen r of None \<Rightarrow> - 1 | Some t \<Rightarrow> t)\<rparr>]))
     else Inr v) = Inr (map (set_seen [r]) v)"
proof (cases "\<exists>n\<in>set vsn. sql_eq (tn_PublicKey r) (SqlBlob (strValidator n))")
  case True
  then obtain j where j: "j < length vsn" "tn_PublicKey r = SqlBlob (strValidator (vsn ! j))"
    by (auto simp: sql_eq_def in_set_conv_nth)
  have len: "length v = length vsn" using assms(2) by (metis length_map)
  have name: "strValidator (v ! i) = strValidator (vsn ! i)" if "i < length vsn" for i
    using assms(2) that len by (metis nth_map)
  have idx: "umPulicIdx g (strValidator (vsn ! i)) = Some (int i)" if "i < length vsn" for i
    using assms(1) that by (simp add: indexed_def)
  have "v[j := (v ! j)\<lparr>iSeen := seen_of r\<rparr>] = map (set_seen [r]) v"
  proof (rule nth_equalityI)
    fix i assume i: "i < length (v[j := (v ! j)\<lparr>iSeen := seen_of r\<rparr>])"
    then have "strValidator (v ! i) = strValidator (vsn ! j) \<longleftrightarrow> i = j"
      using name idx j(1) len by (metis length_list_update of_nat_eq_iff option.inject)
    then show "v[j := (v ! j)\<lparr>iSeen := seen_of r\<rparr>] ! i = map (set_seen [r]) v ! i"
      using i j len by (auto simp: set_seen_def sql_find_def nth_list_update)
  qed simp
  then show ?thesis using True j idx len by (simp add: vec_at_def seen_of_def)
next
  case False
  have names: "strValidator ` set v = strValidator ` set vsn" using assms(2) by (metis list.set_map)
  have "sql_find tn_PublicKey (SqlBlob (strValidator n)) [r] = None" if n: "n \<in> set v" for n
  proof -
    obtain m where "m \<in> set vsn" "strValidator n = strValidator m" using n names by (metis imageE imageI)
    with False show ?thesis by (simp add: sql_find_def)
  qed
  then have "map (set_seen [r]) v = v" by (intro map_idI) (simp add: set_seen_def)
  with False show ?thesis by simp
qed

lemma set_seen_Cons:
  assumes "distinct (map tn_PublicKey (r # rows))"
  shows "set_seen rows (set_seen [r] n) = set_seen (r # rows) n"
proof -
  have "sql_find tn_PublicKey (SqlBlob (strValidator n)) rows = None" if "tn_PublicKey r = SqlBlob (strValidator n)"
    using assms that by (auto simp: sql_find_def find_None_iff sql_eq_def) (metis imageI)
  then show ?thesis
    by (auto simp: set_seen_def sql_find_def sql_eq_def split: option.split)
qed

lemma load_seen_eq:
  assumes "indexed g vsn" "distinct (map tn_PublicKey rows)"
  shows "load_seen g rows vsn = Inr (map (set_seen rows) vsn)"
proof -
  define F where "F = (\<lambda>acc (r :: TrustedNodes_row). ebind acc (\<lambda>v :: scoreNode list. if \<exists>n\<in>set vsn. sql_eq (tn_PublicKey r) (SqlBlob (strValidator n)) then
       case umPulicIdx g (getStrBinary (tn_PublicKey r)) of
         None \<Rightarrow> Inl Undefined_behaviour
       | Some i \<Rightarrow> ebind (vec_at v i) (\<lambda>n. Inr (v[nat i := n\<lparr>iSeen := (case tn_Seen r of None \<Rightarrow> - 1 | Some t \<Rightarrow> t)\<rparr>]))
     else Inr v))"
  have step: "F (Inr v) r = Inr (map (set_seen [r]) v)" if "map strValidator v = map strValidator vsn" for v r
    unfolding F_def ebind_simps by (rule load_seen_step [OF assms(1) that])
  have none: "set_seen [] = (\<lambda>n. n)" by (simp add: set_seen_def sql_find_def fun_eq_iff)
  have "foldl F (Inr v) rows = Inr (map (set_seen rows) v)" if "map strValidator v = map strValidator vsn" for v
    using assms(2) that
  proof (induction rows arbitrary: v)
    case (Cons r rows)
    have "map strValidator (map (set_seen [r]) v) = map strValidator vsn" using Cons.prems(2) by (simp add: comp_def)
    then have "foldl F (Inr (map (set_seen [r]) v)) rows = Inr (map (set_seen rows) (map (set_seen [r]) v))"
      using Cons by simp
    then show ?case using step [OF Cons.prems(2)] set_seen_Cons [OF Cons.prems(1)] by simp
  qed (simp add: none)
  then show ?thesis by (simp add: load_seen_def F_def)
qed

lemma sql_find_map: "(\<And>r. key (f r) = key r) \<Longrightarrow> sql_find key v (map f rows) = map_option f (sql_find key v rows)"
  by (induction rows) (auto simp: sql_find_def)

lemma sql_find_replaces:
  assumes "distinct (map key rs)" "\<forall>r\<in>set rs. key r \<noteq> SqlNull"
  shows "sql_find key v (sql_replaces key rs rows) = (case sql_find key v rs of None \<Rightarrow> sql_find key v rows | Some r \<Rightarrow> Some r)"
  using assms
proof (induction rs arbitrary: rows)
  case (Cons r rs)
  have "sql_find key v rs = None" if "sql_eq (key r) v"
    using Cons.prems(1) that by (auto simp: sql_find_def find_None_iff sql_eq_def) (metis imageI)
  moreover have "sql_find key v (sql_replaces key (r # rs) rows)
    = (case sql_find key v rs of None \<Rightarrow> sql_find key v (sql_replace key r rows) | Some r \<Rightarrow> Some r)"
    using Cons by (simp add: sql_replaces_def)
  ultimately show ?case
    using sql_find_replace [of key r v rows] Cons.prems(2) by (auto simp: sql_find_def split: option.split)
qed (simp add: sql_replaces_def sql_find_def)

lemma scored_nodes:
  assumes "scored L g"
  shows "indexed g (vsnNodes g)" "strValidator ` set (vsnNodes g) = fst ` set L"
    "n \<in> set (vsnNodes g) \<Longrightarrow> n = new_node (strValidator n) (best_score L (strValidator n))"
    "distinct (map strValidator (vsnNodes g))"
proof -
  have idx: "umPulicIdx g (strValidator (vsnNodes g ! i)) = Some (int i)" if "i < length (vsnNodes g)" for i
    using assms that by (simp add: scored_def)
  have node: "0 \<le> i \<and> i < int (length (vsnNodes g)) \<and> vsnNodes g ! nat i = new_node k (best_score L k)" if "umPulicIdx g k = Some i" for k i
    using assms that by (simp add: scored_def)
  show "indexed g (vsnNodes g)" using idx node by (simp add: indexed_def)
  show "n = new_node (strValidator n) (best_score L (strValidator n))" if "n \<in> set (vsnNodes g)"
    using that node [OF idx] by (auto simp: in_set_conv_nth)
  show "strValidator ` set (vsnNodes g) = fst ` set L"
  proof (intro equalityI subsetI)
    fix k assume "k \<in> strValidator ` set (vsnNodes g)"
    then have "k \<in> dom (umPulicIdx g)" using idx by (auto simp: in_set_conv_nth)
    then show "k \<in> fst ` set L" using assms by (simp add: scored_def)
  next
    fix k assume "k \<in> fst ` set L"
    then have "k \<in> dom (umPulicIdx g)" using assms by (simp add: scored_def)
    then obtain i where "umPulicIdx g k = Some i" by blast
    with node have "nat i < length (vsnNodes g)" "strValidator (vsnNodes g ! nat i) = k" by fastforce+
    then show "k \<in> strValidator ` set (vsnNodes g)" by (metis imageI nth_mem)
  qed
  show "distinct (map strValidator (vsnNodes g))"
    using idx by (auto simp: distinct_conv_nth) (metis of_nat_eq_iff option.inject)
qed

lemma score_rounds_scored:
  assumes "scored L g"
  shows "score_rounds SCORE_ROUNDS True (vsnNodes g) = Inr (map (\<lambda>n. n\<lparr>iRoundSeed := 0\<rparr>) (vsnNodes g))"
proof (intro score_rounds_idle ballI)
  fix n assume "n \<in> set (vsnNodes g)"
  then have n: "n = new_node (strValidator n) (best_score L (strValidator n))" by (rule scored_nodes(3) [OF assms])
  have "idle (new_node k (best_score L k))" for k
    using best_score_bounds [of L k] by (simp add: idle_def in_int_def INT_MIN_def INT_MAX_def)
  with n show "idle n" by metis
qed

subsection \<open>Points of the addresses\<close>

definition epTotal :: "epScore \<Rightarrow> int" where
  "epTotal m = sum_list (map snd m)"

lemma add_points_total: "epTotal (add_points ep p m) = epTotal m + p"
  by (induction ep p m rule: add_points.induct) (auto simp: epTotal_def)

lemma add_points_nonneg: "\<forall>q\<in>set m. 0 \<le> snd q \<Longrightarrow> 0 \<le> p \<Longrightarrow> \<forall>q\<in>set (add_points ep p m). 0 \<le> snd q"
  by (induction ep p m rule: add_points.induct) auto

lemma ip_points_total:
  assumes "0 \<le> b" "0 < n" "i + int (length rs) = n" "0 \<le> i" "\<forall>q\<in>set m. 0 \<le> snd q"
  shows "epTotal (ip_points b n i rs m) = epTotal m + points_from b n (length rs) \<and> (\<forall>q\<in>set (ip_points b n i rs m). 0 \<le> snd q)"
  using assms
proof (induction rs arbitrary: i m)
  case (Cons r rs)
  let ?p = "b * int (Suc (length rs)) div n"
  have ni: "n - i = int (Suc (length rs))" using Cons.prems by simp
  have ip: "iPoints b n i = ?p" unfolding iPoints_def ni using Cons.prems by (intro sdiv_nonneg) simp_all
  have p: "0 \<le> ?p" using Cons.prems by (simp add: pos_imp_zdiv_nonneg_iff)
  let ?m = "add_points (getStrBinary (ir_IP r), ir_Port r) ?p m"
  have "epTotal (ip_points b n (i + 1) rs ?m) = epTotal ?m + points_from b n (length rs)
      \<and> (\<forall>q\<in>set (ip_points b n (i + 1) rs ?m). 0 \<le> snd q)"
    using Cons.prems p by (intro Cons.IH add_points_nonneg) auto
  then show ?case using ip by (simp add: add_points_total)
qed simp

text \<open>At most the fifty addresses a validator may list.\<close>

definition ips_bounded :: "IpReferrals_row list \<Rightarrow> bool" where
  "ips_bounded rows \<longleftrightarrow> (\<forall>r\<in>set rows. (\<exists>v. ir_Validator r = SqlBlob v)
     \<and> length (filter (\<lambda>x. ir_Validator x = ir_Validator r) rows) \<le> REFERRAL_VALIDATORS_MAX)"

lemma ip_count_bounds:
  assumes "ips_bounded rows" "v \<in> set (ip_validators rows)"
  shows "ip_count rows v = int (length (filter (\<lambda>r. sql_eq (ir_Validator r) (SqlBlob v)) rows))" "0 < ip_count rows v" "ip_count rows v \<le> 50"
proof -
  obtain r where r: "r \<in> set rows" "ir_Validator r = SqlBlob v"
    using assms by (force simp: ip_validators_def ips_bounded_def)
  have "sql_eq (ir_Validator r) (SqlBlob v) \<longleftrightarrow> ir_Validator r = SqlBlob v" for r :: IpReferrals_row by (auto simp: sql_eq_def)
  moreover have "r \<in> set (filter (\<lambda>r. ir_Validator r = SqlBlob v) rows)" using r by simp
  then have "filter (\<lambda>r. ir_Validator r = SqlBlob v) rows \<noteq> []" by force
  moreover have "length (filter (\<lambda>x. ir_Validator x = SqlBlob v) rows) \<le> 50"
    using assms(1) r unfolding ips_bounded_def REFERRAL_VALIDATORS_MAX_def by metis
  ultimately show "ip_count rows v = int (length (filter (\<lambda>r. sql_eq (ir_Validator r) (SqlBlob v)) rows))" "0 < ip_count rows v" "ip_count rows v \<le> 50"
    by (simp_all add: ip_count_def)
qed

lemma score_ips_ok:
  assumes "ips_bounded rows" "v \<in> set (ip_validators rows)" "indexed g vsn" "\<forall>n\<in>set vsn. 0 \<le> iScore n \<and> 50 * iScore n \<le> INT_MAX"
    and "\<forall>q\<in>set m. 0 \<le> snd q"
  shows "\<exists>m'. score_ips g vsn rows v m = Inr m' \<and> (\<forall>q\<in>set m'. 0 \<le> snd q) \<and> epTotal m' \<le> epTotal m +
    (case umPulicIdx g v of None \<Rightarrow> 0 | Some i \<Rightarrow> iScore (vsn ! nat i))"
proof (cases "umPulicIdx g v")
  case None
  then show ?thesis using assms(5) by (simp add: score_ips_def)
next
  case (Some i)
  let ?rs = "sql_order ir_Entry (filter (\<lambda>r. sql_eq (ir_Validator r) (SqlBlob v)) rows)" and ?n = "ip_count rows v"
  let ?s = "iScore (vsn ! nat i)"
  let ?b = "?s * ?n div ((?n + 1) * ?n div 2)"
  have i: "0 \<le> i" "i < int (length vsn)" using assms(3) Some by (auto simp: indexed_def)
  then have s: "0 \<le> ?s" "50 * ?s \<le> INT_MAX" using assms(4) by auto
  have n: "?n = int (length ?rs)" "0 < ?n" "?n \<le> 50" using ip_count_bounds [OF assms(1,2)] by (simp_all add: sql_order_def)
  have "?s * ?n \<le> ?s * 50" "0 \<le> ?s * ?n" using s n by (auto intro: mult_left_mono)
  then have q: "in_int (?s * ?n)" unfolding in_int_def INT_MIN_def using s(2) by linarith
  have "(?n + 1) * ?n \<le> 51 * 50" by (rule mult_mono) (use n(2,3) in linarith)+
  moreover have "0 \<le> (?n + 1) * ?n" using n(2) by simp
  ultimately have p: "in_int ((?n + 1) * ?n)" unfolding in_int_def INT_MIN_def INT_MAX_def by linarith
  have b: "0 \<le> ?b" using s n by (simp add: div_int_pos_iff)
  have run: "score_ips g vsn rows v m = Inr (ip_points ?b ?n 0 ?rs m)"
    using Some i p q s n by (simp add: score_ips_def vec_at_def int_val_ok sdiv_nonneg Let_def)
  have "epTotal (ip_points ?b ?n 0 ?rs m) = epTotal m + points_from ?b ?n (length ?rs) \<and> (\<forall>q\<in>set (ip_points ?b ?n 0 ?rs m). 0 \<le> snd q)"
    using b n assms(5) by (intro ip_points_total) auto
  moreover have "points_from ?b ?n (length ?rs) \<le> ?s"
    using points_total [of ?s "length ?rs"] s n by simp
  ultimately show ?thesis using run Some by simp
qed

lemma score_all_ips_ok:
  assumes "ips_bounded rows" "set vs \<subseteq> set (ip_validators rows)" "indexed g vsn" "\<forall>n\<in>set vsn. 0 \<le> iScore n \<and> 50 * iScore n \<le> INT_MAX"
    and "\<forall>q\<in>set m. 0 \<le> snd q"
  shows "\<exists>m'. score_all_ips g vsn rows vs m = Inr m' \<and> (\<forall>q\<in>set m'. 0 \<le> snd q) \<and> epTotal m' \<le> epTotal m +
    (\<Sum>v\<leftarrow>vs. case umPulicIdx g v of None \<Rightarrow> 0 | Some i \<Rightarrow> iScore (vsn ! nat i))"
  using assms(2,5)
proof (induction vs arbitrary: m)
  case (Cons v vs)
  then obtain m1 where 1: "score_ips g vsn rows v m = Inr m1" "\<forall>q\<in>set m1. 0 \<le> snd q" "epTotal m1 \<le> epTotal m +
    (case umPulicIdx g v of None \<Rightarrow> 0 | Some i \<Rightarrow> iScore (vsn ! nat i))"
    using score_ips_ok [OF assms(1) _ assms(3,4), of v m] by auto
  with Cons.IH [of m1] Cons.prems(1) show ?case by fastforce
qed simp

lemma persist_ips_runs:
  assumes "ips_bounded (IpReferrals (walletDB s))" "indexed g vsn" "\<forall>n\<in>set vsn. 0 \<le> iScore n \<and> 50 * iScore n \<le> INT_MAX"
  shows "\<exists>rows. persist_ips g vsn s = Some (Inr (), s\<lparr>walletDB := (walletDB s)\<lparr>PeerIps := rows\<rparr>\<rparr>)"
proof -
  have "\<exists>m'. score_all_ips g vsn (IpReferrals (walletDB s)) (if vsn = [] then [] else ip_validators (IpReferrals (walletDB s))) [] = Inr m'"
    using score_all_ips_ok [OF assms(1) _ assms(2,3), of "ip_validators (IpReferrals (walletDB s))" "[]"] by auto
  then show ?thesis by (auto simp: persist_ips_def on_db_def)
qed

lemma zero_trusted_eq: "zero_trusted rows = map (\<lambda>r. r\<lparr>tn_Score := 0\<rparr>) rows"
  by (auto simp: zero_trusted_def)

lemma persist_scores_runs:
  assumes "indexed g vsn" "distinct (map tn_PublicKey (TrustedNodes (walletDB s)))"
  shows "persist_scores g vsn s = Some (Inr (), s\<lparr>walletDB := (walletDB s)\<lparr>TrustedNodes :=
    sql_replaces tn_PublicKey (map (\<lambda>n. trusted_row (set_seen (zero_trusted (TrustedNodes (walletDB s))) n)) vsn) (zero_trusted (TrustedNodes (walletDB s)))\<rparr>,
    mUNL := strValidator ` set vsn\<rparr>)"
proof -
  have "distinct (map tn_PublicKey (zero_trusted (TrustedNodes (walletDB s))))"
    using assms(2) by (simp add: zero_trusted_eq comp_def)
  from load_seen_eq [OF assms(1) this] show ?thesis
    by (simp add: persist_scores_def on_db_def comp_def image_image)
qed

text \<open>The row a scored key gets: its score, and the time it was last seen if that was known.\<close>

definition scored_row :: "walletdb \<Rightarrow> string \<Rightarrow> TrustedNodes_row" where
  "scored_row db k = \<lparr>tn_PublicKey = SqlBlob k, tn_Score = best_score (seeds db) k,
     tn_Seen = (case sql_find tn_PublicKey (SqlBlob k) (TrustedNodes db) of
        None \<Rightarrow> None | Some r \<Rightarrow> if seen_of r \<ge> 0 then Some (seen_of r) else None)\<rparr>"

lemma trusted_row_scored:
  "trusted_row (set_seen (zero_trusted (TrustedNodes db)) ((new_node k (best_score (seeds db) k))\<lparr>iRoundSeed := 0\<rparr>)) = scored_row db k"
proof -
  have "sql_find tn_PublicKey (SqlBlob k) (zero_trusted (TrustedNodes db))
    = map_option (\<lambda>r. r\<lparr>tn_Score := 0\<rparr>) (sql_find tn_PublicKey (SqlBlob k) (TrustedNodes db))"
    unfolding zero_trusted_eq by (rule sql_find_map) simp
  then show ?thesis
    by (auto simp: trusted_row_def set_seen_def scored_row_def seen_of_def split: option.splits)
qed

lemma sql_find_rows: "sql_find key v (map f ks) = (case find (\<lambda>k. sql_eq (key (f k)) v) ks of None \<Rightarrow> None | Some k \<Rightarrow> Some (f k))"
  by (induction ks) (auto simp: sql_find_def)

lemma find_equal: "find (\<lambda>x. x = k) xs = (if k \<in> set xs then Some k else None)"
  by (induction xs) auto

lemma scored_table:
  assumes "scored (seeds db) g"
  shows "sql_find tn_PublicKey (SqlBlob k) (sql_replaces tn_PublicKey
      (map (\<lambda>n. trusted_row (set_seen (zero_trusted (TrustedNodes db)) (n\<lparr>iRoundSeed := 0\<rparr>))) (vsnNodes g)) (zero_trusted (TrustedNodes db)))
    = (if k \<in> fst ` set (seeds db) then Some (scored_row db k)
       else map_option (\<lambda>r. r\<lparr>tn_Score := 0\<rparr>) (sql_find tn_PublicKey (SqlBlob k) (TrustedNodes db)))"
proof -
  note sc = scored_nodes [OF assms]
  define ks where "ks = map strValidator (vsnNodes g)"
  have rows: "map (\<lambda>n. trusted_row (set_seen (zero_trusted (TrustedNodes db)) (n\<lparr>iRoundSeed := 0\<rparr>))) (vsnNodes g) = map (scored_row db) ks"
    using sc(3) trusted_row_scored [of db] by (auto simp: ks_def comp_def) metis
  have key: "tn_PublicKey (scored_row db x) = SqlBlob x" for x by (simp add: scored_row_def)
  have "distinct (map tn_PublicKey (map (scored_row db) ks))"
    using sc(4) by (simp add: ks_def comp_def key distinct_map inj_on_def)
  moreover have "find (\<lambda>x. x = k) ks = (if k \<in> fst ` set (seeds db) then Some k else None)"
    using sc(2) by (simp add: ks_def find_equal)
  moreover have "sql_find tn_PublicKey (SqlBlob k) (zero_trusted (TrustedNodes db))
    = map_option (\<lambda>r. r\<lparr>tn_Score := 0\<rparr>) (sql_find tn_PublicKey (SqlBlob k) (TrustedNodes db))"
    unfolding zero_trusted_eq by (rule sql_find_map) simp
  ultimately show ?thesis
    unfolding rows by (subst sql_find_replaces) (simp_all add: key sql_find_rows)
qed

section \<open>Properties\<close>

text \<open>Scoring a database in which the referring validators are stored as texts, which is how
  \<^verbatim>\<open>processValidators\<close> stores them, succeeds, and no referral counts: the unique node list becomes
  exactly the keys of the seed domains and seed nodes; in \<^verbatim>\<open>TrustedNodes\<close> each of them gets the best score of
  its sources and keeps the time it was seen, every other node falls to score 0, and the seeds stay as they were.\<close>

lemma scoreCompute_seeds:
  assumes "sources_known (walletDB s)" and "validators_text (walletDB s)"
    and "distinct (map tn_PublicKey (TrustedNodes (walletDB s)))" and "ips_bounded (IpReferrals (walletDB s))"
  shows "\<exists>t. scoreCompute E realloc s = Some (Inr (), t) \<and> mUNL t = fst ` set (seeds (walletDB s))
    \<and> (\<forall>k. sql_find tn_PublicKey (SqlBlob k) (TrustedNodes (walletDB t)) =
        (if k \<in> mUNL t then Some (scored_row (walletDB s) k)
         else map_option (\<lambda>r. r\<lparr>tn_Score := 0\<rparr>) (sql_find tn_PublicKey (SqlBlob k) (TrustedNodes (walletDB s)))))
    \<and> seeds (walletDB t) = seeds (walletDB s)"
proof -
  let ?db = "walletDB s"
  obtain g where g: "gather_nodes E realloc ?db = Some (Inr g)" "scored (seeds ?db) g"
    using gather_nodes_seeds [OF assms(1,2)] by blast
  let ?v = "map (\<lambda>n. n\<lparr>iRoundSeed := 0\<rparr>) (vsnNodes g)"
  let ?rows = "sql_replaces tn_PublicKey (map (\<lambda>n. trusted_row (set_seen (zero_trusted (TrustedNodes ?db)) (n\<lparr>iRoundSeed := 0\<rparr>)))
    (vsnNodes g)) (zero_trusted (TrustedNodes ?db))"
  let ?u = "s\<lparr>walletDB := ?db\<lparr>TrustedNodes := ?rows\<rparr>, mUNL := strValidator ` set ?v\<rparr>"
  note sc = scored_nodes [OF g(2)]
  have idx: "indexed g ?v" using sc(1) by (auto simp: indexed_def nat_less_iff)
  have run: "persist_scores g ?v s = Some (Inr (), ?u)" using persist_scores_runs [OF idx assms(3)] by (simp add: comp_def)
  have "0 \<le> iScore n \<and> 50 * iScore n \<le> INT_MAX" if "n \<in> set ?v" for n
  proof -
    from that obtain m where m: "m \<in> set (vsnNodes g)" "iScore n = iScore m" by auto
    then have "iScore n = best_score (seeds ?db) (strValidator m)" using sc(3) [OF m(1)] by (metis new_node_fields(2))
    then show ?thesis using best_score_bounds [of "seeds ?db" "strValidator m"] by (simp add: INT_MAX_def)
  qed
  then obtain rows where "persist_ips g ?v ?u = Some (Inr (), ?u\<lparr>walletDB := (walletDB ?u)\<lparr>PeerIps := rows\<rparr>\<rparr>)"
    using persist_ips_runs [of ?u g ?v] assms(4) idx by auto
  then have "scoreCompute E realloc s = Some (Inr (), ?u\<lparr>walletDB := (walletDB ?u)\<lparr>PeerIps := rows\<rparr>\<rparr>)"
    using g score_rounds_scored [OF g(2)] mseq_return [where m = "persist_scores g ?v" and k = "persist_ips g ?v", OF run] by (simp add: scoreCompute_def)
  moreover have "strValidator ` set ?v = fst ` set (seeds ?db)" using sc(2) by (simp add: image_image)
  ultimately show ?thesis
    using scored_table [OF g(2)] by (intro exI [of _ "?u\<lparr>walletDB := (walletDB ?u)\<lparr>PeerIps := rows\<rparr>\<rparr>"]) (simp add: seeds_def)
qed


text \<open>C34: The points that the addresses listed by the validators get are at most the scores of these
  validators; none is negative.\<close>

theorem ip_points_bounded:
  assumes "ips_bounded rows" and "indexed g vsn" and "\<forall>n\<in>set vsn. 0 \<le> iScore n \<and> 50 * iScore n \<le> INT_MAX"
  shows "\<exists>m. score_all_ips g vsn rows (ip_validators rows) [] = Inr m \<and> (\<forall>q\<in>set m. 0 \<le> snd q)
    \<and> sum_list (map snd m) \<le> (\<Sum>v\<leftarrow>ip_validators rows. case umPulicIdx g v of None \<Rightarrow> 0 | Some i \<Rightarrow> iScore (vsn ! nat i))"
  using score_all_ips_ok [OF assms(1) order_refl assms(2,3), of "[]"] by (simp add: epTotal_def)

theorem ip_points_bounded_witness:
  "\<exists>m. score_all_ips \<lparr>umPulicIdx = [''k'' \<mapsto> 0], umDomainIdx = Map.empty, vsnNodes = []\<rparr> [new_node ''k'' 1500]
      [\<lparr>ir_Validator = SqlBlob ''k'', ir_Entry = 0, ir_IP = SqlBlob ''1.2.3.4'', ir_Port = 51\<rparr>] [''k''] [] = Inr m \<and> sum_list (map snd m) \<le> 1500"
proof -
  let ?g = "\<lparr>umPulicIdx = [''k'' \<mapsto> 0], umDomainIdx = Map.empty, vsnNodes = []\<rparr>"
  let ?rows = "[\<lparr>ir_Validator = SqlBlob ''k'', ir_Entry = 0, ir_IP = SqlBlob ''1.2.3.4'', ir_Port = 51\<rparr>]"
  have "ips_bounded ?rows" by (simp add: ips_bounded_def REFERRAL_VALIDATORS_MAX_def)
  moreover have "indexed ?g [new_node ''k'' 1500]" by (simp add: indexed_def)
  ultimately show ?thesis
    using ip_points_bounded [of ?rows ?g "[new_node ''k'' 1500]"] by (simp add: ip_validators_def INT_MAX_def) blast
qed

end
