(* ===== verification/UnlSystem.thy ===== *)
theory UnlSystem
  imports UnlScore
begin

text \<open>
  The unique node list as a system: its operations, the answers of the https requests it started and its
  timers, in any order. Two invariants hold in every state it reaches: \<^verbatim>\<open>mFetchActive\<close> counts the
  fetches under way, and the database is one that \<^verbatim>\<open>scoreCompute\<close> can score.
\<close>

section \<open>A database that can be scored\<close>

definition scorable :: "walletdb \<Rightarrow> bool" where
  "scorable db \<longleftrightarrow> sources_known db \<and> validators_text db \<and> distinct (map tn_PublicKey (TrustedNodes db)) \<and> ips_bounded (IpReferrals db)"

abbreviation scorable_state :: "unl \<Rightarrow> bool" where
  "scorable_state s \<equiv> scorable (walletDB s)"

text \<open>\<open>gives I P m\<close>: from \<open>I\<close>, the program returns to \<open>I\<close> with a value in \<open>P\<close>.\<close>

definition gives :: "('s \<Rightarrow> bool) \<Rightarrow> ('a \<Rightarrow> bool) \<Rightarrow> ('s, 'a) prog \<Rightarrow> bool" where
  "gives I P m \<longleftrightarrow> (\<forall>s. I s \<longrightarrow> wp m (\<lambda>x t. P x \<and> I t) s)"

lemma gives_bind: "gives I P m \<Longrightarrow> (\<And>x. P x \<Longrightarrow> keeps I (f x)) \<Longrightarrow> keeps I (mbind m f)"
  by (auto simp: gives_def keeps_def wp_mbind intro: wp_conseq)

lemma gives_gives: "gives I P m \<Longrightarrow> (\<And>x. P x \<Longrightarrow> gives I Q (f x)) \<Longrightarrow> gives I Q (mbind m f)"
  by (auto simp: gives_def wp_mbind intro: wp_conseq)

lemma gives_keeps: "keeps I m \<Longrightarrow> gives I (\<lambda>_. True) m"
  by (simp add: gives_def keeps_def)

lemma gives_return: "P x \<Longrightarrow> gives I P (return x)"
  by (simp add: gives_def wp_simps)

named_theorems gives_rules \<open>rules for gives\<close>

lemma gives_basic [gives_rules]: "P x \<Longrightarrow> gives I P (return x)" "gives I P (throw e)"
  by (simp_all add: gives_def wp_simps)

lemma gives_mbind [gives_rules]: "keeps I m \<Longrightarrow> (\<And>x. gives I P (f x)) \<Longrightarrow> gives I P (mbind m f)"
  by (rule gives_gives [OF gives_keeps])

lemma gives_mseq [gives_rules]: "keeps I m \<Longrightarrow> gives I P k \<Longrightarrow> gives I P (mseq m k)"
  unfolding mseq_def by (rule gives_mbind)

lemma gives_split [gives_rules]:
  "(b \<Longrightarrow> gives I P m) \<Longrightarrow> (\<not> b \<Longrightarrow> gives I P k) \<Longrightarrow> gives I P (if b then m else k)"
  "gives I P m \<Longrightarrow> (\<And>x. gives I P (f x)) \<Longrightarrow> gives I P (case q of None \<Rightarrow> m | Some x \<Rightarrow> f x)"
  "(\<And>a b. p = (a, b) \<Longrightarrow> gives I P (g a b)) \<Longrightarrow> gives I P (case p of (a, b) \<Rightarrow> g a b)"
  by (simp, cases q, simp_all, cases p, simp)

lemma gives_sum_bool [gives_rules]:
  "(\<And>e d. gives I P (f e d)) \<Longrightarrow> (\<And>d. gives I P (g d)) \<Longrightarrow> (\<And>d. gives I P (h d)) \<Longrightarrow>
   gives I P (case p of (Inl e, d) \<Rightarrow> f e d | (Inr True, d) \<Rightarrow> g d | (Inr False, d) \<Rightarrow> h d)"
  by (cases p; cases "fst p") (auto split: bool.split)

lemma gives_mfold:
  assumes "\<And>x b. P b \<Longrightarrow> gives I P (f x b)" "P b"
  shows "gives I P (mfold f xs b)"
  using assms(2)
proof (induction xs arbitrary: b)
  case (Cons x xs)
  then show ?case using assms(1) by (auto intro: gives_gives)
qed (simp add: gives_return)

lemma keeps_on_db: "(\<And>db. scorable db \<Longrightarrow> scorable (f db)) \<Longrightarrow> keeps scorable_state (on_db f)"
  unfolding on_db_def by (rule keeps_change) simp

lemma scorable_other [simp]:
  "scorable (db\<lparr>Misc := m\<rparr>) = scorable db" "scorable (db\<lparr>PeerIps := p\<rparr>) = scorable db"
  by (simp_all add: scorable_def sources_known_def validators_text_def)

lemma keeps_db_basic [keeps_rules]: "keeps scorable_state universal_time" "keeps scorable_state (emit e)"
  by (auto simp: keeps_def wp_def universal_time_def emit_def)

lemma keeps_db_sched [keeps_rules]:
  "keeps scorable_state miscSave" "keeps scorable_state (scoreNext b)"
  unfolding miscSave_def scoreNext_def Let_def by (intro keeps_rules keeps_change keeps_on_db; simp)+

lemma keeps_db_dirty [keeps_rules]: "keeps scorable_state fetchDirty"
  unfolding fetchDirty_def by (intro keeps_rules keeps_change; simp)

subsection \<open>Sources\<close>

definition known :: "validatorSource \<Rightarrow> bool" where
  "known c \<longleftrightarrow> (\<exists>b. iSourceScore c = Inr b)"

abbreviation found_known :: "bool \<times> seedDomain \<Rightarrow> bool" where
  "found_known q \<equiv> fst q \<longrightarrow> known (vsSource (snd q))"

lemma getSeedDomains_known: "gives scorable_state found_known (getSeedDomains E d x)"
  unfolding gives_def getSeedDomains_def
  by (auto simp: wp_simps scorable_def sources_known_def known_def split: option.split dest!: sql_find_Some)

lemma getSeedNodes_known: "gives scorable_state found_known (getSeedNodes E na x)"
  unfolding gives_def getSeedNodes_def
  by (auto simp: wp_simps scorable_def sources_known_def known_def split: option.split dest!: sql_find_Some)

lemma keeps_db_store: "known (vsSource sd) \<Longrightarrow> keeps scorable_state (storeSeedDomains E sd)"
  unfolding storeSeedDomains_def
  by (intro keeps_rules keeps_on_db)
    (auto simp: scorable_def sources_known_def validators_text_def sql_replace_def known_def first_char_def)

lemma keeps_fetchNext: "keeps I (fetchNext_step E) \<Longrightarrow> keeps I (fetchNext E)"
proof -
  assume k: "keeps I (fetchNext_step E)"
  have "keeps I (fetchNext_step E) \<longrightarrow> I s \<longrightarrow> (\<forall>x t. y = (Inr x, t) \<longrightarrow> I t)" if "fetchNext E s = Some y" for s y
    using that
  proof (induction rule: fetchNext.raw_induct [rotated, consumes 1])
    case (1 fetchNext E s y)
    show ?case
    proof (intro impI allI)
      fix x t assume k: "keeps I (fetchNext_step E)" and s: "I s" and y: "y = (Inr x, t)"
      from 1(2) y obtain again s' where step: "fetchNext_step E s = Some (Inr again, s')"
        by (cases "fetchNext_step E s") (auto split: sum.splits)
      then have s': "I s'" using k s by (blast dest: keepsD)
      show "I t" using 1(1) [of E s' y] 1(2) step s' k y by (cases again) auto
    qed
  qed
  with k show ?thesis by (auto simp: keeps_def wp_def)
qed

lemma keeps_db_fetch: "keeps scorable_state (fetchNext E)"
proof -
  have "keeps scorable_state (fetchNow E d now)" for d now
    unfolding fetchNow_def fetchProcess_def
    by (rule keeps_mseq, rule keeps_change, simp, rule gives_bind [OF getSeedDomains_known])
      (auto intro!: keeps_rules keeps_db_store)
  then show ?thesis
    by (intro keeps_fetchNext) (auto simp: fetchNext_step_def Let_def intro!: keeps_rules keeps_change)
qed

lemmas keeps_db_store_all = keeps_db_store keeps_db_fetch

lemma keeps_db_domains:
  "known (vsSource sd) \<Longrightarrow> keeps scorable_state (setSeedDomains E sd b)" "keeps scorable_state (fetchFinish E)"
  unfolding setSeedDomains_def fetchFinish_def by (intro keeps_rules keeps_db_store_all keeps_change; simp)+

lemma scorable_put_node:
  "scorable db \<Longrightarrow> known c \<Longrightarrow> sn_Source r = SqlText [c] \<Longrightarrow> scorable (db\<lparr>SeedNodes := sql_replace sn_PublicKey r (SeedNodes db)\<rparr>)"
  by (auto simp: scorable_def sources_known_def validators_text_def sql_replace_def known_def first_char_def)

lemma keeps_db_nodes:
  assumes "known (vsSource sn)"
  shows "keeps scorable_state (setSeedNodes E sn b)"
proof -
  have q: "gives scorable_state (\<lambda>src. src = SqlText [vsSource sn]) (lift (quoted [vsSource sn]))"
    by (auto simp: gives_def wp_simps quoted_def)
  show ?thesis
    unfolding setSeedNodes_def
    by (rule keeps_mbind [OF keeps_basic(4)], rule keeps_if, rule keeps_basic,
        rule keeps_mbind [OF keeps_basic(5)], rule keeps_mbind [OF keeps_basic(4)], rule gives_bind [OF q])
      (auto intro!: keeps_rules keeps_on_db scorable_put_node [OF _ assms])
qed

lemma promote_known:
  "known why \<Longrightarrow> b \<longrightarrow> known (vsSource sd) \<Longrightarrow> gives scorable_state (\<lambda>(_, sd'). known (vsSource sd')) (promote why c b sd)"
  unfolding promote_def gives_def by (auto simp: wp_simps Let_def)

lemma keeps_db_add:
  assumes "known why"
  shows "keeps scorable_state (nodeAddDomain E d why c)" "keeps scorable_state (nodeAddPublic E na why c)"
proof -
  have 1: "gives scorable_state (\<lambda>sd'. q \<longrightarrow> known (vsSource sd'))
      (if q then return sd else mbind universal_time (\<lambda>now. return (f now)))"
    if "q \<longrightarrow> known (vsSource sd)" for q sd f
    using that by (auto simp: gives_def wp_simps)
  show "keeps scorable_state (nodeAddDomain E d why c)"
    unfolding nodeAddDomain_def Let_def
    by (rule gives_bind [OF getSeedDomains_known], clarify, rule gives_bind [OF 1], simp, rule gives_bind [OF promote_known [OF assms]])
      (auto intro!: keeps_rules keeps_db_domains)
  show "keeps scorable_state (nodeAddPublic E na why c)"
    unfolding nodeAddPublic_def
    by (rule gives_bind [OF getSeedNodes_known], clarify, rule gives_bind [OF 1], simp, rule gives_bind [OF promote_known [OF assms]])
      (auto intro!: keeps_rules keeps_db_nodes)
qed

lemma keeps_db_remove [keeps_rules]:
  "keeps scorable_state (nodeRemovePublic E na)" "keeps scorable_state (nodeRemoveDomain d)"
  "keeps scorable_state nodeReset" "keeps scorable_state nodeScore"
  unfolding nodeRemovePublic_def nodeRemoveDomain_def nodeReset_def nodeScore_def Let_def
  by (intro keeps_rules keeps_on_db; auto simp: scorable_def sources_known_def validators_text_def sql_delete_def)+

subsection \<open>Referrals\<close>

lemma ip_values:
  "wp (mfold (ip_value N v) lines vs) (\<lambda>vs' t. t = s \<and> length vs' \<le> REFERRAL_VALIDATORS_MAX \<and> (\<forall>r\<in>set vs'. ir_Validator r = v)
     \<and> map ir_Entry vs' = map int [0..<length vs']) s"
  if "length vs \<le> REFERRAL_VALIDATORS_MAX" "\<forall>r\<in>set vs. ir_Validator r = v" "map ir_Entry vs = map int [0..<length vs]"
  using that
proof (induction lines arbitrary: vs)
  case (Cons line lines)
  then have "wp (ip_value N v line vs) (\<lambda>vs' t. t = s \<and> length vs' \<le> REFERRAL_VALIDATORS_MAX \<and> (\<forall>r\<in>set vs'. ir_Validator r = v)
     \<and> map ir_Entry vs' = map int [0..<length vs']) s"
    by (auto simp: ip_value_def wp_simps split: option.split)
  then show ?case unfolding mfold.simps wp_mbind by (rule wp_conseq) (auto intro: Cons.IH)
qed (simp add: wp_simps)

lemma ips_bounded_insert:
  assumes "ips_bounded rows" "length vs \<le> REFERRAL_VALIDATORS_MAX" "\<forall>r\<in>set vs. ir_Validator r = SqlBlob h"
  shows "ips_bounded (sql_inserts (\<lambda>r. (ir_Validator r, ir_Entry r)) vs (sql_delete ir_Validator (SqlBlob h) rows))"
proof -
  let ?rows = "sql_delete ir_Validator (SqlBlob h) rows"
  have none: "filter (\<lambda>x. ir_Validator x = SqlBlob h) ?rows = []" by (auto simp: sql_delete_def sql_eq_def filter_empty_conv)
  have le: "length (filter (\<lambda>x. ir_Validator x = v) ?rows) \<le> length (filter (\<lambda>x. ir_Validator x = v) rows)" for v
    unfolding sql_delete_def by (induction rows) auto
  have del: "ips_bounded ?rows"
    using assms(1) le unfolding ips_bounded_def by (fastforce simp: sql_delete_def intro: order_trans)
  have "ips_bounded (?rows @ vs)"
    unfolding ips_bounded_def
  proof (intro ballI conjI)
    fix r assume r: "r \<in> set (?rows @ vs)"
    show "\<exists>v. ir_Validator r = SqlBlob v" using r del assms(3) by (auto simp: ips_bounded_def)
    show "length (filter (\<lambda>x. ir_Validator x = ir_Validator r) (?rows @ vs)) \<le> REFERRAL_VALIDATORS_MAX"
    proof (cases "ir_Validator r = SqlBlob h")
      case True
      then show ?thesis using none assms(2) by (auto intro: order_trans [OF length_filter_le])
    next
      case False
      then have "r \<in> set ?rows" "filter (\<lambda>x. ir_Validator x = ir_Validator r) vs = []"
        using r assms(3) by (auto simp: filter_empty_conv)
      then show ?thesis using del by (simp add: ips_bounded_def)
    qed
  qed
  then show ?thesis using del by (simp add: sql_inserts_def)
qed

lemma ips_bounded_delete: "ips_bounded rows \<Longrightarrow> ips_bounded (sql_delete ir_Validator (SqlBlob h) rows)"
  using ips_bounded_insert [of rows "[]" h] by (simp add: sql_inserts_def)

lemma scorable_ips: "scorable db \<Longrightarrow> ips_bounded rows \<Longrightarrow> scorable (db\<lparr>IpReferrals := rows\<rparr>)"
  by (simp add: scorable_def sources_known_def validators_text_def)

lemma keeps_db_ips: "keeps scorable_state (processIps E N site na ips)"
proof (rule keepsI)
  fix s assume s: "scorable_state s"
  have b: "ips_bounded (IpReferrals (walletDB s))" using s by (simp add: scorable_def)
  have dirty: "wp fetchDirty (\<lambda>_. scorable_state) t" if "scorable_state t" for t
    using that keeps_db_dirty by (auto simp: keeps_def)
  show "wp (processIps E N site na ips) (\<lambda>_. scorable_state) s"
    using s b
    by (auto simp: processIps_def wp_simps on_db_def split: option.split
      intro!: dirty scorable_ips ips_bounded_delete wp_conseq [OF ip_values] ips_bounded_insert)
qed

lemma scorable_validators:
  "scorable db \<Longrightarrow> \<forall>r\<in>set vs. \<exists>v. vr_Validator r = SqlText v \<Longrightarrow>
   scorable (db\<lparr>ValidatorReferrals := sql_inserts key vs (ValidatorReferrals db)\<rparr>)"
  "scorable db \<Longrightarrow> scorable (db\<lparr>ValidatorReferrals := sql_delete vr_Validator x (ValidatorReferrals db)\<rparr>)"
  by (auto simp: scorable_def sources_known_def validators_text_def sql_inserts_def sql_delete_def)

lemma validator_value_text:
  assumes "known why" "\<forall>r\<in>set (snd acc). vr_Validator r = v"
  shows "gives scorable_state (\<lambda>acc. \<forall>r\<in>set (snd acc). vr_Validator r = v) (validator_value E na v why line acc)"
  unfolding validator_value_def
  by (intro gives_rules keeps_rules keeps_db_add assms(1)) (use assms(2) in auto)

lemma keeps_db_validators:
  assumes "known why"
  shows "keeps scorable_state (processValidators E site src na why lines)"
proof -
  have v: "gives scorable_state (\<lambda>v. \<exists>x. v = SqlText x) (lift (quoted h))" for h
    by (auto simp: gives_def wp_simps quoted_def)
  have vs: "gives scorable_state (\<lambda>acc. \<forall>r\<in>set (snd acc). vr_Validator r = SqlText x) (mfold (validator_value E na (SqlText x) why) ls (0, []))" for x ls
    by (rule gives_mfold) (auto intro: validator_value_text [OF assms])
  show ?thesis
    unfolding processValidators_def
    by (rule keeps_mbind [OF keeps_basic(4)], rule keeps_mbind, intro keeps_rules, rule gives_bind [OF v])
      (auto intro!: keeps_rules keeps_on_db scorable_validators gives_bind [OF vs] split: option.split)
qed

subsection \<open>Answers, files and scores\<close>

lemma known_vs: "known vsValidator" "known vsReferral" "known vsConfig" "known vsManual"
  by (simp_all add: known_def iSourceScore_def vs_defs)

lemma keeps_db_answers:
  "keeps scorable_state (responseIps E N site na err f)" "keeps scorable_state (responseValidators E url na sec site err f)"
  "keeps scorable_state (processFile E N d na sec)"
proof -
  have ips: "keeps scorable_state (getIpsUrl E na sec)" for na sec
    unfolding getIpsUrl_def by (auto intro!: keeps_rules keeps_db_domains split: option.split)
  have vals: "keeps scorable_state (getValidatorsUrl E na sec)" for na sec
    unfolding getValidatorsUrl_def by (auto intro!: keeps_rules ips split: option.split)
  show "keeps scorable_state (responseIps E N site na err f)"
    unfolding responseIps_def by (intro keeps_rules keeps_db_ips keeps_db_domains)
  show "keeps scorable_state (responseValidators E url na sec site err f)"
    unfolding responseValidators_def by (intro keeps_rules keeps_db_validators known_vs ips)
  show "keeps scorable_state (processFile E N d na sec)"
    unfolding processFile_def by (intro keeps_rules keeps_db_validators known_vs keeps_db_ips vals)
qed

lemma keeps_db_fetched: "keeps scorable_state (responseFetch E N d err f)"
  unfolding responseFetch_def Let_def
  by (rule keeps_mbind [OF keeps_basic(4)], rule keeps_option, rule keeps_db_domains, rule gives_bind [OF getSeedDomains_known])
    (auto intro!: keeps_rules keeps_db_domains keeps_db_answers)

lemma keeps_db_load:
  "keeps scorable_state (nodeProcess E site vals src)" "keeps scorable_state (nodeLoad E N p)"
  "keeps scorable_state (validatorsResponse E N err r)" "keeps scorable_state (nodeBootstrap E N)" "keeps scorable_state (nodeNetwork N)"
proof -
  show 1: "keeps scorable_state (nodeProcess E site vals src)" for site vals src
    unfolding nodeProcess_def by (intro keeps_rules keeps_db_validators known_vs)
  show 2: "keeps scorable_state (nodeLoad E N p)" for p
    unfolding nodeLoad_def by (intro keeps_rules 1)
  show "keeps scorable_state (validatorsResponse E N err r)"
    unfolding validatorsResponse_def by (intro keeps_rules 1)
  show "keeps scorable_state (nodeNetwork N)" unfolding nodeNetwork_def by (intro keeps_rules)
  show "keeps scorable_state (nodeBootstrap E N)"
    unfolding nodeBootstrap_def nodeNetwork_def peer_value_def
    by (intro keeps_rules 2 keeps_db_validators known_vs keeps_on_db) simp
qed

lemma distinct_replaces:
  "distinct (map tn_PublicKey rows) \<Longrightarrow> \<forall>r\<in>set rs. tn_PublicKey r \<noteq> SqlNull \<Longrightarrow> distinct (map tn_PublicKey (sql_replaces tn_PublicKey rs rows))"
  unfolding sql_replaces_def by (induction rs arbitrary: rows) (auto intro: tn.distinct_put)

lemma keeps_db_score: "keeps scorable_state (scoreTimerHandler E realloc err)"
proof -
  have zero: "scorable (db\<lparr>TrustedNodes := zero_trusted (TrustedNodes db)\<rparr>)" if "scorable db" for db
    using that by (auto simp: scorable_def sources_known_def validators_text_def zero_trusted_eq comp_def)
  have put: "scorable (db\<lparr>TrustedNodes := sql_replaces tn_PublicKey (map trusted_row v) (TrustedNodes db)\<rparr>)" if "scorable db" for db v
    using that by (auto simp: scorable_def sources_known_def validators_text_def trusted_row_def intro!: distinct_replaces)
  have "keeps scorable_state (scoreCompute E realloc)"
    unfolding scoreCompute_def persist_scores_def persist_ips_def
    by (intro keeps_rules keeps_on_db keeps_change) (auto intro: zero put)
  then show ?thesis
    unfolding scoreTimerHandler_def by (intro keeps_rules keeps_change) auto
qed

lemma keeps_slots_score: "keeps (slots k) (scoreTimerHandler E realloc err)"
  unfolding scoreTimerHandler_def scoreCompute_def persist_scores_def persist_ips_def
  by (intro keeps_rules keeps_change) auto

section \<open>The system\<close>

text \<open>The handler an answer is given to.\<close>

fun handle :: "('k, 'b) address_env \<Rightarrow> net_env \<Rightarrow> reply \<Rightarrow> bool \<Rightarrow> string \<Rightarrow> (unl, unit) prog" where
  "handle E N (ResponseFetch domain) = responseFetch E N domain"
| "handle E N (ResponseValidators url na secSite site) = responseValidators E url na secSite site"
| "handle E N (ResponseIps site na) = responseIps E N site na"
| "handle E N ValidatorsResponse = validatorsResponse E N"

text \<open>What the rest of the node may ask for.\<close>

datatype request =
    NodeAddPublic address validatorSource string
  | NodeAddDomain string validatorSource string
  | NodeRemovePublic address
  | NodeRemoveDomain string
  | NodeReset
  | NodeScore
  | NodeLoad string
  | NodeNetwork
  | NodeBootstrap

fun perform :: "('k, 'b) address_env \<Rightarrow> net_env \<Rightarrow> request \<Rightarrow> (unl, unit) prog" where
  "perform E N (NodeAddPublic na why comment) = nodeAddPublic E na why comment"
| "perform E N (NodeAddDomain domain why comment) = nodeAddDomain E domain why comment"
| "perform E N (NodeRemovePublic na) = nodeRemovePublic E na"
| "perform E N (NodeRemoveDomain domain) = nodeRemoveDomain domain"
| "perform E N NodeReset = nodeReset"
| "perform E N NodeScore = nodeScore"
| "perform E N (NodeLoad path) = mbind (nodeLoad E N path) (\<lambda>_. return ())"
| "perform E N NodeNetwork = nodeNetwork N"
| "perform E N NodeBootstrap = nodeBootstrap E N"

text \<open>A \<^verbatim>\<open>validatorSource\<close> argument is one of the seven enumeration values.\<close>

fun request_ok :: "request \<Rightarrow> bool" where
  "request_ok (NodeAddPublic na why comment) = known why"
| "request_ok (NodeAddDomain domain why comment) = known why"
| "request_ok _ = True"

text \<open>One step: a pending effect completes and its handler returns, or a request is performed. An exception
  leaves the event loop and ends the program, so a step ends in a normal return.\<close>

inductive unl_step :: "('k, 'b) address_env \<Rightarrow> net_env \<Rightarrow> (nat \<Rightarrow> bool) \<Rightarrow> unl \<Rightarrow> unl \<Rightarrow> bool"
  for E N realloc where
  answer: "outbox s = xs @ HttpsGet sites path r # ys \<Longrightarrow> handle E N r err body (s\<lparr>outbox := xs @ ys\<rparr>) = Some (Inr (), t) \<Longrightarrow>
     unl_step E N realloc s t"
| score_timer: "outbox s = xs @ ScoreTimer n # ys \<Longrightarrow> scoreTimerHandler E realloc err (s\<lparr>outbox := xs @ ys\<rparr>) = Some (Inr (), t) \<Longrightarrow>
     unl_step E N realloc s t"
| fetch_timer: "outbox s = xs @ FetchTimer n # ys \<Longrightarrow> fetchTimerHandler E err (s\<lparr>outbox := xs @ ys\<rparr>) = Some (Inr (), t) \<Longrightarrow>
     unl_step E N realloc s t"
| scan: "outbox s = xs @ ScanRefresh # ys \<Longrightarrow> unl_step E N realloc s (s\<lparr>outbox := xs @ ys\<rparr>)"
| request: "request_ok q \<Longrightarrow> perform E N q s = Some (Inr (), t) \<Longrightarrow> unl_step E N realloc s t"

inductive unl_reachable :: "('k, 'b) address_env \<Rightarrow> net_env \<Rightarrow> (nat \<Rightarrow> bool) \<Rightarrow> unl \<Rightarrow> bool" for E N realloc where
  start: "scorable db \<Longrightarrow> unl_start E (unl_new db clk) = Some (Inr (), s) \<Longrightarrow> unl_reachable E N realloc s"
| step: "unl_reachable E N realloc s \<Longrightarrow> unl_step E N realloc s t \<Longrightarrow> unl_reachable E N realloc t"

inductive_cases unl_stepE: "unl_step E N realloc s t"

text \<open>Taking an effect out of the outbox: a request that held a slot leaves it to its handler.\<close>

lemma slots_take:
  "slots k s \<Longrightarrow> outbox s = xs @ e # ys \<Longrightarrow> slots (if holds_slot e then k + 1 else k) (s\<lparr>outbox := xs @ ys\<rparr>)"
  by (auto simp: slots_def pending_def)

lemma handle_slots:
  assumes "env_laws E" "slots 0 s" "outbox s = xs @ HttpsGet sites path r # ys" "handle E N r err body (s\<lparr>outbox := xs @ ys\<rparr>) = Some (Inr (), t)"
  shows "slots 0 t"
proof (cases "r = ValidatorsResponse")
  case True
  then have "slots 0 (s\<lparr>outbox := xs @ ys\<rparr>)" using slots_take [OF assms(2,3)] by simp
  from keepsD [OF keeps_slots_load(3) [OF assms(1)] this] assms(4) True show ?thesis by simp
next
  case False
  then have "slots 1 (s\<lparr>outbox := xs @ ys\<rparr>)" using slots_take [OF assms(2,3)] by (cases r) simp_all
  then have "wp (handle E N r err body) (\<lambda>_. slots 0) (s\<lparr>outbox := xs @ ys\<rparr>)"
    using False responseFetch_slots [OF assms(1), of 0] responseValidators_slots [OF assms(1), of 0] responseIps_slots [OF assms(1), of 0]
    by (cases r) simp_all
  from wpD [OF this assms(4)] show ?thesis .
qed

lemma perform_slots: "env_laws E \<Longrightarrow> keeps (slots 0) (perform E N q)"
  by (cases q) (auto simp: nodeNetwork_def intro!: keeps_rules keeps_slots_domains keeps_slots_load)

lemma step_slots:
  assumes "env_laws E" "unl_step E N realloc s t" "slots 0 s"
  shows "slots 0 t"
  using assms(2)
proof cases
  case (score_timer xs n ys err)
  then show ?thesis using slots_take [OF assms(3) score_timer(1)] by (auto dest: keepsD [OF keeps_slots_score])
next
  case (fetch_timer xs n ys err)
  then show ?thesis
    using slots_take [OF assms(3) fetch_timer(1)]
    by (auto simp: fetchTimerHandler_def split: if_splits dest: keepsD [OF fetchNext_slots [OF assms(1)]])
next
  case (scan xs ys)
  then show ?thesis using slots_take [OF assms(3) scan(2)] by simp
qed (use handle_slots [OF assms(1,3)] perform_slots [OF assms(1)] assms(3) in \<open>blast dest: keepsD\<close>)+

lemma keeps_db_handle: "keeps scorable_state (handle E N r err body)"
  by (cases r) (simp_all add: keeps_db_fetched keeps_db_answers keeps_db_load)

lemma keeps_db_perform: "request_ok q \<Longrightarrow> keeps scorable_state (perform E N q)"
  by (cases q) (auto intro!: keeps_rules keeps_db_add keeps_db_load)

lemma step_scorable:
  assumes "unl_step E N realloc s t" "scorable_state s"
  shows "scorable_state t"
  using assms(1)
proof cases
  case (fetch_timer xs n ys err)
  then show ?thesis
    using assms(2) by (auto simp: fetchTimerHandler_def split: if_splits dest: keeps_run [OF _ keeps_db_fetch])
qed (use assms(2) in \<open>auto dest: keeps_run [OF _ keeps_db_handle] keeps_run [OF _ keeps_db_score] keeps_run [OF _ keeps_db_perform]\<close>)

lemma reachable_invariant:
  assumes "env_laws E" "unl_reachable E N realloc s"
  shows "slots 0 s" "scorable_state s"
proof -
  have "slots 0 s \<and> scorable_state s"
    using assms(2)
  proof induction
    case (start db clk s)
    have new: "slots 0 (unl_new db clk)" "scorable_state (unl_new db clk)"
      using start(1) by (simp_all add: slots_def pending_def unl_new_def NODE_FETCH_JOBS_def)
    have k: "keeps (slots 0) (unl_start E)" "keeps scorable_state (unl_start E)"
      unfolding unl_start_def miscLoad_def trustedLoad_def
      by (intro keeps_rules keeps_change fetchNext_slots keeps_db_fetch assms(1); simp)+
    show ?case using keepsD [OF k(1) new(1) start(2)] keepsD [OF k(2) new(2) start(2)] by blast
  next
    case (step s t)
    then show ?case using step_slots [OF assms(1)] step_scorable by blast
  qed
  then show "slots 0 s" "scorable_state s" by auto
qed

section \<open>Properties\<close>

text \<open>C2: In every state the unique node list reaches, by its timers, the answers to its requests and what it is
  asked to do, in any order, \<^verbatim>\<open>mFetchActive\<close> is exactly the number of fetches under way, and at most ten are.\<close>

theorem fetch_slots_invariant:
  assumes "env_laws E" and "unl_reachable E N realloc s"
  shows "mFetchActive s = int (length (filter holds_slot (outbox s))) \<and> length (filter holds_slot (outbox s)) \<le> 10"
  using reachable_invariant(1) [OF assms] by (simp_all add: slots_def pending_def NODE_FETCH_JOBS_def)

text \<open>C3: In every such state scoring succeeds. The unique node list is then exactly the keys of the seed domains
  and the seed nodes, whatever they refer to, each with the best score of its sources in \<^verbatim>\<open>TrustedNodes\<close>;
  every other key there has score 0.\<close>

theorem reachable_scoring:
  assumes "env_laws E" and "unl_reachable E N realloc s"
  shows "\<exists>t. scoreCompute E realloc s = Some (Inr (), t) \<and> mUNL t = fst ` set (seeds (walletDB s))
    \<and> (\<forall>k. map_option tn_Score (sql_find tn_PublicKey (SqlBlob k) (TrustedNodes (walletDB t))) =
        (if k \<in> mUNL t then Some (best_score (seeds (walletDB s)) k)
         else map_option (\<lambda>_. 0) (sql_find tn_PublicKey (SqlBlob k) (TrustedNodes (walletDB s)))))"
proof -
  have "scorable_state s" by (rule reachable_invariant(2) [OF assms])
  then obtain t where "scoreCompute E realloc s = Some (Inr (), t)" "mUNL t = fst ` set (seeds (walletDB s))"
    "\<And>k. sql_find tn_PublicKey (SqlBlob k) (TrustedNodes (walletDB t)) = (if k \<in> mUNL t then Some (scored_row (walletDB s) k)
         else map_option (\<lambda>r. r\<lparr>tn_Score := 0\<rparr>) (sql_find tn_PublicKey (SqlBlob k) (TrustedNodes (walletDB s))))"
    using scoreCompute_seeds [of s E realloc] unfolding scorable_def by auto
  then show ?thesis by (intro exI [of _ t]) (simp add: scored_row_def option.map_comp comp_def)
qed

text \<open>The addresses of a list: what parses, in order.\<close>

definition parsed_ips :: "net_env \<Rightarrow> string list \<Rightarrow> (string \<times> int) list" where
  "parsed_ips N lines = concat (map (\<lambda>line. case parseIpPort N line of Inr (Some q) \<Rightarrow> [q] | _ \<Rightarrow> []) lines)"

definition ip_rows :: "sqlval \<Rightarrow> (string \<times> int) list \<Rightarrow> IpReferrals_row list" where
  "ip_rows v qs = map (\<lambda>(i, ip, port). \<lparr>ir_Validator = v, ir_Entry = int i, ir_IP = SqlBlob ip, ir_Port = port\<rparr>) (enumerate 0 qs)"

lemma length_ip_rows [simp]: "length (ip_rows v qs) = length qs"
  by (simp add: ip_rows_def)

lemma ip_rows_append: "ip_rows v (qs @ [(ip, port)]) = ip_rows v qs @ [\<lparr>ir_Validator = v, ir_Entry = int (length qs), ir_IP = SqlBlob ip, ir_Port = port\<rparr>]"
  by (simp add: ip_rows_def enumerate_append_eq)

lemma mfold_ip_value:
  assumes "\<forall>line\<in>set lines. \<exists>q. parseIpPort N line = Inr q" "length qs \<le> REFERRAL_VALIDATORS_MAX"
  shows "mfold (ip_value N v) lines (ip_rows v qs) s = Some (Inr (ip_rows v (take REFERRAL_VALIDATORS_MAX (qs @ parsed_ips N lines))), s)"
  using assms
proof (induction lines arbitrary: qs)
  case (Cons line lines)
  have step: "mfold (ip_value N v) (line # lines) (ip_rows v qs) s = mfold (ip_value N v) lines vs s"
    if "ip_value N v line (ip_rows v qs) s = Some (Inr vs, s)" for vs
    using that by (simp add: mbind_return [where m = "ip_value N v line (ip_rows v qs)"])
  show ?case
  proof (cases "length qs = REFERRAL_VALIDATORS_MAX")
    case True
    then show ?thesis using Cons.IH [of qs] Cons.prems step [of "ip_rows v qs"] by (simp add: ip_value_def)
  next
    case False
    from Cons.prems obtain q where q: "parseIpPort N line = Inr q" by auto
    show ?thesis
    proof (cases q)
      case None
      then show ?thesis using Cons False q step [of "ip_rows v qs"] by (simp add: ip_value_def [of N v line] parsed_ips_def)
    next
      case (Some x)
      obtain ip port where x: "x = (ip, port)" by (cases x)
      have "mfold (ip_value N v) lines (ip_rows v (qs @ [x])) s
        = Some (Inr (ip_rows v (take REFERRAL_VALIDATORS_MAX ((qs @ [x]) @ parsed_ips N lines))), s)"
        using Cons.prems False by (intro Cons.IH) auto
      then show ?thesis
        using False q Some x step [of "ip_rows v (qs @ [x])"] by (simp add: ip_value_def [of N v line] ip_rows_append parsed_ips_def)
    qed
  qed
qed (simp add: parsed_ips_def)

lemma ip_rows_keys: "distinct (map (\<lambda>r. (ir_Validator r, ir_Entry r)) (ip_rows v qs))" "r \<in> set (ip_rows v qs) \<Longrightarrow> ir_Validator r = v"
proof -
  have "map (\<lambda>r. (ir_Validator r, ir_Entry r)) (ip_rows v qs) = map (\<lambda>i. (v, int i)) [0..<length qs]"
    by (auto simp: ip_rows_def in_set_enumerate_eq intro!: nth_equalityI simp: nth_enumerate_eq split: prod.split)
  then show "distinct (map (\<lambda>r. (ir_Validator r, ir_Entry r)) (ip_rows v qs))" by (simp add: distinct_map inj_on_def)
  show "r \<in> set (ip_rows v qs) \<Longrightarrow> ir_Validator r = v" by (auto simp: ip_rows_def)
qed

text \<open>C25: Processing the address list of a validator replaces what was stored for it by the
  first fifty addresses of the list that parse, numbered from 0 in their order; what other validators listed stays as it was.\<close>

theorem processIps_replaces:
  assumes "humanNodePublic E na = Some (Inr h)" and "\<forall>line\<in>set lines. \<exists>q. parseIpPort N line = Inr q"
  shows "\<exists>t. processIps E N site na (Some lines) s = Some (Inr (), t)
    \<and> IpReferrals (walletDB t) = sql_delete ir_Validator (SqlBlob h) (IpReferrals (walletDB s)) @ ip_rows (SqlBlob h) (take 50 (parsed_ips N lines))"
proof -
  let ?rows = "sql_delete ir_Validator (SqlBlob h) (IpReferrals (walletDB s))"
  let ?u = "s\<lparr>walletDB := (walletDB s)\<lparr>IpReferrals := ?rows\<rparr>\<rparr>"
  let ?vs = "ip_rows (SqlBlob h) (take 50 (parsed_ips N lines))"
  let ?w = "s\<lparr>walletDB := (walletDB s)\<lparr>IpReferrals := ?rows @ ?vs\<rparr>\<rparr>"
  have "\<forall>r\<in>set ?rows. ir_Validator r \<noteq> SqlBlob h" by (auto simp: sql_delete_def sql_eq_def)
  then have ins: "sql_inserts (\<lambda>r. (ir_Validator r, ir_Entry r)) ?vs ?rows = ?rows @ ?vs"
    using ip_rows_keys(1) [of "SqlBlob h"] ip_rows_keys(2) [of _ "SqlBlob h"] by (fastforce simp: sql_inserts_def)
  have vs: "mfold (ip_value N (SqlBlob h)) lines [] ?u = Some (Inr ?vs, ?u)"
    using mfold_ip_value [OF assms(2), of "[]" "SqlBlob h" ?u] by (simp add: REFERRAL_VALIDATORS_MAX_def ip_rows_def)
  have run: "mbind (mfold (ip_value N (SqlBlob h)) lines []) f ?u = f ?vs ?u" for f :: "_ \<Rightarrow> (unl, unit) prog"
    using vs by (rule mbind_return [where m = "mfold (ip_value N (SqlBlob h)) lines []"])
  obtain t m where t: "fetchDirty ?w = Some (Inr (), t)" "walletDB t = (walletDB ?w)\<lparr>Misc := m\<rparr>" using fetchDirty_runs by blast
  have "processIps E N site na (Some lines) s = fetchDirty ?w"
    using ins by (simp add: processIps_def assms(1) on_db_def run) 
  with t show ?thesis by simp
qed

definition toy_net :: net_env where
  "toy_net = \<lparr>from_string = Some, SHA512 = (\<lambda>bs. replicate 64 1), UNL_DEFAULT = [], VALIDATORS_SITE = ''example.com'',
     VALIDATORS = [], IPS = [], file_exists = (\<lambda>_. False), is_regular_file = (\<lambda>_. False), open_file = (\<lambda>_. None),
     read_failed = (\<lambda>_. False)\<rparr>"

text \<open>A start with one domain to fetch and one node that was added by hand.\<close>

definition toy_db :: walletdb where
  "toy_db = walletdb_empty\<lparr>
     SeedDomains := [\<lparr>sd_Domain = SqlBlob ''example.com'', sd_PublicKey = SqlNull, sd_Source = SqlBlob ''M'', sd_Next = 100, sd_Scan = - 1,
       sd_Fetch = - 1, sd_Sha256 = SqlNull, sd_Comment = SqlNull\<rparr>],
     SeedNodes := [\<lparr>sn_PublicKey = SqlText ''k'', sn_Source = SqlText ''M'', sn_Next = 100, sn_Scan = - 1, sn_Fetch = - 1, sn_Sha256 = SqlNull,
       sn_Comment = SqlNull\<rparr>]\<rparr>"

lemmas fetch_eval = fetchNext_step_def NODE_FETCH_JOBS_def Let_def ptFromSeconds_def pt_le_def pt_plus_def fetchNow_def fetchProcess_def
  getSeedDomains_def storeSeedDomains_def on_db_def emit_def seedDomain_new_def isValid_new read_key_def getNull_def
  sql_replace_def sql_find_def scoreNext_def iToSeconds_def first_char_def vsManual_def to_int_id in_int_def INT_MIN_def INT_MAX_def

lemma toy_start:
  "\<exists>s. unl_reachable toy_env toy_net (\<lambda>_. False) s \<and> filter holds_slot (outbox s) \<noteq> [] \<and> seeds (walletDB s) = [(''k'', vsManual)]"
proof -
  have clear: "na_clear NewcoinAddress_new = NewcoinAddress_new" by (simp add: na_clear_def NewcoinAddress_new_def)
  have "scorable toy_db"
    by (simp add: scorable_def toy_db_def walletdb_empty_def sources_known_def validators_text_def ips_bounded_def first_char_def iSourceScore_def vs_defs)
  moreover have "\<exists>s. unl_start toy_env (unl_new toy_db (\<lambda>_. 200)) = Some (Inr (), s) \<and> filter holds_slot (outbox s) \<noteq> []
    \<and> seeds (walletDB s) = [(''k'', vsManual)]"
    unfolding unl_start_def miscLoad_def trustedLoad_def
    apply (simp add: toy_db_def walletdb_empty_def unl_new_def mseq_def mbind_def)
    apply (subst fetchNext.simps)
    apply (simp add: fetch_eval clear)
    apply (subst fetchNext.simps)
    apply (simp add: fetch_eval clear seeds_def)
    done
  ultimately show ?thesis by (metis unl_reachable.start)
qed

theorem fetch_slots_invariant_witness:
  "\<exists>s. unl_reachable toy_env toy_net (\<lambda>_. False) s \<and> mFetchActive s > 0 \<and> mFetchActive s = int (length (filter holds_slot (outbox s)))"
proof -
  obtain s where s: "unl_reachable toy_env toy_net (\<lambda>_. False) s" "filter holds_slot (outbox s) \<noteq> []" using toy_start by blast
  then have "0 < length (filter holds_slot (outbox s))" by blast
  then show ?thesis using fetch_slots_invariant [OF env_laws_toy s(1)] s(1) by auto
qed

theorem reachable_scoring_witness:
  "\<exists>s t. unl_reachable toy_env toy_net (\<lambda>_. False) s \<and> scoreCompute toy_env (\<lambda>_. False) s = Some (Inr (), t) \<and> mUNL t = {''k''}
    \<and> map_option tn_Score (sql_find tn_PublicKey (SqlBlob ''k'') (TrustedNodes (walletDB t))) = Some 1500"
proof -
  obtain s where s: "unl_reachable toy_env toy_net (\<lambda>_. False) s" "seeds (walletDB s) = [(''k'', vsManual)]" using toy_start by blast
  have "best_score [(''k'', vsManual)] ''k'' = 1500" by (simp add: source_score_def iSourceScore_def vs_defs)
  moreover obtain t where "scoreCompute toy_env (\<lambda>_. False) s = Some (Inr (), t)" "mUNL t = fst ` set (seeds (walletDB s))"
    "map_option tn_Score (sql_find tn_PublicKey (SqlBlob ''k'') (TrustedNodes (walletDB t))) =
        (if ''k'' \<in> mUNL t then Some (best_score (seeds (walletDB s)) ''k'')
         else map_option (\<lambda>_. 0) (sql_find tn_PublicKey (SqlBlob ''k'') (TrustedNodes (walletDB s))))"
    using reachable_scoring [OF env_laws_toy s(1)] by metis
  ultimately show ?thesis using s by (intro exI [of _ s] exI [of _ t]) (simp del: best_score.simps)
qed

theorem processIps_replaces_witness:
  "\<exists>h t. processIps toy_env toy_net ''example.com'' toy_key (Some [''10.0.0.1 51235'']) toy_unl = Some (Inr (), t)
    \<and> IpReferrals (walletDB t) = [\<lparr>ir_Validator = SqlBlob h, ir_Entry = 0, ir_IP = SqlBlob ''10.0.0.1'', ir_Port = 51235\<rparr>]"
proof -
  obtain h where h: "humanNodePublic toy_env toy_key = Some (Inr h)" using toy_human by blast
  have p: "parseIpPort toy_net ''10.0.0.1 51235'' = Inr (Some (''10.0.0.1'', 51235))"
    by (simp add: parseIpPort_def match_endpoint_def Let_def isspace_def is_digit_def lexical_cast_int_def digits_val_def INT_MAX_def toy_net_def)
  have "parsed_ips toy_net [''10.0.0.1 51235''] = [(''10.0.0.1'', 51235)]" by (simp add: parsed_ips_def p)
  then have "ip_rows (SqlBlob h) (take 50 (parsed_ips toy_net [''10.0.0.1 51235'']))
    = [\<lparr>ir_Validator = SqlBlob h, ir_Entry = 0, ir_IP = SqlBlob ''10.0.0.1'', ir_Port = 51235\<rparr>]" by (simp add: ip_rows_def)
  moreover have "sql_delete ir_Validator (SqlBlob h) (IpReferrals (walletDB toy_unl)) = []"
    by (simp add: toy_unl_def unl_new_def walletdb_empty_def sql_delete_def)
  moreover have "\<forall>line\<in>set [''10.0.0.1 51235'']. \<exists>q. parseIpPort toy_net line = Inr q" by (simp add: p)
  ultimately show ?thesis
    using processIps_replaces [OF h, of "[''10.0.0.1 51235'']" toy_net "''example.com''" toy_unl] by (metis append_Nil)
qed

end
