(* ===== verification/Wallet.thy ===== *)
theory Wallet
  imports UnlSystem
begin

text \<open>
  \<^verbatim>\<open>src/Wallet/Wallet.cpp\<close>: the identity of the node and the key-value store of the RPC client, both kept in
  the wallet database, and \<^verbatim>\<open>DH_der_gen\<close> and \<^verbatim>\<open>DH_der_load\<close> of \<^verbatim>\<open>shared/utils.cpp\<close>. The
  Diffie-Hellman functions of OpenSSL are the fields of \<open>dh_ops\<close>; the \<open>n\<close>-th call of the generator may return
  anything. The random bytes of the seed are an argument.
\<close>

section \<open>Definitions\<close>

record 'd dh_ops =
  DH_generate_parameters :: "nat \<Rightarrow> int \<Rightarrow> 'd"
  DH_check :: "'d \<Rightarrow> bool"
  i2d_DHparams :: "'d \<Rightarrow> string"
  d2i_DHparams :: "string \<Rightarrow> 'd option"

text \<open>The loop that generates parameters until one passes the check; \<open>DH_check\<close> says that none of the four
  error codes is set.\<close>

partial_function (option) dh_loop :: "'d dh_ops \<Rightarrow> int \<Rightarrow> nat \<Rightarrow> 'd option" where
  "dh_loop D iKeyLength n = (let dh = DH_generate_parameters D n iKeyLength in
     if DH_check D dh then Some dh else dh_loop D iKeyLength (n + 1))"

definition DH_der_gen :: "'d dh_ops \<Rightarrow> int \<Rightarrow> string option" where
  "DH_der_gen D iKeyLength = map_option (i2d_DHparams D) (dh_loop D iKeyLength 0)"

definition DH_der_load :: "'d dh_ops \<Rightarrow> string \<Rightarrow> 'd option" where
  "DH_der_load D strDer = d2i_DHparams D strDer"

record NodeIdentity_row =
  ni_PublicKey :: sqlval
  ni_PrivateKey :: sqlval
  ni_Dh512 :: sqlval
  ni_Dh1024 :: sqlval

record RPCData_row =
  rpc_Key :: sqlval
  rpc_Value :: sqlval

text \<open>The wallet, with the two tables of the wallet database that are its own and the node list it starts.\<close>

record 'd wallet =
  NodeIdentity :: "NodeIdentity_row list"
  RPCData :: "RPCData_row list"
  mNodePublicKey :: address
  mNodePrivateKey :: address
  mDh512 :: "'d option"
  mDh1024 :: "'d option"
  mWalletUNL :: unl

definition Wallet_new :: "NodeIdentity_row list \<Rightarrow> RPCData_row list \<Rightarrow> unl \<Rightarrow> 'd wallet" where
  "Wallet_new ids rpc u = \<lparr>NodeIdentity = ids, RPCData = rpc, mNodePublicKey = NewcoinAddress_new, mNodePrivateKey = NewcoinAddress_new,
     mDh512 = None, mDh1024 = None, mWalletUNL = u\<rparr>"

definition nodeIdentityLoad :: "('k, 'b) address_env \<Rightarrow> 'd dh_ops \<Rightarrow> ('d wallet, bool) prog" where
  "nodeIdentityLoad E D = mbind (gets NodeIdentity) (\<lambda>rows. case rows of
     [] \<Rightarrow> return False
   | r # _ \<Rightarrow>
       mbind (gets (\<lambda>w. setNodePublic E (getStr (ni_PublicKey r)) (mNodePublicKey w))) (\<lambda>(q1, pub).
       mseq (change (\<lambda>w. w\<lparr>mNodePublicKey := pub\<rparr>))
       (mbind (lift q1) (\<lambda>_.
        mbind (gets (\<lambda>w. setNodePrivate E (getStr (ni_PrivateKey r)) (mNodePrivateKey w))) (\<lambda>(q2, priv).
        mseq (change (\<lambda>w. w\<lparr>mNodePrivateKey := priv\<rparr>))
        (mbind (lift q2) (\<lambda>_.
         mseq (change (\<lambda>w. w\<lparr>mDh512 := DH_der_load D (getStrBinary (ni_Dh512 r)), mDh1024 := DH_der_load D (getStrBinary (ni_Dh1024 r))\<rparr>))
         (return True))))))))"

definition nodeIdentityCreate :: "('k, 'b) address_env \<Rightarrow> 'd dh_ops \<Rightarrow> bytes \<Rightarrow> ('d wallet, bool) prog" where
  "nodeIdentityCreate E D rnd = (let naSeed = createSeedRandom rnd in
     mbind (lift (createNodePublic E naSeed)) (\<lambda>naNodePublic.
     mbind (lift (createNodePrivate E naSeed)) (\<lambda>naNodePrivate.
     mbind (lift_opt (map_option Inr (DH_der_gen D 512))) (\<lambda>strDh512.
     mbind (lift_opt (humanNodePublic E naNodePublic)) (\<lambda>pub. mbind (lift (quoted pub)) (\<lambda>pub.
     mbind (lift_opt (humanNodePrivate E naNodePrivate)) (\<lambda>priv. mbind (lift (quoted priv)) (\<lambda>priv.
     mseq (change (\<lambda>w. w\<lparr>NodeIdentity := NodeIdentity w @ [\<lparr>ni_PublicKey = pub, ni_PrivateKey = priv,
       ni_Dh512 = SqlBlob strDh512, ni_Dh1024 = SqlBlob strDh512\<rparr>]\<rparr>))
     (return True)))))))))"

text \<open>Running a program of the node list inside the wallet.\<close>

definition in_unl :: "(unl, unit) prog \<Rightarrow> ('d wallet, unit) prog" where
  "in_unl m w = map_option (\<lambda>(r, u). (r, w\<lparr>mWalletUNL := u\<rparr>)) (m (mWalletUNL w))"

definition wallet_start :: "('k, 'b) address_env \<Rightarrow> 'd dh_ops \<Rightarrow> bytes \<Rightarrow> ('d wallet, unit) prog" where
  "wallet_start E D rnd = mbind (nodeIdentityLoad E D) (\<lambda>ok.
     mseq (if ok then return ()
           else mbind (nodeIdentityCreate E D rnd) (\<lambda>_. mbind (nodeIdentityLoad E D) (\<lambda>ok.
             if ok then return () else throw (Runtime_error ''Unable to retrieve new node identity.''))))
     (mbind (gets (\<lambda>w. humanNodePublic E (mNodePublicKey w))) (\<lambda>h. mbind (lift_opt h) (\<lambda>_. in_unl (unl_start E)))))"

definition dataDelete :: "string \<Rightarrow> ('d wallet, bool) prog" where
  "dataDelete strKey = mseq (change (\<lambda>w. w\<lparr>RPCData := sql_delete rpc_Key (SqlBlob strKey) (RPCData w)\<rparr>)) (return True)"

definition dataFetch :: "string \<Rightarrow> string \<Rightarrow> ('d wallet, bool \<times> string) prog" where
  "dataFetch strKey strValue = mbind (gets (\<lambda>w. sql_find rpc_Key (SqlBlob strKey) (RPCData w))) (\<lambda>q. case q of
     None \<Rightarrow> return (False, strValue)
   | Some r \<Rightarrow> return (True, getStrBinary (rpc_Value r)))"

definition dataStore :: "string \<Rightarrow> string \<Rightarrow> ('d wallet, bool) prog" where
  "dataStore strKey strValue = mseq (change (\<lambda>w. w\<lparr>RPCData := sql_replace rpc_Key
     \<lparr>rpc_Key = SqlBlob strKey, rpc_Value = SqlBlob strValue\<rparr> (RPCData w)\<rparr>)) (return True)"

definition getNodePublicKey :: "'d wallet \<Rightarrow> address" where
  "getNodePublicKey w = mNodePublicKey w"

definition getNodePrivateKey :: "'d wallet \<Rightarrow> address" where
  "getNodePrivateKey w = mNodePrivateKey w"

section \<open>The store\<close>

interpretation rpc: keyed_table rpc_Key "sql_find rpc_Key" "sql_replace rpc_Key" "sql_delete rpc_Key"
  by (rule keyed_table_sql)

text \<open>A key-value store as its clients see it.\<close>

locale data_store =
  fixes store :: "string \<Rightarrow> string \<Rightarrow> 's \<Rightarrow> 's"
    and remove :: "string \<Rightarrow> 's \<Rightarrow> 's"
    and fetch :: "'s \<Rightarrow> string \<Rightarrow> string option"
  assumes fetch_store: "fetch (store k v s) = (fetch s)(k \<mapsto> v)"
    and fetch_remove: "fetch (remove k s) = (fetch s)(k := None)"
begin

fun play :: "(string \<times> string option) list \<Rightarrow> 's \<Rightarrow> 's" where
  "play [] s = s"
| "play ((k, v) # ops) s = play ops (case v of None \<Rightarrow> remove k s | Some x \<Rightarrow> store k x s)"

lemma fetch_play: "fetch (play ops s) = fold (\<lambda>(k, v) m. m(k := v)) ops (fetch s)"
  by (induction ops s rule: play.induct) (auto simp: fetch_store fetch_remove split: option.split)

end

definition stored :: "'d wallet \<Rightarrow> string \<Rightarrow> string option" where
  "stored w k = map_option (\<lambda>r. getStrBinary (rpc_Value r)) (sql_find rpc_Key (SqlBlob k) (RPCData w))"

definition after :: "('s, 'a) prog \<Rightarrow> 's \<Rightarrow> 's" where
  "after m s = (case m s of Some (_, t) \<Rightarrow> t | None \<Rightarrow> s)"

interpretation ds: data_store "\<lambda>k v. after (dataStore k v)" "\<lambda>k. after (dataDelete k)" "stored :: 'd wallet \<Rightarrow> string \<Rightarrow> string option"
proof
  fix k v and s :: "'d wallet"
  show "stored (after (dataStore k v) s) = (stored s)(k \<mapsto> v)"
    by (auto simp: stored_def after_def dataStore_def rpc.look_put fun_eq_iff)
  show "stored (after (dataDelete k) s) = (stored s)(k := None)"
    by (auto simp: stored_def after_def dataDelete_def rpc.look_del fun_eq_iff sql_eq_def)
qed

text \<open>A sequence of requests: store, or delete.\<close>

fun run_data :: "(string \<times> string option) list \<Rightarrow> ('d wallet, unit) prog" where
  "run_data [] = return ()"
| "run_data ((k, v) # ops) = mbind (case v of None \<Rightarrow> dataDelete k | Some x \<Rightarrow> dataStore k x) (\<lambda>_. run_data ops)"

lemma data_after:
  "dataStore k v w = Some (Inr True, after (dataStore k v) w)" "dataDelete k w = Some (Inr True, after (dataDelete k) w)"
  "NodeIdentity (after (dataStore k v) w) = NodeIdentity w" "NodeIdentity (after (dataDelete k) w) = NodeIdentity w"
  by (simp_all add: dataStore_def dataDelete_def after_def)

lemma run_data_play: "run_data ops w = Some (Inr (), ds.play ops w)"
proof (induction ops arbitrary: w rule: run_data.induct)
  case (2 k v ops)
  then show ?case
    by (cases v) (simp_all add: mbind_return [where m = "dataDelete k", OF data_after(2)] mbind_return [where m = "dataStore k _", OF data_after(1)])
qed simp

lemma play_identity: "NodeIdentity (ds.play ops w) = NodeIdentity w"
  by (induction ops w rule: ds.play.induct) (auto simp: data_after(3,4) split: option.split)

lemma dataFetch_stored: "dataFetch k x t = Some (Inr (case stored t k of None \<Rightarrow> (False, x) | Some v \<Rightarrow> (True, v)), t)"
  by (simp add: dataFetch_def stored_def split: option.split)

section \<open>The identity\<close>

lemma dh_loop_returns:
  assumes "DH_check D (DH_generate_parameters D m len)" "n \<le> m"
  shows "\<exists>dh. dh_loop D len n = Some dh \<and> DH_check D dh"
  using assms(2)
proof (induction "m - n" arbitrary: n)
  case 0
  then show ?case using assms(1) by (subst dh_loop.simps) simp
next
  case (Suc k)
  then have "\<exists>dh. dh_loop D len (n + 1) = Some dh \<and> DH_check D dh" by auto
  then show ?case by (subst dh_loop.simps) (auto simp: Let_def)
qed

text \<open>A row holds the texts of a public and a private node key.\<close>

definition identity_row :: "('k, 'b) address_env \<Rightarrow> address \<Rightarrow> address \<Rightarrow> NodeIdentity_row \<Rightarrow> bool" where
  "identity_row E pub priv r \<longleftrightarrow> (\<exists>h g. na_ToString E pub = Some (Inr h) \<and> na_ToString E priv = Some (Inr g)
     \<and> ni_PublicKey r = SqlText h \<and> ni_PrivateKey r = SqlText g)"

definition node_pair :: "address \<Rightarrow> address \<Rightarrow> bool" where
  "node_pair pub priv \<longleftrightarrow> nVersion pub = VER_NODE_PUBLIC \<and> short_data pub \<and> nVersion priv = VER_NODE_PRIVATE \<and> short_data priv"

lemma nodeIdentityLoad_row:
  assumes "env_laws E" "node_pair pub priv" "NodeIdentity w = r # rows" "identity_row E pub priv r"
  shows "nodeIdentityLoad E D w = Some (Inr True, w\<lparr>mNodePublicKey := pub, mNodePrivateKey := priv,
    mDh512 := DH_der_load D (getStrBinary (ni_Dh512 r)), mDh1024 := DH_der_load D (getStrBinary (ni_Dh1024 r))\<rparr>)"
proof -
  obtain h g where h: "na_ToString E pub = Some (Inr h)" "na_ToString E priv = Some (Inr g)" "ni_PublicKey r = SqlText h" "ni_PrivateKey r = SqlText g"
    using assms(4) by (auto simp: identity_row_def)
  have p: "env_laws E \<and> short_data pub" "env_laws E \<and> short_data priv" using assms(1,2) by (auto simp: node_pair_def)
  have "setNodePublic E h old = (Inr True, pub)" "setNodePrivate E g old = (Inr True, priv)" for old
    using node_public.set_human_text [OF p(1) h(1)] node_private.set_human_text [OF p(2) h(2)] assms(2) by (simp_all add: node_pair_def)
  moreover have "getStr (SqlText h) = h" "getStr (SqlText g) = g"
    using na_text_plain(1) [OF assms(1) _ h(1)] na_text_plain(1) [OF assms(1) _ h(2)] p by (simp_all add: getStr_def)
  ultimately show ?thesis using assms(3) h(3,4) by (simp add: nodeIdentityLoad_def)
qed

lemma nodeIdentityCreate_row:
  assumes "env_laws E" "createNodePublic E (createSeedRandom rnd) = Inr pub" "createNodePrivate E (createSeedRandom rnd) = Inr priv"
    "node_pair pub priv" "DH_der_gen D 512 = Some dh"
  shows "\<exists>r. (\<forall>w. nodeIdentityCreate E D rnd w = Some (Inr True, w\<lparr>NodeIdentity := NodeIdentity w @ [r]\<rparr>)) \<and> identity_row E pub priv r
    \<and> ni_Dh512 r = SqlBlob dh \<and> ni_Dh1024 r = SqlBlob dh"
proof -
  have p: "env_laws E \<and> short_data pub" "env_laws E \<and> short_data priv" using assms by (auto simp: node_pair_def)
  obtain h g where h: "na_ToString E pub = Some (Inr h)" "na_ToString E priv = Some (Inr g)" using b58.prints [OF p(1)] b58.prints [OF p(2)] by blast
  have "quoted h = Inr (SqlText h)" "quoted g = Inr (SqlText g)"
    using na_text_plain(2) [OF assms(1) _ h(1)] na_text_plain(2) [OF assms(1) _ h(2)] p by simp_all
  then show ?thesis
    using h assms(2-5)
    by (intro exI [of _ "\<lparr>ni_PublicKey = SqlText h, ni_PrivateKey = SqlText g, ni_Dh512 = SqlBlob dh, ni_Dh1024 = SqlBlob dh\<rparr>"])
      (simp add: nodeIdentityCreate_def humanNodePublic_def humanNodePrivate_def node_pair_def identity_row_def)
qed

section \<open>Properties\<close>

text \<open>C15: The store of the RPC client is a map: after any sequence of stores and deletes every key has its last
  value, and the identity of the node is untouched.\<close>

theorem rpc_data_map:
  "\<exists>t. run_data ops w = Some (Inr (), t) \<and> NodeIdentity t = NodeIdentity w
    \<and> (\<forall>k x. dataFetch k x t = Some (Inr (case fold (\<lambda>(k, v) m. m(k := v)) ops (stored w) k of None \<Rightarrow> (False, x) | Some v \<Rightarrow> (True, v)), t))"
  unfolding run_data_play by (intro exI [of _ "ds.play ops w"]) (simp add: play_identity ds.fetch_play dataFetch_stored)

text \<open>C14: Starting the wallet on a database without an identity creates one and loads
  it: the keys are those of the new seed, and the Diffie-Hellman parameters pass the check. Started again on the same database, with other random bytes, it has the
  same identity and creates none.\<close>

theorem wallet_start_identity:
  assumes "env_laws E" and "createNodePublic E (createSeedRandom rnd) = Inr pub" and "createNodePrivate E (createSeedRandom rnd) = Inr priv"
    and "node_pair pub priv" and "DH_check D (DH_generate_parameters D n 512)" and "\<And>dh. d2i_DHparams D (i2d_DHparams D dh) = Some dh"
    and "unl_start E u = Some (Inr (), u1)" and "unl_start E v = Some (Inr (), v1)"
  shows "\<exists>w dh. wallet_start E D rnd (Wallet_new [] rpc u) = Some (Inr (), w) \<and> mWalletUNL w = u1
    \<and> mNodePublicKey w = pub \<and> mNodePrivateKey w = priv \<and> mDh512 w = Some dh \<and> mDh1024 w = Some dh \<and> DH_check D dh
    \<and> wallet_start E D rnd' (Wallet_new (NodeIdentity w) rpc v) = Some (Inr (), w\<lparr>mWalletUNL := v1\<rparr>)"
proof -
  obtain dh where dh: "dh_loop D 512 0 = Some dh" "DH_check D dh" using dh_loop_returns [of D n 512 0] assms(5) by auto
  then have gen: "DH_der_gen D 512 = Some (i2d_DHparams D dh)" by (simp add: DH_der_gen_def)
  obtain r where r: "\<And>w. nodeIdentityCreate E D rnd w = Some (Inr True, w\<lparr>NodeIdentity := NodeIdentity w @ [r]\<rparr>)" "identity_row E pub priv r"
    "ni_Dh512 r = SqlBlob (i2d_DHparams D dh)" "ni_Dh1024 r = SqlBlob (i2d_DHparams D dh)"
    using nodeIdentityCreate_row [OF assms(1-4) gen] by blast
  let ?w = "\<lambda>x. \<lparr>NodeIdentity = [r], RPCData = rpc, mNodePublicKey = pub, mNodePrivateKey = priv, mDh512 = Some dh, mDh1024 = Some dh, mWalletUNL = x\<rparr>"
  have load: "nodeIdentityLoad E D (Wallet_new [r] rpc x) = Some (Inr True, ?w x)" for x
    using nodeIdentityLoad_row [OF assms(1,4) _ r(2), of "Wallet_new [r] rpc x" "[]" D] r(3,4) assms(6)
    by (simp add: Wallet_new_def DH_der_load_def)
  have none: "nodeIdentityLoad E D (Wallet_new [] rpc u) = Some (Inr False, Wallet_new [] rpc u)"
    by (simp add: nodeIdentityLoad_def Wallet_new_def)
  have create: "nodeIdentityCreate E D rnd (Wallet_new [] rpc u) = Some (Inr True, Wallet_new [r] rpc u)"
    using r(1) [of "Wallet_new [] rpc u"] by (simp add: Wallet_new_def)
  obtain h where h: "humanNodePublic E pub = Some (Inr h)"
    using r(2) assms(4) by (auto simp: identity_row_def humanNodePublic_def node_pair_def)
  have "wallet_start E D rnd (Wallet_new [] rpc u) = Some (Inr (), ?w u1)"
    unfolding wallet_start_def
    by (subst mbind_return [where m = "nodeIdentityLoad E D", OF none])
      (simp add: mbind_return [where m = "nodeIdentityCreate E D rnd", OF create] mbind_return [where m = "nodeIdentityLoad E D", OF load] h in_unl_def assms(7))
  moreover have "wallet_start E D rnd' (Wallet_new [r] rpc v) = Some (Inr (), ?w v1)"
    unfolding wallet_start_def
    by (subst mbind_return [where m = "nodeIdentityLoad E D", OF load]) (simp add: h in_unl_def assms(8))
  ultimately show ?thesis using dh(2) by (intro exI [of _ "?w u1"] exI [of _ dh]) simp
qed

text \<open>Parameters that are their own text, of which the third passes the check.\<close>

definition toy_dh :: "string dh_ops" where
  "toy_dh = \<lparr>DH_generate_parameters = (\<lambda>n len. replicate n CHR ''x''), DH_check = (\<lambda>dh. length dh = 2), i2d_DHparams = (\<lambda>dh. dh), d2i_DHparams = Some\<rparr>"

theorem wallet_start_identity_witness:
  "\<exists>w pub priv. wallet_start toy_env toy_dh (replicate 16 0) (Wallet_new [] [] (unl_new walletdb_empty (\<lambda>_. 0))) = Some (Inr (), w)
    \<and> createNodePublic toy_env (createSeedRandom (replicate 16 0)) = Inr pub \<and> mNodePublicKey w = pub
    \<and> createNodePrivate toy_env (createSeedRandom (replicate 16 0)) = Inr priv \<and> mNodePrivateKey w = priv"
proof -
  have seed: "getSeed (createSeedRandom (replicate 16 0)) = Inr (of_uint_bytes (replicate 16 0))"
    by (simp add: getSeed_def createSeedRandom_def setSeedRandom_def setSeed_uint_def SetData_def VER_FAMILY_SEED_def uint128_of_vch_def)
  have k: "GenerateRootDeterministicKey toy_env (of_uint_bytes (replicate 16 0)) = Some 6"
    "EC_KEY_get0_private_key (env_ec toy_env) 6 = Some [6]" "ec_laws (env_ec toy_env)"
    using ec_laws_toy by (simp_all add: toy_env_def toy_os_def minimal_bytes_def)
  let ?pub = "CBase58Data VER_NODE_PUBLIC (i2o_ECPublicKey (env_ec toy_env) 6)"
  let ?priv = "CBase58Data VER_NODE_PRIVATE (replicate (32 - length [6 :: byte]) 0 @ [6])"
  have keys: "createNodePublic toy_env (createSeedRandom (replicate 16 0)) = Inr ?pub"
    "createNodePrivate toy_env (createSeedRandom (replicate 16 0)) = Inr ?priv"
    using node_keys_of_seed [OF k(3) seed k(1,2)] by auto
  have pair: "node_pair ?pub ?priv" by (simp add: node_pair_def short_data_def toy_env_def toy_os_def)
  have start: "\<exists>u. unl_start toy_env (unl_new walletdb_empty (\<lambda>_. 0)) = Some (Inr (), u)"
    by (simp add: unl_start_def miscLoad_def trustedLoad_def unl_new_def walletdb_empty_def mseq_def mbind_def)
      (subst fetchNext.simps, simp add: fetch_eval)
  have dh: "DH_check toy_dh (DH_generate_parameters toy_dh 2 512)" "\<And>dh. d2i_DHparams toy_dh (i2d_DHparams toy_dh dh) = Some dh"
    by (simp_all add: toy_dh_def)
  from start obtain u where "unl_start toy_env (unl_new walletdb_empty (\<lambda>_. 0)) = Some (Inr (), u)" by blast
  from wallet_start_identity [OF env_laws_toy keys pair dh this this, of "[]"] show ?thesis using keys by blast
qed

end
