(* ===== verification/PackedMessage.thy ===== *)
theory PackedMessage
  imports Serializer
begin

text \<open>
  \<^verbatim>\<open>shared/PackedMessage.cpp\<close>: the six byte header (length, type) in front of every message
  on a peer connection. A protocol buffers message is a parameter: its \<^verbatim>\<open>ByteSize()\<close> and the
  bytes \<^verbatim>\<open>SerializeToArray\<close> writes.
\<close>

definition HEADER_SIZE :: nat where
  "HEADER_SIZE = 6"

record packed_message =
  mBuffer :: bytes

record 'm protobuf =
  ByteSize :: "'m \<Rightarrow> int"
  Serialize :: "'m \<Rightarrow> bytes"

definition header_bytes :: "32 word \<Rightarrow> int \<Rightarrow> bytes" where
  "header_bytes sz type =
     [ucast (drop_bit 24 sz AND 0xFF), ucast (drop_bit 16 sz AND 0xFF), ucast (drop_bit 8 sz AND 0xFF),
      ucast (sz AND 0xFF), word_of_int (drop_bit 8 type AND 0xFF), word_of_int (type AND 0xFF)]"

definition encodeHeader :: "32 word \<Rightarrow> int \<Rightarrow> (packed_message, unit) action" where
  "encodeHeader sz type pm =
     (if \<not> length (mBuffer pm) \<ge> HEADER_SIZE then (Inl Assert_failed, pm)
      else (Inr (), pm\<lparr>mBuffer := header_bytes sz type @ drop HEADER_SIZE (mBuffer pm)\<rparr>))"

text \<open>\<^verbatim>\<open>SerializeToArray(&mBuffer[HEADER_SIZE], msg_size)\<close> writes nothing when the message does
  not fit.\<close>

definition SerializeToArray :: "'m protobuf \<Rightarrow> 'm \<Rightarrow> nat \<Rightarrow> bytes \<Rightarrow> bytes" where
  "SerializeToArray pb message msg_size body =
     (if length (Serialize pb message) > msg_size then body
      else Serialize pb message @ drop (length (Serialize pb message)) body)"

definition PackedMessage_new :: "'m protobuf \<Rightarrow> 'm \<Rightarrow> int \<Rightarrow> packed_message result" where
  "PackedMessage_new pb message type =
     (let msg_size = word_of_int (ByteSize pb message) :: 32 word in
      if msg_size = 0 then Inl Assert_failed
      else let pm = \<lparr>mBuffer = replicate (unat (of_nat HEADER_SIZE + msg_size)) 0\<rparr> in
        case encodeHeader msg_size type pm of
          (Inl e, _) \<Rightarrow> Inl e
        | (Inr _, pm1) \<Rightarrow>
            Inr (if msg_size \<noteq> 0
              then pm1\<lparr>mBuffer := take HEADER_SIZE (mBuffer pm1)
                @ SerializeToArray pb message (unat msg_size) (drop HEADER_SIZE (mBuffer pm1))\<rparr>
              else pm1))"

definition packed_eq :: "packed_message \<Rightarrow> packed_message \<Rightarrow> bool" where
  "packed_eq a b = (mBuffer a = mBuffer b)"

definition pm_getLength :: "bytes \<Rightarrow> 32 word" where
  "pm_getLength buf = (if length buf < HEADER_SIZE then 0 else join_bytes (take 4 buf))"

definition pm_getType :: "bytes \<Rightarrow> int" where
  "pm_getType buf = (if length buf < HEADER_SIZE then 0
     else (push_bit 8 (uint (buf ! 4))) OR uint (buf ! 5))"

section \<open>Facts\<close>

lemma length_header_bytes [simp]: "length (header_bytes sz type) = 6"
  by (simp add: header_bytes_def)

lemma join_header: "join_bytes (take 4 (header_bytes sz type @ body)) = sz"
  using join32 [of sz] by (simp add: header_bytes_def join_bytes_def codec_simps)

lemma type_bytes:
  fixes t :: int
  assumes "0 \<le> t" "t < 65536"
  shows "push_bit 8 (uint (word_of_int (drop_bit 8 t AND 0xFF) :: byte)) OR uint (word_of_int (t AND 0xFF) :: byte) = t"
proof -
  have a: "drop_bit 8 t AND 0xFF = drop_bit 8 t"
    using assms by (simp add: drop_bit_eq_div and_255_int)
  have b: "t AND 0xFF = take_bit 8 t"
    using take_bit_eq_mask [of 8 t] by (simp add: mask_eq_exp_minus_1)
  have "uint (word_of_int (drop_bit 8 t) :: byte) = drop_bit 8 t"
    using assms by (simp add: unsigned_of_int take_bit_int_eq_self drop_bit_eq_div)
  moreover have "uint (word_of_int (take_bit 8 t) :: byte) = take_bit 8 t"
    by (simp add: unsigned_of_int)
  moreover have "push_bit 8 (drop_bit 8 t) OR take_bit 8 t = t"
    by (rule bit_eqI) (auto simp: bit_simps)
  ultimately show ?thesis by (simp add: a b)
qed

lemma PackedMessage_new_eq:
  assumes "ByteSize pb m = int (length (Serialize pb m))"
    and "0 < length (Serialize pb m)" "length (Serialize pb m) < 2 ^ 31"
  shows "PackedMessage_new pb m type =
    Inr \<lparr>mBuffer = header_bytes (of_nat (length (Serialize pb m))) type @ Serialize pb m\<rparr>"
proof -
  let ?n = "length (Serialize pb m)" and ?w = "of_nat (length (Serialize pb m)) :: 32 word"
  have w: "unat ?w = ?n" using assms by (simp add: unat_of_nat_small)
  have s: "unat (6 + ?w) = 6 + ?n" using assms w by (simp add: unat_word_ariths)
  have nz: "?w \<noteq> 0" using w assms(2) by (metis unat_0 less_irrefl)
  show ?thesis
    using assms w s nz
    by (simp add: PackedMessage_new_def encodeHeader_def HEADER_SIZE_def Let_def SerializeToArray_def)
qed

section \<open>Properties\<close>

text \<open>Packing a message of a 16-bit type gives a buffer from whose header the receiver
  reads the length of the body and the type, and whose body is the serialized message.\<close>

theorem pack_header_roundtrip:
  assumes "ByteSize pb m = int (length (Serialize pb m))"
    and "0 < length (Serialize pb m)" and "length (Serialize pb m) < 2 ^ 31"
    and "0 \<le> type" and "type < 65536"
  shows "\<exists>pm. PackedMessage_new pb m type = Inr pm \<and> pm_getType (mBuffer pm) = type
     \<and> unat (pm_getLength (mBuffer pm)) = length (drop HEADER_SIZE (mBuffer pm))
     \<and> drop HEADER_SIZE (mBuffer pm) = Serialize pb m"
proof -
  let ?b = "header_bytes (of_nat (length (Serialize pb m))) type @ Serialize pb m"
  have "pm_getType ?b = type"
    using type_bytes [OF assms(4,5)] by (simp add: pm_getType_def HEADER_SIZE_def header_bytes_def)
  moreover have "unat (pm_getLength ?b) = length (Serialize pb m)"
    using assms(3) by (simp add: pm_getLength_def HEADER_SIZE_def join_header unat_of_nat_small del: take_append)
  ultimately show ?thesis
    using PackedMessage_new_eq [OF assms(1-3)] by (simp add: HEADER_SIZE_def)
qed

theorem pack_header_roundtrip_witness:
  "\<exists>pm. PackedMessage_new \<lparr>ByteSize = (\<lambda>m. int (length m)), Serialize = (\<lambda>m. m)\<rparr> [1, 2, 3] 30 = Inr pm
     \<and> pm_getType (mBuffer pm) = 30 \<and> unat (pm_getLength (mBuffer pm)) = length (drop HEADER_SIZE (mBuffer pm))
     \<and> drop HEADER_SIZE (mBuffer pm) = [1, 2, 3]"
  using pack_header_roundtrip [of "\<lparr>ByteSize = (\<lambda>m. int (length m)), Serialize = (\<lambda>m. m)\<rparr>" "[1, 2, 3]" 30]
  by simp

end
