(* ===== verification/HttpsClient.thy ===== *)
theory HttpsClient
  imports UnlSystem
begin

text \<open>
  \<^verbatim>\<open>shared/HttpsClient.cpp\<close>: the client that fetches a page from the first of several sites. Its handlers run when
  an operation it started has ended; \<open>in_flight\<close> holds the operations under way and \<open>waits\<close> counts the waits for the
  deadline. What the network and the timer answer is the input of the model; the calls of boost.asio that return at
  once are the fields of \<open>https_env\<close>. The two regular expressions of \<^verbatim>\<open>parseData\<close> are written out.
\<close>

section \<open>Definitions\<close>

datatype ec = Eof | Bad_address | Other_error nat

datatype op = Resolve | Connect | Handshake | Write | Read

record https =
  mDeqSites :: "string list"
  mShutdown :: "ec option"
  mRequest :: string
  mResponse :: string
  mStrPath :: string
  in_flight :: "op list"
  waits :: nat
  completed :: "(ec option \<times> string) list"

record https_env =
  set_default_verify_paths :: "string \<Rightarrow> ec option"
  expires_from_now :: "string \<Rightarrow> ec option"
  set_no_delay :: "string \<Rightarrow> ec option"
  set_verify_callback :: "string \<Rightarrow> ec option"
  deadline_cancel :: "ec option"

definition HttpsClient_new :: "string \<Rightarrow> https" where
  "HttpsClient_new strPath = \<lparr>mDeqSites = [], mShutdown = None, mRequest = [], mResponse = [], mStrPath = strPath, in_flight = [],
     waits = 0, completed = []\<rparr>"

definition start_op :: "op \<Rightarrow> https \<Rightarrow> https" where
  "start_op a s = s\<lparr>in_flight := in_flight s @ [a]\<rparr>"

text \<open>\<^verbatim>\<open>httpsNext\<close> and \<^verbatim>\<open>invokeComplete\<close> call each other until a site can be tried or none is left:
  \<open>complete_by\<close> is \<^verbatim>\<open>invokeComplete\<close> given what goes on to the next site. Both
  \<^verbatim>\<open>set_default_verify_paths\<close> and \<^verbatim>\<open>expires_from_now\<close> set the error code they are given, also on success.\<close>

definition complete_by :: "(https \<Rightarrow> https result) \<Rightarrow> https_env \<Rightarrow> ec option \<Rightarrow> string \<Rightarrow> https \<Rightarrow> https result" where
  "complete_by go_on N ecResult strData s = (case mDeqSites s of
     [] \<Rightarrow> Inl Undefined_behaviour
   | _ # rest \<Rightarrow>
       let s1 = s\<lparr>mDeqSites := rest\<rparr>
       in if rest = [] then Inr (s1\<lparr>completed := completed s1 @ [(if ecResult \<noteq> None then ecResult else deadline_cancel N, strData)]\<rparr>)
          else go_on s1)"

lemma complete_by_cong [fundef_cong]:
  "N = N' \<Longrightarrow> e = e' \<Longrightarrow> d = d' \<Longrightarrow> s = s' \<Longrightarrow> (\<And>t. length (mDeqSites t) < length (mDeqSites s') \<Longrightarrow> go_on t = go_on' t) \<Longrightarrow>
   complete_by go_on N e d s = complete_by go_on' N' e' d' s'"
  by (auto simp: complete_by_def Let_def split: list.split)

function httpsNext :: "https_env \<Rightarrow> https \<Rightarrow> https result" where
  "httpsNext N s = (case mDeqSites s of
     [] \<Rightarrow> Inl Undefined_behaviour
   | site # _ \<Rightarrow>
       let ec1 = set_default_verify_paths N site;
           ec2 = (if ec1 = None then expires_from_now N site else ec1);
           s1 = s\<lparr>mShutdown := ec2\<rparr>
       in if ec2 = None then Inr (start_op Resolve (s1\<lparr>waits := waits s1 + 1\<rparr>))
          else complete_by (httpsNext N) N ec2 [] s1)"
  by pat_completeness auto

termination
  by (relation "measure (\<lambda>(N, s). length (mDeqSites s))") auto

declare httpsNext.simps [simp del]

definition invokeComplete :: "https_env \<Rightarrow> ec option \<Rightarrow> string \<Rightarrow> https \<Rightarrow> https result" where
  "invokeComplete N = complete_by (httpsNext N) N"

definition httpsGet :: "https_env \<Rightarrow> string list \<Rightarrow> string \<Rightarrow> https result" where
  "httpsGet N deqSites strPath = httpsNext N ((HttpsClient_new strPath)\<lparr>mDeqSites := deqSites\<rparr>)"

text \<open>The result of a wait for a timer: aborted, expired, or another error.\<close>

datatype timer_result = Aborted | Expired | Timer_error

text \<open>\<open>shutdown_failed\<close>: the socket could not be shut down, which is printed with the first site.\<close>

definition handleDeadline :: "timer_result \<Rightarrow> bool \<Rightarrow> https \<Rightarrow> https result" where
  "handleDeadline ecResult shutdown_failed s = (case ecResult of
     Aborted \<Rightarrow> Inr s
   | Timer_error \<Rightarrow> Inl Assert_failed
   | Expired \<Rightarrow> let s1 = s\<lparr>mShutdown := Some Bad_address\<rparr>
       in if shutdown_failed \<and> mDeqSites s1 = [] then Inl Undefined_behaviour else Inr s1)"

definition note_shutdown :: "ec option \<Rightarrow> https \<Rightarrow> https" where
  "note_shutdown ecResult s = (if mShutdown s = None then s\<lparr>mShutdown := ecResult\<rparr> else s)"

definition handleResolve :: "https_env \<Rightarrow> ec option \<Rightarrow> https \<Rightarrow> https result" where
  "handleResolve N ecResult s = (let s1 = note_shutdown ecResult s in
     if mShutdown s1 \<noteq> None then invokeComplete N (mShutdown s1) [] s1 else Inr (start_op Connect s1))"

definition https_handleConnect :: "https_env \<Rightarrow> ec option \<Rightarrow> https \<Rightarrow> https result" where
  "https_handleConnect N ecResult s = (let s1 = note_shutdown ecResult s in
     ebind (if mShutdown s1 = None
            then case mDeqSites s1 of [] \<Rightarrow> Inl Undefined_behaviour
              | site # _ \<Rightarrow> if set_no_delay N site \<noteq> None then Inl (Runtime_error ''set_option'')
                  else Inr (s1\<lparr>mShutdown := set_verify_callback N site\<rparr>)
            else Inr s1) (\<lambda>s2.
     if mShutdown s2 = None then Inr (start_op Handshake s2) else invokeComplete N (mShutdown s2) [] s2))"

definition crlf :: string where "crlf = [CHR 0x0D, CHR 0x0A]"

definition http_request :: "string \<Rightarrow> string \<Rightarrow> string" where
  "http_request strPath site = ''GET '' @ strPath @ '' HTTP/1.0'' @ crlf @ ''Host: '' @ site @ crlf @ ''Accept: */*'' @ crlf @ ''Connection: close'' @ crlf @ crlf"

definition handleRequest :: "https_env \<Rightarrow> ec option \<Rightarrow> https \<Rightarrow> https result" where
  "handleRequest N ecResult s = (let s1 = note_shutdown ecResult s in
     if mShutdown s1 \<noteq> None then invokeComplete N (mShutdown s1) [] s1
     else case mDeqSites s1 of [] \<Rightarrow> Inl Undefined_behaviour
       | site # _ \<Rightarrow> Inr (start_op Write (s1\<lparr>mRequest := mRequest s1 @ http_request (mStrPath s1) site\<rparr>)))"

text \<open>\<open>n\<close> bytes of the request were written, all of them when there was no error.\<close>

definition handleWrite :: "https_env \<Rightarrow> ec option \<Rightarrow> nat \<Rightarrow> https \<Rightarrow> https result" where
  "handleWrite N ecResult n s = (let s0 = s\<lparr>mRequest := (if ecResult = None then [] else drop n (mRequest s))\<rparr>; s1 = note_shutdown ecResult s0 in
     if mShutdown s1 \<noteq> None then invokeComplete N (mShutdown s1) [] s1 else Inr (start_op Read s1))"

text \<open>The match of \<^verbatim>\<open>HTTP/1\S+ (\d{3}) .*\<close>: the digits.\<close>

definition status_code :: "string \<Rightarrow> string option" where
  "status_code s = (let r = drop 6 s; tok = takeWhile (\<lambda>c. \<not> isspace c) r; rest = drop (length tok) r; code = take 3 (tl rest); more = drop 3 (tl rest)
     in if take 6 s = ''HTTP/1'' \<and> tok \<noteq> [] \<and> rest \<noteq> [] \<and> hd rest = CHR '' '' \<and> length code = 3 \<and> list_all is_digit code
          \<and> more \<noteq> [] \<and> hd more = CHR '' '' then Some code else None)"

text \<open>The match of \<^verbatim>\<open>(?:.*?\r\n\r\n){1}(.*)\<close>: what follows the first empty line.\<close>

fun after_blank :: "string \<Rightarrow> string option" where
  "after_blank [] = None"
| "after_blank (c # cs) = (if take 4 (c # cs) = crlf @ crlf then Some (drop 4 (c # cs)) else after_blank cs)"

definition response_body :: "string \<Rightarrow> string option" where
  "response_body strData = (if status_code strData = Some ''200'' then after_blank strData else None)"

definition parseData :: "https_env \<Rightarrow> https \<Rightarrow> https result" where
  "parseData N s = (let strData = mResponse s; s1 = s\<lparr>mResponse := []\<rparr> in
     case response_body strData of
       Some body \<Rightarrow> invokeComplete N None body s1
     | None \<Rightarrow> invokeComplete N (Some Bad_address) [] s1)"

text \<open>\<open>data\<close> is what the read put in the buffer, also when it ended with an error.\<close>

definition handleData :: "https_env \<Rightarrow> ec option \<Rightarrow> string \<Rightarrow> https \<Rightarrow> https result" where
  "handleData N ecResult data s = (let s1 = note_shutdown ecResult (s\<lparr>mResponse := mResponse s @ data\<rparr>) in
     if mShutdown s1 \<noteq> None \<and> mShutdown s1 \<noteq> Some Eof then invokeComplete N (mShutdown s1) [] s1 else parseData N s1)"

section \<open>Runs\<close>

text \<open>The operation under way ends, with an error code, the bytes transferred and the data read; or the deadline
  is over.\<close>

datatype https_event = Ended "ec option" nat string | Deadline timer_result bool

fun https_step :: "https_env \<Rightarrow> https_event \<Rightarrow> https \<Rightarrow> https result" where
  "https_step N (Ended e n data) s = (case in_flight s of
     [] \<Rightarrow> Inr s
   | a # as \<Rightarrow> let s1 = s\<lparr>in_flight := as\<rparr> in
       (case a of
          Resolve \<Rightarrow> handleResolve N e s1
        | Connect \<Rightarrow> https_handleConnect N e s1
        | Handshake \<Rightarrow> handleRequest N e s1
        | Write \<Rightarrow> handleWrite N e n s1
        | Read \<Rightarrow> handleData N e data s1))"
| "https_step N (Deadline r failed) s =
     (if waits s = 0 then Inr s else handleDeadline r failed (s\<lparr>waits := waits s - 1\<rparr>))"

text \<open>Events until the client has called its completion handler.\<close>

fun until_done :: "('e \<Rightarrow> 's \<Rightarrow> 's result) \<Rightarrow> ('s \<Rightarrow> 'r list) \<Rightarrow> 'e list \<Rightarrow> 's \<Rightarrow> 's result" where
  "until_done step results [] s = Inr s"
| "until_done step results (e # es) s = (if results s \<noteq> [] then Inr s else ebind (step e s) (until_done step results es))"

abbreviation https_run :: "https_env \<Rightarrow> https_event list \<Rightarrow> https \<Rightarrow> https result" where
  "https_run N \<equiv> until_done (https_step N) completed"

text \<open>A client that calls back once: each answer brings the end nearer, and other events do not put it off.\<close>

locale one_shot =
  fixes step :: "'e \<Rightarrow> 's \<Rightarrow> 's result" and results :: "'s \<Rightarrow> 'r list" and work :: "'s \<Rightarrow> nat" and ok :: "'s \<Rightarrow> bool"
    and answer :: "'e \<Rightarrow> bool" and possible :: "'e \<Rightarrow> bool"
  assumes step_ok: "ok s \<Longrightarrow> work s > 0 \<Longrightarrow> possible e \<Longrightarrow> \<exists>t. step e s = Inr t \<and> ok t \<and> work t + (if answer e then 1 else 0) \<le> work s"
    and results_work: "ok s \<Longrightarrow> length (results s) = (if work s = 0 then 1 else 0)"
begin

lemma results_nil: "ok s \<Longrightarrow> results s = [] \<longleftrightarrow> work s > 0"
  using results_work [of s] by (cases "work s") auto

lemma calls_back_once:
  assumes "ok s" "list_all possible es"
  shows "\<exists>t. until_done step results es s = Inr t \<and> ok t \<and> length (results t) \<le> 1
    \<and> (work s \<le> length (filter answer es) \<longrightarrow> length (results t) = 1)"
  using assms
proof (induction es arbitrary: s)
  case Nil
  then show ?case using results_work [of s] by auto
next
  case (Cons e es)
  show ?case
  proof (cases "work s > 0")
    case True
    with Cons.prems obtain t where t: "step e s = Inr t" "ok t" "work t + (if answer e then 1 else 0) \<le> work s"
      using step_ok [of s e] by auto
    with Cons.IH [OF t(2)] Cons.prems(2) True results_nil [OF Cons.prems(1)] show ?thesis
      by (fastforce simp: ebind_def split: if_splits)
  next
    case False
    then show ?thesis using Cons.prems(1) results_work [of s] results_nil [of s] by simp
  qed
qed

end

section \<open>The completion handler is called once\<close>

fun stage :: "op \<Rightarrow> nat" where
  "stage Resolve = 5" | "stage Connect = 4" | "stage Handshake = 3" | "stage Write = 2" | "stage Read = 1"

text \<open>How many answers the client still waits for at most.\<close>

definition https_work :: "https \<Rightarrow> nat" where
  "https_work s = (case in_flight s of [] \<Rightarrow> 0 | a # _ \<Rightarrow> 5 * (length (mDeqSites s) - 1) + stage a)"

text \<open>One operation is under way and a site is left, or the completion handler has been called.\<close>

definition https_ok :: "https \<Rightarrow> bool" where
  "https_ok s \<longleftrightarrow> (\<exists>a. in_flight s = [a]) \<and> mDeqSites s \<noteq> [] \<and> completed s = []
     \<or> in_flight s = [] \<and> mDeqSites s = [] \<and> length (completed s) = 1"

definition idle :: "https \<Rightarrow> bool" where
  "idle s \<longleftrightarrow> in_flight s = [] \<and> mDeqSites s \<noteq> [] \<and> completed s = []"

lemma stage_pos [simp]: "0 < stage a" "stage a \<noteq> 0"
  by (cases a; simp)+

lemma next_ok_aux:
  assumes "\<And>s e d. idle s \<Longrightarrow> length (mDeqSites s) = n \<Longrightarrow> \<exists>t. invokeComplete N e d s = Inr t \<and> https_ok t \<and> https_work t \<le> 5 * (n - 1)"
    and "idle s" "length (mDeqSites s) = n"
  shows "\<exists>t. httpsNext N s = Inr t \<and> https_ok t \<and> https_work t \<le> 5 * n"
proof -
  obtain site sites where sites: "mDeqSites s = site # sites" using assms(2) by (cases "mDeqSites s") (auto simp: idle_def)
  let ?ec = "if set_default_verify_paths N site = None then expires_from_now N site else set_default_verify_paths N site"
  have "idle (s\<lparr>mShutdown := ?ec\<rparr>)" using assms(2) by (simp add: idle_def)
  from assms(1) [OF this, of ?ec "[]"] assms(3) obtain t where
    "invokeComplete N ?ec [] (s\<lparr>mShutdown := ?ec\<rparr>) = Inr t" "https_ok t" "https_work t \<le> 5 * (n - 1)" by auto
  then show ?thesis using assms(2,3) sites
    by (cases "?ec = None") (auto simp: httpsNext.simps [of N s] invokeComplete_def [symmetric] Let_def start_op_def https_ok_def https_work_def idle_def)
qed

lemma complete_ok_aux:
  "idle s \<Longrightarrow> length (mDeqSites s) = n \<Longrightarrow> \<exists>t. invokeComplete N e d s = Inr t \<and> https_ok t \<and> https_work t \<le> 5 * (n - 1)"
proof (induction n arbitrary: s e d)
  case (Suc n)
  then obtain site sites where sites: "mDeqSites s = site # sites" by (cases "mDeqSites s") auto
  show ?case
  proof (cases "sites = []")
    case True
    then show ?thesis using Suc.prems sites by (simp add: invokeComplete_def complete_by_def idle_def https_ok_def https_work_def)
  next
    case False
    then have "idle (s\<lparr>mDeqSites := sites\<rparr>)" "length (mDeqSites (s\<lparr>mDeqSites := sites\<rparr>)) = n" using Suc.prems sites by (simp_all add: idle_def)
    from next_ok_aux [OF Suc.IH this] show ?thesis using False sites by (simp add: invokeComplete_def complete_by_def)
  qed
qed (simp add: idle_def)

lemma complete_ok: "idle s \<Longrightarrow> \<exists>t. invokeComplete N e d s = Inr t \<and> https_ok t \<and> https_work t \<le> 5 * (length (mDeqSites s) - 1)"
  by (rule complete_ok_aux) simp_all

lemma next_ok: "idle s \<Longrightarrow> \<exists>t. httpsNext N s = Inr t \<and> https_ok t \<and> https_work t \<le> 5 * length (mDeqSites s)"
  by (rule next_ok_aux [OF complete_ok_aux]) simp_all

lemma start_ok: "idle s \<Longrightarrow> https_ok (start_op a s) \<and> https_work (start_op a s) = 5 * (length (mDeqSites s) - 1) + stage a"
  by (simp add: idle_def https_ok_def https_work_def start_op_def)

lemma note_shutdown_other [simp]: "mDeqSites (note_shutdown e s) = mDeqSites s" "mResponse (note_shutdown e s) = mResponse s"
  "idle (note_shutdown e s) = idle s"
  by (simp_all add: note_shutdown_def idle_def)

lemma idle_other [simp]: "idle (s\<lparr>mRequest := x\<rparr>) = idle s" "idle (s\<lparr>mResponse := x\<rparr>) = idle s" "idle (s\<lparr>mShutdown := e\<rparr>) = idle s"
  by (simp_all add: idle_def)

text \<open>Every handler ends with another operation under way or with \<^verbatim>\<open>invokeComplete\<close>.\<close>

definition proceeds :: "https result \<Rightarrow> nat \<Rightarrow> nat \<Rightarrow> bool" where
  "proceeds r n b \<longleftrightarrow> (\<exists>t. r = Inr t \<and> https_ok t \<and> https_work t \<le> 5 * (n - 1) + b)"

lemma proceeds_start: "idle s \<Longrightarrow> length (mDeqSites s) = n \<Longrightarrow> stage a \<le> b \<Longrightarrow> proceeds (Inr (start_op a s)) n b"
  using start_ok [of s a] by (simp add: proceeds_def)

lemma proceeds_complete: "idle s \<Longrightarrow> length (mDeqSites s) = n \<Longrightarrow> proceeds (invokeComplete N e d s) n b"
  using complete_ok [of s N e d] by (auto simp: proceeds_def)

lemma handlers_proceed:
  assumes "idle s" "\<And>x. set_no_delay N x = None"
  shows "proceeds (handleResolve N e s) (length (mDeqSites s)) 4" "proceeds (https_handleConnect N e s) (length (mDeqSites s)) 3"
    "proceeds (handleRequest N e s) (length (mDeqSites s)) 2" "proceeds (handleWrite N e n s) (length (mDeqSites s)) 1"
    "proceeds (handleData N e data s) (length (mDeqSites s)) 0"
proof -
  obtain site sites where sites: "mDeqSites s = site # sites" using assms(1) by (cases "mDeqSites s") (auto simp: idle_def)
  note rules = proceeds_start proceeds_complete
  show "proceeds (handleResolve N e s) (length (mDeqSites s)) 4" using assms by (simp add: handleResolve_def Let_def rules)
  show "proceeds (https_handleConnect N e s) (length (mDeqSites s)) 3"
    using assms sites by (simp add: https_handleConnect_def ebind_def Let_def rules)
  show "proceeds (handleRequest N e s) (length (mDeqSites s)) 2" using assms sites by (simp add: handleRequest_def Let_def rules)
  show "proceeds (handleWrite N e n s) (length (mDeqSites s)) 1" using assms by (simp add: handleWrite_def Let_def rules)
  show "proceeds (handleData N e data s) (length (mDeqSites s)) 0"
    using assms by (simp add: handleData_def parseData_def Let_def rules split: option.split)
qed

fun is_answer :: "https_event \<Rightarrow> bool" where
  "is_answer (Ended e n data) = True"
| "is_answer (Deadline r failed) = False"

text \<open>The timer does not report another error.\<close>

fun timer_sound :: "https_event \<Rightarrow> bool" where
  "timer_sound (Deadline r failed) = (r \<noteq> Timer_error)"
| "timer_sound (Ended e n data) = True"

interpretation hc: one_shot "https_step N" completed https_work "\<lambda>s. https_ok s \<and> (\<forall>x. set_no_delay N x = None)" is_answer timer_sound
  for N
proof
  fix s e
  assume ok: "https_ok s \<and> (\<forall>x. set_no_delay N x = None)" and work: "0 < https_work s" and e: "timer_sound e"
  then obtain a where a: "in_flight s = [a]" "mDeqSites s \<noteq> []" "completed s = []" by (auto simp: https_ok_def https_work_def)
  then have idle: "idle (s\<lparr>in_flight := []\<rparr>)" by (simp add: idle_def)
  show "\<exists>t. https_step N e s = Inr t \<and> (https_ok t \<and> (\<forall>x. set_no_delay N x = None)) \<and> https_work t + (if is_answer e then 1 else 0) \<le> https_work s"
  proof (cases e)
    case (Ended ec n data)
    from ok have nd: "\<And>x. set_no_delay N x = None" by simp
    show ?thesis using handlers_proceed(1-3) [OF idle nd, of ec] handlers_proceed(4) [OF idle nd, of ec n] handlers_proceed(5) [OF idle nd, of ec data] Ended a nd
      by (cases a) (auto simp: proceeds_def https_work_def Let_def)
  next
    case (Deadline r failed)
    then show ?thesis using ok e a by (cases r) (auto simp: handleDeadline_def https_ok_def https_work_def Let_def)
  qed
next
  fix s
  assume "https_ok s \<and> (\<forall>x. set_no_delay N x = None)"
  then show "length (completed s) = (if https_work s = 0 then 1 else 0)" by (auto simp: https_ok_def https_work_def)
qed


section \<open>What is delivered\<close>

text \<open>An environment in which the calls that return at once succeed.\<close>

definition calm :: "https_env \<Rightarrow> bool" where
  "calm N \<longleftrightarrow> (\<forall>x. set_default_verify_paths N x = None \<and> expires_from_now N x = None \<and> set_no_delay N x = None \<and> set_verify_callback N x = None)
     \<and> deadline_cancel N = None"

text \<open>The answers up to the response, all without an error.\<close>

definition connected_ok :: "https_event list" where
  "connected_ok = replicate 4 (Ended None 0 [])"

lemma until_done_append:
  "until_done step results (es @ fs) s = ebind (until_done step results es s) (until_done step results fs)"
proof (induction es arbitrary: s)
  case (Cons e es)
  have stop: "until_done step results fs s = Inr s" if "results s \<noteq> []" using that by (cases fs) simp_all
  show ?case using Cons stop by (cases "step e s") (auto simp: ebind_def)
qed (simp add: ebind_def)

lemma until_done_chain: "until_done step results es s = Inr u \<Longrightarrow> until_done step results (es @ fs) s = until_done step results fs u"
  by (simp only: until_done_append) (simp add: ebind_def)

lemma httpsNext_calm:
  "calm N \<Longrightarrow> mDeqSites s = site # sites \<Longrightarrow> httpsNext N s = Inr (start_op Resolve (s\<lparr>mShutdown := None, waits := waits s + 1\<rparr>))"
  by (simp add: httpsNext.simps [of N s] invokeComplete_def [symmetric] calm_def)

lemma invokeComplete_last:
  "calm N \<Longrightarrow> mDeqSites s = [site] \<Longrightarrow> invokeComplete N e d s = Inr (s\<lparr>mDeqSites := [], completed := completed s @ [(e, d)]\<rparr>)"
  by (simp add: invokeComplete_def complete_by_def calm_def)

lemma invokeComplete_more:
  "mDeqSites s = site # site' # sites \<Longrightarrow> invokeComplete N e d s = httpsNext N (s\<lparr>mDeqSites := site' # sites\<rparr>)"
  by (simp add: invokeComplete_def complete_by_def)

lemmas handler_defs = handleResolve_def https_handleConnect_def handleRequest_def handleWrite_def handleData_def parseData_def
  note_shutdown_def start_op_def Let_def

text \<open>From the start of a site the answers without an error bring the client to reading the response.\<close>

lemma reach_reading:
  assumes "calm N" "in_flight s = [Resolve]" "mShutdown s = None" "mRequest s = []" "mDeqSites s = site # sites" "completed s = []"
  shows "https_run N connected_ok s = Inr (s\<lparr>in_flight := [Read]\<rparr>)"
    and "https_run N (take 3 connected_ok) s = Inr (s\<lparr>in_flight := [Write], mRequest := http_request (mStrPath s) site\<rparr>)"
proof -
  have nd: "set_no_delay N site = None" "set_verify_callback N site = None" using assms(1) by (simp_all add: calm_def)
  show "https_run N connected_ok s = Inr (s\<lparr>in_flight := [Read]\<rparr>)"
    and "https_run N (take 3 connected_ok) s = Inr (s\<lparr>in_flight := [Write], mRequest := http_request (mStrPath s) site\<rparr>)"
    using assms nd by (simp_all add: connected_ok_def numeral_eq_Suc handler_defs ebind_def)
qed

lemma after_blank_head:
  assumes "after_blank (p @ crlf @ [CHR 0x0D]) = None"
  shows "after_blank (p @ crlf @ crlf @ body) = Some body"
  using assms
proof (induction p)
  case Nil
  then show ?case by (simp add: crlf_def)
next
  case (Cons c p)
  have "c # p @ crlf @ crlf @ body = (c # p @ crlf @ [CHR 0x0D]) @ CHR 0x0A # body" by (simp add: crlf_def)
  moreover have "4 \<le> length (c # p @ crlf @ [CHR 0x0D])" by (simp add: crlf_def)
  ultimately have "take 4 (c # p @ crlf @ crlf @ body) = take 4 (c # p @ crlf @ [CHR 0x0D])" by (simp only: take_append) simp
  then show ?case using Cons by (simp split: if_splits)
qed

lemma response_body_ok:
  assumes "v \<noteq> []" "list_all (\<lambda>c. \<not> isspace c) v" "after_blank (''HTTP/1'' @ v @ '' 200 '' @ headers @ crlf @ [CHR 0x0D]) = None"
  shows "response_body (''HTTP/1'' @ v @ '' 200 '' @ headers @ crlf @ crlf @ body) = Some body"
proof -
  have "takeWhile (\<lambda>c. \<not> isspace c) (v @ CHR '' '' # x) = v" for x
    using assms(2) by (subst takeWhile_append2) (auto simp: list_all_iff isspace_def)
  then have "status_code (''HTTP/1'' @ v @ '' 200 '' @ headers @ crlf @ crlf @ body) = Some ''200''"
    using assms(1) by (simp add: status_code_def is_digit_def)
  then show ?thesis
    using after_blank_head [of "''HTTP/1'' @ v @ '' 200 '' @ headers" body] assms(3) by (simp add: response_body_def)
qed

text \<open>What the client delivers for the text it has read.\<close>

definition outcome :: "string \<Rightarrow> ec option \<times> string" where
  "outcome text = (case response_body text of Some body \<Rightarrow> (None, body) | None \<Rightarrow> (Some Bad_address, []))"

lemma get_reading:
  assumes "calm N"
  shows "\<exists>s. httpsGet N (site # sites) path = Inr s \<and> in_flight s = [Resolve] \<and> mShutdown s = None \<and> mRequest s = [] \<and> mResponse s = []
    \<and> mDeqSites s = site # sites \<and> completed s = [] \<and> mStrPath s = path"
  using httpsNext_calm [OF assms, of "(HttpsClient_new path)\<lparr>mDeqSites := site # sites\<rparr>"]
  by (simp add: httpsGet_def HttpsClient_new_def start_op_def)

lemma read_last:
  assumes "calm N" "in_flight s = [Read]" "mShutdown s = None" "mDeqSites s = [site]" "completed s = []"
  shows "\<exists>t. https_run N [Ended (Some Eof) n data] s = Inr t \<and> completed t = [outcome (mResponse s @ data)]"
  using assms by (simp add: handler_defs invokeComplete_last [OF assms(1)] outcome_def ebind_def split: option.split)



text \<open>What was read before a read failed is kept: when the response of one site breaks off with an error, the text of the next
  site is parsed with the part of the first before it.\<close>

theorem partial_response_kept:
  assumes "calm N" and "e \<noteq> Eof"
  shows "\<exists>s t. httpsGet N [site1, site2] path = Inr s
    \<and> https_run N (connected_ok @ [Ended (Some e) 0 part] @ connected_ok @ [Ended (Some Eof) 0 data]) s = Inr t
    \<and> completed t = [outcome (part @ data)]"
proof -
  obtain s where s: "httpsGet N [site1, site2] path = Inr s" "in_flight s = [Resolve]" "mShutdown s = None" "mRequest s = []" "mResponse s = []"
    "mDeqSites s = [site1, site2]" "completed s = []" using get_reading [OF assms(1), of site1 "[site2]" path] by blast
  have "\<exists>u. https_run N [Ended (Some e) 0 part] (s\<lparr>in_flight := [Read]\<rparr>) = Inr u \<and> in_flight u = [Resolve] \<and> mShutdown u = None
      \<and> mRequest u = [] \<and> mResponse u = part \<and> mDeqSites u = [site2] \<and> completed u = []"
    using s assms(2) by (simp add: handler_defs invokeComplete_more httpsNext_calm [OF assms(1)] ebind_def)
  then obtain u where u: "https_run N [Ended (Some e) 0 part] (s\<lparr>in_flight := [Read]\<rparr>) = Inr u" "in_flight u = [Resolve]" "mShutdown u = None"
      "mRequest u = []" "mResponse u = part" "mDeqSites u = [site2]" "completed u = []" by blast
  obtain t where t: "https_run N [Ended (Some Eof) 0 data] (u\<lparr>in_flight := [Read]\<rparr>) = Inr t" "completed t = [outcome (part @ data)]"
    using read_last [OF assms(1), of "u\<lparr>in_flight := [Read]\<rparr>" site2 0 data] u by auto
  have "https_run N (connected_ok @ [Ended (Some e) 0 part] @ connected_ok @ [Ended (Some Eof) 0 data]) s = Inr t"
    unfolding until_done_chain [OF reach_reading(1) [OF assms(1) s(2,3,4,6,7)]] until_done_chain [OF u(1)]
      until_done_chain [OF reach_reading(1) [OF assms(1) u(2,3,4,6,7)]] by (rule t(1))
  with s(1) t(2) show ?thesis by blast
qed

section \<open>Witnesses\<close>

definition toy_https :: https_env where
  "toy_https = \<lparr>set_default_verify_paths = (\<lambda>_. None), expires_from_now = (\<lambda>_. None), set_no_delay = (\<lambda>_. None),
     set_verify_callback = (\<lambda>_. None), deadline_cancel = None\<rparr>"

lemma calm_toy: "calm toy_https"
  by (simp add: calm_def toy_https_def)




theorem partial_response_kept_witness:
  "\<exists>s t. httpsGet toy_https [''a.org'', ''b.org''] ''/x'' = Inr s
    \<and> https_run toy_https (connected_ok @ [Ended (Some (Other_error 1)) 0 ''HT''] @ connected_ok @ [Ended (Some Eof) 0 ''TP'']) s = Inr t
    \<and> completed t = [outcome (''HT'' @ ''TP'')]"
  by (rule partial_response_kept [OF calm_toy]) simp

end
