(* ===== verification/PeerPool.thy ===== *)
theory PeerPool
  imports Wallet PackedMessage HttpsClient "HOL-Library.AList"
begin

unbundle bit_operations_syntax

text \<open>
  \<^verbatim>\<open>src/ConnectionPool/ConnectionPool.cpp\<close> and the connection handling of \<^verbatim>\<open>src/Peer/Peer.cpp\<close>. The peer
  objects live in a list and are named by their position; the pool and the handlers share one state. Network
  operations and timers that the code starts or cancels are appended to \<open>started\<close>. The handlers run one at a time;
  the mutexes are not modelled. The sources have no body for \<^verbatim>\<open>sendHello\<close> and for most handlers of messages:
  they are the fields \<open>sendHello\<close> and \<open>receive\<close> of \<open>peer_env\<close>, with the resolver, the parsing of Protocol
  Buffers, and the addresses of a \<^verbatim>\<open>TMPeers\<close> message as \<^verbatim>\<open>inet_ntoa\<close> prints them.
\<close>

section \<open>State\<close>

record peer =
  mClientConnect :: bool
  mHelloed :: bool
  mDetaching :: bool
  mNodePublic :: address
  mIpPort :: "string \<times> int"
  mIpPortConnect :: "string \<times> int"
  mReadbuf :: bytes
  mSendQ :: "bytes list"
  mSendingPacket :: "bytes option"
  mPoolPtr :: bool

datatype io =
    ScanTimer ptime
  | ScanCancel
  | PolicyTimer ptime
  | PolicyCancel
  | VerifyTimer nat
  | VerifyCancel nat
  | AsyncConnect nat
  | AsyncHandshake nat bool
  | AsyncShutdown nat
  | AsyncWrite nat bytes
  | AsyncRead nat nat

record pool =
  pool_ips :: "PeerIps_row list"
  mIpMap :: "((string \<times> int) \<times> nat) list"
  mConnectedMap :: "(address \<times> nat) list"
  mScanning :: "nat option"
  mScanIp :: string
  mScanPort :: int
  peers :: "peer list"
  pool_clock :: "nat \<Rightarrow> int"
  pool_readings :: nat
  started :: "io list"

record ('k, 'b) peer_env =
  addresses :: "('k, 'b) address_env"
  own_node :: address
  resolves :: "string \<Rightarrow> int \<Rightarrow> bool"
  sendHello :: "nat \<Rightarrow> (pool, unit) prog"
  receive :: "nat \<Rightarrow> int \<Rightarrow> bytes \<Rightarrow> (pool, unit) prog"
  parses :: "int \<Rightarrow> bytes \<Rightarrow> bool"
  nodes_of :: "bytes \<Rightarrow> (string \<times> int) list"

definition SYSTEM_PEER_PORT :: int where "SYSTEM_PEER_PORT = 6561"
definition PEER_SCAN_INTERVAL_MIN :: int where "PEER_SCAN_INTERVAL_MIN = 60"
definition PEER_CONNECT_LOW_WATER :: nat where "PEER_CONNECT_LOW_WATER = 4"
definition POLICY_INTERVAL_SECONDS :: int where "POLICY_INTERVAL_SECONDS = 5"

definition pool_new :: "PeerIps_row list \<Rightarrow> (nat \<Rightarrow> int) \<Rightarrow> pool" where
  "pool_new ips clk = \<lparr>pool_ips = ips, mIpMap = [], mConnectedMap = [], mScanning = None, mScanIp = [], mScanPort = 0, peers = [],
     pool_clock = clk, pool_readings = 0, started = []\<rparr>"

definition peer_new :: "bool \<Rightarrow> peer" where
  "peer_new pool = \<lparr>mClientConnect = False, mHelloed = False, mDetaching = False, mNodePublic = NewcoinAddress_new, mIpPort = ([], 0),
     mIpPortConnect = ([], 0), mReadbuf = [], mSendQ = [], mSendingPacket = None, mPoolPtr = pool\<rparr>"

definition the_time :: "(pool, int) prog" where
  "the_time s = Some (Inr (pool_clock s (pool_readings s)), s\<lparr>pool_readings := pool_readings s + 1\<rparr>)"

definition start_io :: "io \<Rightarrow> (pool, unit) prog" where
  "start_io e = change (\<lambda>s. s\<lparr>started := started s @ [e]\<rparr>)"

definition get_peer :: "nat \<Rightarrow> (pool, peer) prog" where
  "get_peer i = mbind (gets peers) (\<lambda>ps. if i < length ps then return (ps ! i) else throw Undefined_behaviour)"

definition set_peer :: "nat \<Rightarrow> (peer \<Rightarrow> peer) \<Rightarrow> (pool, unit) prog" where
  "set_peer i f = change (\<lambda>s. s\<lparr>peers := (peers s)[i := f (peers s ! i)]\<rparr>)"

definition on_ips :: "(PeerIps_row list \<Rightarrow> PeerIps_row list) \<Rightarrow> (pool, unit) prog" where
  "on_ips f = change (\<lambda>s. s\<lparr>pool_ips := f (pool_ips s)\<rparr>)"

text \<open>\<^verbatim>\<open>"%s %d"\<close>.\<close>

definition ip_text :: "string \<times> int \<Rightarrow> string" where
  "ip_text ep = fst ep @ '' '' @ int_decimal (snd ep)"

text \<open>\<^verbatim>\<open>lexical_cast<int>\<close> of any string.\<close>

definition lexical_int :: "string \<Rightarrow> int result" where
  "lexical_int s = (let neg = (s \<noteq> [] \<and> hd s = CHR ''-''); ds = (if s \<noteq> [] \<and> hd s \<in> {CHR ''-'', CHR ''+''} then tl s else s);
       v = (if neg then - int (digits_val ds) else int (digits_val ds))
     in if ds \<noteq> [] \<and> list_all is_digit ds \<and> in_int v then Inr v else Inl Bad_lexical_cast)"

definition splitIpPort :: "string \<Rightarrow> (string \<times> int) result" where
  "splitIpPort strIpPort = (let vIpPort = split_on (CHR '' '') strIpPort in
     if length vIpPort < 2 then Inl Undefined_behaviour
     else ebind (lexical_int (vIpPort ! 1)) (\<lambda>iPort. Inr (vIpPort ! 0, iPort)))"

section \<open>Peers\<close>

text \<open>The node key is printed to the log, which may throw.\<close>

definition log_node :: "('k, 'b) peer_env \<Rightarrow> nat \<Rightarrow> (pool, unit) prog" where
  "log_node P i = mbind (get_peer i) (\<lambda>p. mbind (lift (isValid (addresses P) (mNodePublic p))) (\<lambda>valid.
     if valid then mbind (lift_opt (humanNodePublic (addresses P) (mNodePublic p))) (\<lambda>_. return ()) else return ()))"

definition setIpPort :: "('k, 'b) peer_env \<Rightarrow> nat \<Rightarrow> string \<Rightarrow> int \<Rightarrow> (pool, unit) prog" where
  "setIpPort P i strIP iPort = mseq (set_peer i (\<lambda>p. p\<lparr>mIpPort := (strIP, iPort)\<rparr>)) (log_node P i)"

text \<open>\<^verbatim>\<open>detach\<close>, given what \<^verbatim>\<open>peerDisconnected\<close> and \<^verbatim>\<open>peerClosed\<close> of the pool do; without a pool the
  calls go through a null pointer.\<close>

definition detach_by ::
  "('k, 'b) peer_env \<Rightarrow> (nat \<Rightarrow> address \<Rightarrow> (pool, unit) prog) \<Rightarrow> (nat \<Rightarrow> string \<Rightarrow> int \<Rightarrow> (pool, unit) prog) \<Rightarrow> nat \<Rightarrow> (pool, unit) prog" where
  "detach_by P disconnected closed i = mbind (get_peer i) (\<lambda>p.
     if mDetaching p then return ()
     else mseq (set_peer i (\<lambda>p. p\<lparr>mDetaching := True\<rparr>)) (mseq (log_node P i)
       (mseq (set_peer i (\<lambda>p. p\<lparr>mSendQ := []\<rparr>))
       (mseq (start_io (VerifyCancel i)) (mseq (start_io (AsyncShutdown i))
       (mbind (lift (isValid (addresses P) (mNodePublic p))) (\<lambda>valid.
        mseq (if valid then
                mseq (if mPoolPtr p then disconnected i (mNodePublic p) else throw Undefined_behaviour)
                (set_peer i (\<lambda>p. p\<lparr>mNodePublic := na_clear (mNodePublic p)\<rparr>))
              else return ())
        (mbind (get_peer i) (\<lambda>p.
         mseq (if fst (mIpPort p) \<noteq> [] then
                 mseq (if mPoolPtr p then closed i (fst (mIpPort p)) (snd (mIpPort p)) else throw Undefined_behaviour)
                 (set_peer i (\<lambda>p. p\<lparr>mIpPort := ([], snd (mIpPort p))\<rparr>))
               else return ())
         (log_node P i))))))))))"

definition connect_by ::
  "('k, 'b) peer_env \<Rightarrow> (nat \<Rightarrow> (pool, unit) prog) \<Rightarrow> nat \<Rightarrow> string \<Rightarrow> int \<Rightarrow> (pool, unit) prog" where
  "connect_by P detach i strIp iPort = (let iPortAct = (if iPort \<le> 0 then SYSTEM_PEER_PORT else iPort) in
     mseq (set_peer i (\<lambda>p. p\<lparr>mClientConnect := True, mIpPort := (strIp, iPort), mIpPortConnect := (strIp, iPort)\<rparr>))
     (if strIp = [] then throw Assert_failed
      else if \<not> resolves P strIp iPortAct then detach i
      else mseq (start_io (VerifyTimer i)) (start_io (AsyncConnect i))))"

section \<open>Pool\<close>

definition peerDisconnected :: "('k, 'b) peer_env \<Rightarrow> nat \<Rightarrow> address \<Rightarrow> (pool, unit) prog" where
  "peerDisconnected P i naPeer = mbind (lift (isValid (addresses P) naPeer)) (\<lambda>valid.
     if \<not> valid then return ()
     else mbind (gets (\<lambda>s. map_of (mConnectedMap s) naPeer)) (\<lambda>itCm.
       if itCm = Some i then
         mseq (change (\<lambda>s. s\<lparr>mConnectedMap := AList.delete naPeer (mConnectedMap s)\<rparr>))
         (mbind (lift_opt (humanNodePublic (addresses P) naPeer)) (\<lambda>_. return ()))
       else return ()))"

text \<open>The peer that \<^verbatim>\<open>peerConnect\<close> creates is given no pool.\<close>

definition peerConnect :: "('k, 'b) peer_env \<Rightarrow> string \<Rightarrow> int \<Rightarrow> (pool, nat option) prog" where
  "peerConnect P strIp iPort = mbind (gets (\<lambda>s. map_of (mIpMap s) (strIp, iPort))) (\<lambda>it. case it of
     None \<Rightarrow> mbind (gets (\<lambda>s. length (peers s))) (\<lambda>i.
       mseq (change (\<lambda>s. s\<lparr>peers := peers s @ [peer_new False]\<rparr>))
       (mseq (connect_by P (detach_by P (\<lambda>_ _. throw Undefined_behaviour) (\<lambda>_ _ _. throw Undefined_behaviour)) i strIp iPort)
       (mseq (change (\<lambda>s. s\<lparr>mIpMap := AList.update (strIp, iPort) i (mIpMap s)\<rparr>)) (return (Some i)))))
   | Some _ \<Rightarrow> return None)"

text \<open>\<^verbatim>\<open>UPDATE PeerIps SET ScanNext=..,ScanInterval=.. WHERE IpPort=..\<close>\<close>

definition set_scan :: "string \<Rightarrow> int option \<Rightarrow> int \<Rightarrow> PeerIps_row list \<Rightarrow> PeerIps_row list" where
  "set_scan strIpPort next iInterval = map (\<lambda>r. if sql_eq (pi_IpPort r) (SqlBlob strIpPort)
     then r\<lparr>pi_ScanNext := next, pi_ScanInterval := iInterval\<rparr> else r)"

definition next_scan :: "pool \<Rightarrow> PeerIps_row option" where
  "next_scan s = sql_first (\<lambda>r. the (pi_ScanNext r)) (filter (\<lambda>r. pi_ScanNext r \<noteq> None) (pool_ips s))"

text \<open>One pass of \<^verbatim>\<open>scanRefresh\<close>; the result says whether it calls itself.\<close>

definition scanRefresh_step :: "('k, 'b) peer_env \<Rightarrow> (pool, bool) prog" where
  "scanRefresh_step P = mbind (gets mScanning) (\<lambda>scanning.
     if scanning \<noteq> None then return False
     else mbind (gets next_scan) (\<lambda>q. case q of
       None \<Rightarrow> mseq (start_io ScanCancel) (return False)
     | Some r \<Rightarrow> mbind the_time (\<lambda>now. let tpNext = ptFromSeconds (the (pi_ScanNext r)); strIpPort = getStr (pi_IpPort r) in
         if pt_le tpNext (Some now) then
           mbind (lift (splitIpPort strIpPort)) (\<lambda>(ip, port).
           mseq (change (\<lambda>s. s\<lparr>mScanIp := ip, mScanPort := port\<rparr>))
           (mseq (start_io ScanCancel)
           (let iInterval = max (pi_ScanInterval r) PEER_SCAN_INTERVAL_MIN in
            mbind (lift (int_val (iInterval * 2))) (\<lambda>iInterval2.
            mseq (on_ips (set_scan strIpPort (Some (iToSeconds (Some (now + iInterval)))) iInterval2))
            (mbind (peerConnect P ip port) (\<lambda>p.
             mseq (change (\<lambda>s. s\<lparr>mScanning := p\<rparr>)) (return (p = None))))))))
         else mseq (start_io (ScanTimer tpNext)) (return False))))"

partial_function (option) scanRefresh :: "('k, 'b) peer_env \<Rightarrow> (pool, unit) prog" where
  "scanRefresh P s = (case scanRefresh_step P s of
     None \<Rightarrow> None
   | Some (Inl e, s') \<Rightarrow> Some (Inl e, s')
   | Some (Inr again, s') \<Rightarrow> if again then scanRefresh P s' else Some (Inr (), s'))"

definition peerScanSet :: "string \<Rightarrow> int \<Rightarrow> (pool, bool) prog" where
  "peerScanSet strIp iPort = (let strIpPort = ip_text (strIp, iPort) in
     mbind (gets (\<lambda>s. sql_find pi_IpPort (SqlBlob strIpPort) (pool_ips s))) (\<lambda>q. case q of
       None \<Rightarrow> return False
     | Some r \<Rightarrow> mbind the_time (\<lambda>now.
         if pi_ScanNext r = None then
           mseq (on_ips (set_scan strIpPort (Some (iToSeconds (Some (now + PEER_SCAN_INTERVAL_MIN)))) PEER_SCAN_INTERVAL_MIN)) (return True)
         else return False)))"

definition peerClosed :: "('k, 'b) peer_env \<Rightarrow> nat \<Rightarrow> string \<Rightarrow> int \<Rightarrow> (pool, unit) prog" where
  "peerClosed P i strIp iPort =
     mbind (gets (\<lambda>s. mScanning s = Some i)) (\<lambda>bScan.
     mseq (if bScan then change (\<lambda>s. s\<lparr>mScanning := None\<rparr>) else return ())
     (mbind (gets (\<lambda>s. map_of (mIpMap s) (strIp, iPort) \<noteq> Some i)) (\<lambda>bRedundant.
      mbind (if bRedundant then return False
             else mseq (change (\<lambda>s. s\<lparr>mIpMap := AList.delete (strIp, iPort) (mIpMap s)\<rparr>)) (peerScanSet strIp iPort)) (\<lambda>bDirty.
      if bDirty \<or> bScan then scanRefresh P else return ()))))"

definition detach :: "('k, 'b) peer_env \<Rightarrow> nat \<Rightarrow> (pool, unit) prog" where
  "detach P = detach_by P (peerDisconnected P) (peerClosed P)"

definition connect :: "('k, 'b) peer_env \<Rightarrow> nat \<Rightarrow> string \<Rightarrow> int \<Rightarrow> (pool, unit) prog" where
  "connect P = connect_by P (detach P)"

definition peerVerified :: "('k, 'b) peer_env \<Rightarrow> nat \<Rightarrow> (pool, unit) prog" where
  "peerVerified P i = mbind (gets mScanning) (\<lambda>scanning.
     if scanning = Some i then
       mbind (get_peer i) (\<lambda>p.
       mseq (if mNodePublic p = own_node P then return () else on_ips (set_scan (ip_text (mIpPort p)) None 0))
       (mseq (change (\<lambda>s. s\<lparr>mScanning := None\<rparr>)) (scanRefresh P)))
     else return ())"

text \<open>The text \<^verbatim>\<open>humanNodePublic\<close> builds for the log may throw.\<close>

definition peerConnected :: "('k, 'b) peer_env \<Rightarrow> nat \<Rightarrow> address \<Rightarrow> string \<Rightarrow> int \<Rightarrow> (pool, bool) prog" where
  "peerConnected P i naPeer strIP iPort =
     (if naPeer = own_node P then mbind (lift_opt (humanNodePublic (addresses P) naPeer)) (\<lambda>_. return False)
      else mbind (gets (\<lambda>s. map_of (mConnectedMap s) naPeer)) (\<lambda>itCm. case itCm of
        None \<Rightarrow> mbind (lift_opt (humanNodePublic (addresses P) naPeer)) (\<lambda>_.
          mseq (change (\<lambda>s. s\<lparr>mConnectedMap := AList.update naPeer i (mConnectedMap s)\<rparr>)) (return True))
      | Some j \<Rightarrow>
          if strIP \<noteq> [] then
            mbind (get_peer j) (\<lambda>old.
            mseq (if fst (mIpPort old) = [] then
                    mseq (setIpPort P j strIP iPort) (change (\<lambda>s. s\<lparr>mIpMap := AList.update (strIP, iPort) j (mIpMap s)\<rparr>))
                  else return ())
            (return False))
          else return False))"

definition savePeer :: "('k, 'b) peer_env \<Rightarrow> string \<Rightarrow> int \<Rightarrow> char \<Rightarrow> (pool, bool) prog" where
  "savePeer P strIp iPort code = (let ipPort = SqlBlob (ip_text (strIp, iPort)) in
     mbind (gets (\<lambda>s. sql_find pi_IpPort ipPort (pool_ips s) = None)) (\<lambda>bNew.
     mseq (if bNew then mseq (on_ips (\<lambda>rows. rows @ [\<lparr>pi_IpPort = ipPort, pi_Score = 0, pi_Source = SqlText [code],
             pi_ScanNext = Some 0, pi_ScanInterval = 0\<rparr>])) (scanRefresh P)
           else return ())
     (return bNew)))"

definition connectTo :: "('k, 'b) peer_env \<Rightarrow> string \<Rightarrow> int \<Rightarrow> (pool, unit) prog" where
  "connectTo P strIp iPort = mbind (lift (iSourceScore vsManual)) (\<lambda>score.
     mseq (on_ips (sql_replace pi_IpPort \<lparr>pi_IpPort = SqlBlob (ip_text (strIp, iPort)), pi_Score = score, pi_Source = SqlText [vsManual],
       pi_ScanNext = Some 0, pi_ScanInterval = 0\<rparr>))
     (scanRefresh P))"

text \<open>A negative \<^verbatim>\<open>LIMIT\<close> is no limit.\<close>

definition getTopNAddrs :: "int \<Rightarrow> (pool, string list) prog" where
  "getTopNAddrs n = gets (\<lambda>s. map (\<lambda>r. getStr (pi_IpPort r)) (if n < 0 then pool_ips s else take (nat n) (pool_ips s)))"

definition peerAvailable :: "(pool, (string \<times> int) option) prog" where
  "peerAvailable = mbind (gets (\<lambda>s. find (\<lambda>r. pi_ScanNext r = None
       \<and> (\<forall>e\<in>set (mIpMap s). \<not> sql_eq (pi_IpPort r) (SqlBlob (ip_text (fst e))))) (pool_ips s))) (\<lambda>q. case q of
     None \<Rightarrow> return None
   | Some r \<Rightarrow> let strIpPort = getStrBinary (pi_IpPort r) in
       if strIpPort = [] then return None else mbind (lift (splitIpPort strIpPort)) (\<lambda>ep. return (Some ep)))"

definition policyLowWater_step :: "('k, 'b) peer_env \<Rightarrow> (pool, bool) prog" where
  "policyLowWater_step P = mbind (gets (\<lambda>s. length (mConnectedMap s) > PEER_CONNECT_LOW_WATER)) (\<lambda>enough.
     if enough then return False
     else mbind peerAvailable (\<lambda>q. case q of
       None \<Rightarrow> return False
     | Some (strIp, iPort) \<Rightarrow> mbind (peerConnect P strIp iPort) (\<lambda>_. return True)))"

partial_function (option) policyLowWater :: "('k, 'b) peer_env \<Rightarrow> (pool, unit) prog" where
  "policyLowWater P s = (case policyLowWater_step P s of
     None \<Rightarrow> None
   | Some (Inl e, s') \<Rightarrow> Some (Inl e, s')
   | Some (Inr again, s') \<Rightarrow> if again then policyLowWater P s' else Some (Inr (), s'))"

definition policyEnforce :: "('k, 'b) peer_env \<Rightarrow> (pool, unit) prog" where
  "policyEnforce P = mseq (start_io PolicyCancel) (mseq (policyLowWater P)
     (mbind the_time (\<lambda>now. start_io (PolicyTimer (Some (now + POLICY_INTERVAL_SECONDS))))))"

definition policyHandler :: "('k, 'b) peer_env \<Rightarrow> timer_result \<Rightarrow> (pool, unit) prog" where
  "policyHandler P ecResult = (case ecResult of
     Aborted \<Rightarrow> return ()
   | Expired \<Rightarrow> policyEnforce P
   | Timer_error \<Rightarrow> throw (Runtime_error ''Internal error: unexpected deadline error.''))"

definition scanHandler :: "('k, 'b) peer_env \<Rightarrow> timer_result \<Rightarrow> (pool, unit) prog" where
  "scanHandler P ecResult = (case ecResult of
     Aborted \<Rightarrow> return ()
   | Expired \<Rightarrow> scanRefresh P
   | Timer_error \<Rightarrow> throw (Runtime_error ''Internal error: unexpected deadline error.''))"

definition pool_start :: "('k, 'b) peer_env \<Rightarrow> (pool, unit) prog" where
  "pool_start P = mseq (policyEnforce P) (scanRefresh P)"

section \<open>Messages\<close>

definition sendPacketForce :: "nat \<Rightarrow> bytes \<Rightarrow> (pool, unit) prog" where
  "sendPacketForce i packet = mbind (get_peer i) (\<lambda>p.
     if \<not> mDetaching p then
       mseq (set_peer i (\<lambda>p. p\<lparr>mSendingPacket := Some packet\<rparr>)) (start_io (AsyncWrite i packet))
     else return ())"

definition sendPacket :: "nat \<Rightarrow> bytes \<Rightarrow> (pool, unit) prog" where
  "sendPacket i packet = mbind (get_peer i) (\<lambda>p.
     if mSendingPacket p \<noteq> None then set_peer i (\<lambda>p. p\<lparr>mSendQ := mSendQ p @ [packet]\<rparr>)
     else sendPacketForce i packet)"

definition handle_write :: "('k, 'b) peer_env \<Rightarrow> nat \<Rightarrow> bool \<Rightarrow> (pool, unit) prog" where
  "handle_write P i err =
     mseq (set_peer i (\<lambda>p. p\<lparr>mSendingPacket := None\<rparr>))
     (mbind (get_peer i) (\<lambda>p.
      if mDetaching p then return ()
      else if err then detach P i
      else case mSendQ p of
        [] \<Rightarrow> return ()
      | packet # _ \<Rightarrow> mseq (sendPacketForce i packet) (set_peer i (\<lambda>p. p\<lparr>mSendQ := tl (mSendQ p)\<rparr>))))"

definition isConnected :: "peer \<Rightarrow> bool" where
  "isConnected p = (mHelloed p \<and> \<not> mDetaching p)"

fun relay_to :: "nat option \<Rightarrow> bytes \<Rightarrow> nat list \<Rightarrow> (pool, unit) prog" where
  "relay_to fromPeer msg [] = return ()"
| "relay_to fromPeer msg (i # is) =
     mseq (mbind (get_peer i) (\<lambda>p. if fromPeer \<noteq> Some i \<and> isConnected p then sendPacket i msg else return ()))
     (relay_to fromPeer msg is)"

definition relayMessage :: "nat option \<Rightarrow> bytes \<Rightarrow> (pool, unit) prog" where
  "relayMessage fromPeer msg = mbind (gets (\<lambda>s. map snd (mConnectedMap s))) (relay_to fromPeer msg)"

definition getPeerVector :: "(pool, nat list) prog" where
  "getPeerVector = gets (\<lambda>s. map snd (mConnectedMap s))"

definition start_read_header :: "nat \<Rightarrow> (pool, unit) prog" where
  "start_read_header i = mbind (get_peer i) (\<lambda>p.
     if \<not> mDetaching p then
       mseq (set_peer i (\<lambda>p. p\<lparr>mReadbuf := replicate HEADER_SIZE 0\<rparr>)) (start_io (AsyncRead i HEADER_SIZE))
     else return ())"

text \<open>\<^verbatim>\<open>&mReadbuf[HEADER_SIZE]\<close> is past the end of the buffer when the message has no body.\<close>

definition start_read_body :: "nat \<Rightarrow> nat \<Rightarrow> (pool, unit) prog" where
  "start_read_body i msg_len = mbind (get_peer i) (\<lambda>p.
     if \<not> mDetaching p then
       mseq (set_peer i (\<lambda>p. p\<lparr>mReadbuf := take (HEADER_SIZE + msg_len) (mReadbuf p) @ replicate (HEADER_SIZE + msg_len - length (mReadbuf p)) 0\<rparr>))
       (if msg_len = 0 then throw Undefined_behaviour else start_io (AsyncRead i msg_len))
     else return ())"

text \<open>\<open>data\<close> is what the read put in the buffer.\<close>

definition handle_read_header :: "('k, 'b) peer_env \<Rightarrow> nat \<Rightarrow> bool \<Rightarrow> bytes \<Rightarrow> (pool, unit) prog" where
  "handle_read_header P i err data =
     mseq (if err then return () else set_peer i (\<lambda>p. p\<lparr>mReadbuf := data @ drop (length data) (mReadbuf p)\<rparr>))
     (mbind (get_peer i) (\<lambda>p.
      if mDetaching p then return ()
      else if err then detach P i
      else let msg_len = unat (pm_getLength (mReadbuf p)) in
        if msg_len > 32 * 1024 * 1024 then detach P i else start_read_body i msg_len))"

definition mtHELLO :: int where "mtHELLO = 1"
definition mtERROR_MSG :: int where "mtERROR_MSG = 2"
definition mtPING :: int where "mtPING = 3"
definition mtGET_CONTACTS :: int where "mtGET_CONTACTS = 10"
definition mtCONTACT :: int where "mtCONTACT = 11"
definition mtGET_PEERS :: int where "mtGET_PEERS = 12"
definition mtPEERS :: int where "mtPEERS = 13"
definition mtSEARCH_TRANSACTION :: int where "mtSEARCH_TRANSACTION = 20"
definition mtGET_ACCOUNT :: int where "mtGET_ACCOUNT = 21"
definition mtACCOUNT :: int where "mtACCOUNT = 22"
definition mtTRANSACTION :: int where "mtTRANSACTION = 30"
definition mtGET_LEDGER :: int where "mtGET_LEDGER = 31"
definition mtLEDGER_DATA :: int where "mtLEDGER_DATA = 32"
definition mtPROPOSE_LEDGER :: int where "mtPROPOSE_LEDGER = 33"
definition mtSTATUS_CHANGE :: int where "mtSTATUS_CHANGE = 34"
definition mtHAVE_SET :: int where "mtHAVE_SET = 35"
definition mtVALIDATION :: int where "mtVALIDATION = 41"
definition mtGET_OBJECT :: int where "mtGET_OBJECT = 42"
definition mtOBJECT :: int where "mtOBJECT = 43"

text \<open>What a peer learns from another.\<close>

fun recvPeers :: "('k, 'b) peer_env \<Rightarrow> nat \<Rightarrow> (string \<times> int) list \<Rightarrow> (pool, unit) prog" where
  "recvPeers P i [] = return ()"
| "recvPeers P i ((strIP, iPort) # nodes) =
     mseq (if strIP \<noteq> ''0.0.0.0'' \<and> strIP \<noteq> ''127.0.0.1'' then
             mbind (get_peer i) (\<lambda>p. if mPoolPtr p then mbind (savePeer P strIP iPort vsTold) (\<lambda>_. return ()) else throw Undefined_behaviour)
           else return ())
     (recvPeers P i nodes)"

text \<open>The handlers with an empty body, and those that are declared only.\<close>

definition silent_types :: "int list" where
  "silent_types = [mtERROR_MSG, mtPING, mtGET_CONTACTS, mtCONTACT, mtSEARCH_TRANSACTION, mtGET_ACCOUNT, mtACCOUNT, mtGET_OBJECT, mtOBJECT]"

definition declared_types :: "int list" where
  "declared_types = [mtHELLO, mtGET_PEERS, mtTRANSACTION, mtSTATUS_CHANGE, mtPROPOSE_LEDGER, mtGET_LEDGER, mtLEDGER_DATA, mtHAVE_SET, mtVALIDATION]"

text \<open>The switch on the type; a message that does not parse or has another type is dropped.\<close>

definition dispatch :: "('k, 'b) peer_env \<Rightarrow> nat \<Rightarrow> int \<Rightarrow> bytes \<Rightarrow> (pool, unit) prog" where
  "dispatch P i type body =
     (if type = mtPEERS then if parses P type body then recvPeers P i (nodes_of P body) else return ()
      else if type \<in> set declared_types then if parses P type body then receive P i type body else return ()
      else if type \<in> set silent_types then return ()
      else return ())"

definition processReadBuffer :: "('k, 'b) peer_env \<Rightarrow> nat \<Rightarrow> (pool, unit) prog" where
  "processReadBuffer P i = mbind (get_peer i) (\<lambda>p. let type = pm_getType (mReadbuf p) in
     if mHelloed p = (type = mtHELLO) then detach P i
     else dispatch P i type (drop HEADER_SIZE (mReadbuf p)))"

definition handle_read_body :: "('k, 'b) peer_env \<Rightarrow> nat \<Rightarrow> bool \<Rightarrow> bytes \<Rightarrow> (pool, unit) prog" where
  "handle_read_body P i err data =
     mseq (if err then return () else set_peer i (\<lambda>p. p\<lparr>mReadbuf := take HEADER_SIZE (mReadbuf p) @ data\<rparr>))
     (mbind (get_peer i) (\<lambda>p.
      if mDetaching p then return ()
      else if err then detach P i
      else mseq (processReadBuffer P i) (start_read_header i)))"

section \<open>Connecting\<close>

definition handleVerifyTimer :: "('k, 'b) peer_env \<Rightarrow> nat \<Rightarrow> timer_result \<Rightarrow> (pool, unit) prog" where
  "handleVerifyTimer P i ecResult = (case ecResult of
     Aborted \<Rightarrow> return () | Timer_error \<Rightarrow> throw Assert_failed | Expired \<Rightarrow> detach P i)"

definition handleStart :: "('k, 'b) peer_env \<Rightarrow> nat \<Rightarrow> bool \<Rightarrow> (pool, unit) prog" where
  "handleStart P i err = (if err then detach P i else mseq (sendHello P i) (start_read_header i))"

definition handleConnect :: "('k, 'b) peer_env \<Rightarrow> nat \<Rightarrow> bool \<Rightarrow> (pool, unit) prog" where
  "handleConnect P i err = (if err then detach P i else start_io (AsyncHandshake i True))"

definition connected :: "('k, 'b) peer_env \<Rightarrow> nat \<Rightarrow> string \<times> int \<Rightarrow> bool \<Rightarrow> (pool, unit) prog" where
  "connected P i ep err =
     mseq (set_peer i (\<lambda>p. p\<lparr>mClientConnect := False, mIpPortConnect := ep\<rparr>))
     (mbind (get_peer i) (\<lambda>p.
      if \<not> err then start_io (AsyncHandshake i False)
      else if \<not> mDetaching p then detach P i
      else return ()))"

text \<open>The cookie of a session: \<open>s1\<close> and \<open>s2\<close> are the buffers of 1024 bytes after \<^verbatim>\<open>SSL_get_finished\<close> and
  \<^verbatim>\<open>SSL_get_peer_finished\<close> have written the first \<open>l1\<close> and \<open>l2\<close> bytes, the rest as it was on the stack.\<close>

definition getSessionCookie :: "(bytes \<Rightarrow> bytes) \<Rightarrow> bytes \<Rightarrow> nat \<Rightarrow> bytes \<Rightarrow> nat \<Rightarrow> bytes result" where
  "getSessionCookie sha512 s1 l1 s2 l2 =
     (if l1 < 12 \<or> l2 < 12 then Inl (Runtime_error (''Connection setup not complete: '' @ decimal l1 @ '' '' @ decimal l2))
      else let sha1 = sha512 (take l1 s1); sha2 = sha512 (take l2 s2) in
        if take 64 s1 = take 64 s2 then Inl (Runtime_error ''Identical finished messages'')
        else Inr (map2 (XOR) sha1 sha2))"

definition sendGetPeers :: "'m protobuf \<Rightarrow> 'm \<Rightarrow> nat \<Rightarrow> (pool, unit) prog" where
  "sendGetPeers pb getPeers i = mbind (lift (PackedMessage_new pb getPeers mtGET_PEERS)) (\<lambda>packet. sendPacket i (mBuffer packet))"

section \<open>Addresses as text\<close>

lemma decimal_digits: "decimal n \<noteq> [] \<and> list_all is_digit (decimal n) \<and> digits_val (decimal n) = n"
proof (induction n rule: decimal.induct)
  case (1 n)
  have d: "of_char (char_of (48 + k) :: char) = 48 + k" if "k < 10" for k :: nat using that by simp
  show ?case
  proof (cases "n < 10")
    case True
    then show ?thesis by (subst (1 2 3) decimal.simps) (simp add: is_digit_def digits_val_def)
  next
    case False
    then have "decimal n = decimal (n div 10) @ [char_of (48 + n mod 10)]" by (subst decimal.simps) simp
    with 1 [OF False] show ?thesis by (simp add: is_digit_def digits_val_def)
  qed
qed

lemma lexical_int_decimal: "in_int v \<Longrightarrow> lexical_int (int_decimal v) = Inr v"
proof -
  assume v: "in_int v"
  note d = decimal_digits [of "nat v"] decimal_digits [of "nat (- v)"]
  have "hd (decimal n) \<notin> {CHR ''-'', CHR ''+''}" for n
    using decimal_digits [of n] by (cases "decimal n") (auto simp: is_digit_def)
  then show ?thesis using v d by (auto simp: lexical_int_def int_decimal_def Let_def)
qed

lemma int_decimal_plain: "c \<in> set (int_decimal v) \<Longrightarrow> c \<noteq> CHR '' '' \<and> c \<noteq> CHR 0x00"
proof -
  have "c \<noteq> CHR '' '' \<and> c \<noteq> CHR 0x00" if "c \<in> set (decimal n)" for n
    using decimal_digits [of n] that by (auto simp: list_all_iff is_digit_def)
  then show "c \<in> set (int_decimal v) \<Longrightarrow> c \<noteq> CHR '' '' \<and> c \<noteq> CHR 0x00" by (auto simp: int_decimal_def split: if_splits)
qed

definition plain_ip :: "string \<Rightarrow> bool" where
  "plain_ip ip \<longleftrightarrow> ip \<noteq> [] \<and> CHR '' '' \<notin> set ip \<and> CHR 0x00 \<notin> set ip"

lemma split_on_none: "d \<notin> set cs \<Longrightarrow> split_on d cs = [cs]"
  by (induction cs) auto

text \<open>What the pool writes to \<^verbatim>\<open>PeerIps\<close> it can split again.\<close>

lemma splitIpPort_ip_text:
  assumes "plain_ip ip" "in_int port"
  shows "splitIpPort (ip_text (ip, port)) = Inr (ip, port)"
proof -
  have "CHR '' '' \<notin> set (int_decimal port)" using int_decimal_plain by blast
  then show ?thesis
    using assms split_on_line [of "CHR '' ''" ip "int_decimal port"]
    by (simp add: splitIpPort_def ip_text_def plain_ip_def split_on_none lexical_int_decimal)
qed

lemma getStr_ip_text: "plain_ip ip \<Longrightarrow> getStr (SqlBlob (ip_text (ip, port))) = ip_text (ip, port)"
proof -
  assume "plain_ip ip"
  then have "\<forall>c\<in>set (ip_text (ip, port)). c \<noteq> CHR 0x00"
    using int_decimal_plain by (auto simp: ip_text_def plain_ip_def)
  then show ?thesis unfolding getStr_def getStrBinary.simps c_str_def by (rule takeWhile_eq_all_conv [THEN iffD2])
qed

section \<open>Writing in order\<close>

text \<open>A packet is handed over, or a write has finished.\<close>

datatype write_event = Send bytes | Written

fun write_events :: "('k, 'b) peer_env \<Rightarrow> nat \<Rightarrow> write_event list \<Rightarrow> (pool, unit) prog" where
  "write_events P i [] = return ()"
| "write_events P i (Send packet # es) = mseq (sendPacket i packet) (write_events P i es)"
| "write_events P i (Written # es) = mseq (handle_write P i False) (write_events P i es)"

fun sent :: "write_event list \<Rightarrow> bytes list" where
  "sent [] = []"
| "sent (Send packet # es) = packet # sent es"
| "sent (Written # es) = sent es"

definition writes :: "nat \<Rightarrow> pool \<Rightarrow> bytes list" where
  "writes i s = concat (map (\<lambda>e. case e of AsyncWrite j packet \<Rightarrow> if j = i then [packet] else [] | _ \<Rightarrow> []) (started s))"

lemma get_peer_run [simp]: "i < length (peers s) \<Longrightarrow> mbind (get_peer i) f s = f (peers s ! i) s"
  by (simp add: get_peer_def)

lemma set_peer_run [simp]: "mseq (set_peer i f) k s = k (s\<lparr>peers := (peers s)[i := f (peers s ! i)]\<rparr>)"
  "set_peer i f s = Some (Inr (), s\<lparr>peers := (peers s)[i := f (peers s ! i)]\<rparr>)"
  by (simp_all add: set_peer_def)

lemma start_io_run [simp]: "mseq (start_io e) k s = k (s\<lparr>started := started s @ [e]\<rparr>)"
  "start_io e s = Some (Inr (), s\<lparr>started := started s @ [e]\<rparr>)"
  by (simp_all add: start_io_def)

lemma the_time_run [simp]: "mbind the_time f s = f (pool_clock s (pool_readings s)) (s\<lparr>pool_readings := pool_readings s + 1\<rparr>)"
  by (simp add: mbind_def the_time_def)

lemma on_ips_run [simp]: "mseq (on_ips f) k s = k (s\<lparr>pool_ips := f (pool_ips s)\<rparr>)"
  by (simp add: on_ips_def)

text \<open>A live peer that is idle has nothing queued.\<close>

definition writer_ok :: "nat \<Rightarrow> pool \<Rightarrow> bool" where
  "writer_ok i s \<longleftrightarrow> i < length (peers s) \<and> \<not> mDetaching (peers s ! i) \<and> (mSendingPacket (peers s ! i) = None \<longrightarrow> mSendQ (peers s ! i) = [])"

lemma sendPacket_ok:
  assumes "writer_ok i s"
  shows "\<exists>t ws. sendPacket i packet s = Some (Inr (), t) \<and> writer_ok i t \<and> mSendingPacket (peers t ! i) \<noteq> None
    \<and> writes i t = writes i s @ ws \<and> ws @ mSendQ (peers t ! i) = mSendQ (peers s ! i) @ [packet]
    \<and> (ws = [] \<or> mSendingPacket (peers s ! i) = None \<and> length ws = 1)"
proof (cases "mSendingPacket (peers s ! i)")
  case None
  then show ?thesis using assms by (auto simp: sendPacket_def sendPacketForce_def writer_ok_def writes_def intro!: exI [of _ "[packet]"])
next
  case (Some q)
  then show ?thesis using assms by (auto simp: sendPacket_def writer_ok_def writes_def)
qed

lemma handle_write_ok:
  assumes "writer_ok i s"
  shows "\<exists>t ws. handle_write P i False s = Some (Inr (), t) \<and> writer_ok i t
    \<and> writes i t = writes i s @ ws \<and> ws @ mSendQ (peers t ! i) = mSendQ (peers s ! i)
    \<and> length ws = (if mSendingPacket (peers t ! i) = None then 0 else 1)"
proof (cases "mSendQ (peers s ! i)")
  case Nil
  then show ?thesis using assms by (auto simp: handle_write_def writer_ok_def writes_def)
next
  case (Cons q qs)
  let ?t = "s\<lparr>started := started s @ [AsyncWrite i q], peers := (peers s)[i := (peers s ! i)\<lparr>mSendingPacket := Some q, mSendQ := qs\<rparr>]\<rparr>"
  have "handle_write P i False s = Some (Inr (), ?t)"
    using assms Cons by (simp add: handle_write_def writer_ok_def sendPacketForce_def)
  then show ?thesis using assms Cons by (intro exI [of _ ?t] exI [of _ "[q]"]) (simp add: writer_ok_def writes_def)
qed

lemma write_events_ok:
  assumes "writer_ok i s"
  shows "\<exists>t ws. write_events P i es s = Some (Inr (), t) \<and> writer_ok i t \<and> writes i t = writes i s @ ws
    \<and> ws @ mSendQ (peers t ! i) = mSendQ (peers s ! i) @ sent es
    \<and> length ws + (if mSendingPacket (peers s ! i) = None then 0 else 1) \<le> length (filter (\<lambda>e. e = Written) es)
        + (if mSendingPacket (peers t ! i) = None then 0 else 1)"
  using assms
proof (induction es arbitrary: s)
  case (Cons e es)
  show ?case
  proof (cases e)
    case (Send packet)
    from sendPacket_ok [OF Cons.prems, of packet] obtain u v where u: "sendPacket i packet s = Some (Inr (), u)" "writer_ok i u"
      "mSendingPacket (peers u ! i) \<noteq> None" "writes i u = writes i s @ v" "v @ mSendQ (peers u ! i) = mSendQ (peers s ! i) @ [packet]"
      "v = [] \<or> mSendingPacket (peers s ! i) = None \<and> length v = 1" by blast
    from Cons.IH [OF u(2)] obtain t ws where "write_events P i es u = Some (Inr (), t)" "writer_ok i t" "writes i t = writes i u @ ws"
      "ws @ mSendQ (peers t ! i) = mSendQ (peers u ! i) @ sent es"
      "length ws + 1 \<le> length (filter (\<lambda>e. e = Written) es) + (if mSendingPacket (peers t ! i) = None then 0 else 1)" using u(3) by auto
    then show ?thesis
      using Send u mseq_return [where m = "sendPacket i packet" and k = "write_events P i es", OF u(1)]
      by (intro exI [of _ t] exI [of _ "v @ ws"]) auto
  next
    case Written
    from handle_write_ok [OF Cons.prems, of P] obtain u v where u: "handle_write P i False s = Some (Inr (), u)" "writer_ok i u"
      "writes i u = writes i s @ v" "v @ mSendQ (peers u ! i) = mSendQ (peers s ! i)"
      "length v = (if mSendingPacket (peers u ! i) = None then 0 else 1)" by blast
    from Cons.IH [OF u(2)] obtain t ws where "write_events P i es u = Some (Inr (), t)" "writer_ok i t" "writes i t = writes i u @ ws"
      "ws @ mSendQ (peers t ! i) = mSendQ (peers u ! i) @ sent es"
      "length ws + (if mSendingPacket (peers u ! i) = None then 0 else 1) \<le> length (filter (\<lambda>e. e = Written) es)
        + (if mSendingPacket (peers t ! i) = None then 0 else 1)" by blast
    then show ?thesis
      using Written u mseq_return [where m = "handle_write P i False" and k = "write_events P i es", OF u(1)]
      by (intro exI [of _ t] exI [of _ "v @ ws"]) (auto split: if_splits)
  qed
qed simp

text \<open>C12: Packets given to a peer are written to its connection in the order given, none is lost
  and none waits while nothing is being written; at most one write is under way at a time, so the writes
  started are at most one more than the writes that have finished.\<close>

theorem packets_in_order:
  assumes "i < length (peers s)" and "\<not> mDetaching (peers s ! i)" and "mSendingPacket (peers s ! i) = None" and "mSendQ (peers s ! i) = []"
  shows "\<exists>t ws. write_events P i es s = Some (Inr (), t) \<and> writes i t = writes i s @ ws \<and> ws @ mSendQ (peers t ! i) = sent es
    \<and> (mSendingPacket (peers t ! i) = None \<longrightarrow> mSendQ (peers t ! i) = []) \<and> length ws \<le> length (filter (\<lambda>e. e = Written) es) + 1"
proof -
  have "writer_ok i s" using assms by (simp add: writer_ok_def)
  from write_events_ok [OF this, of P es] assms(3,4) show ?thesis by (fastforce simp: writer_ok_def split: if_splits)
qed

section \<open>Receiving\<close>

text \<open>C10: A message packed by one node and read by another arrives as it was sent: after the header the peer asks
  for exactly the body, and when that is read the handlers get the type and the serialised message, provided the
  message is at most 32 MiB and only a first message is a hello; then the next header is read.\<close>

theorem message_received:
  assumes "ByteSize pb m = int (length (Serialize pb m))" and "0 < length (Serialize pb m)" and "length (Serialize pb m) \<le> 32 * 1024 * 1024"
    and "0 \<le> type" and "type < 65536" and "i < length (peers s)" and "\<not> mDetaching (peers s ! i)"
    and "length (mReadbuf (peers s ! i)) = HEADER_SIZE" and "mHelloed (peers s ! i) \<noteq> (type = mtHELLO)"
  shows "\<exists>pm t. PackedMessage_new pb m type = Inr pm \<and> mReadbuf (peers t ! i) = mBuffer pm \<and> started t = started s @ [AsyncRead i (length (Serialize pb m))]
    \<and> mseq (handle_read_header P i False (take HEADER_SIZE (mBuffer pm))) (handle_read_body P i False (drop HEADER_SIZE (mBuffer pm))) s
        = mseq (dispatch P i type (Serialize pb m)) (start_read_header i) t"
proof -
  let ?n = "length (Serialize pb m)"
  let ?h = "header_bytes (of_nat ?n) type"
  let ?t = "s\<lparr>started := started s @ [AsyncRead i ?n], peers := (peers s)[i := (peers s ! i)\<lparr>mReadbuf := ?h @ Serialize pb m\<rparr>]\<rparr>"
  have n: "?n < 2 ^ 31" using assms(3) by simp
  have len: "unat (pm_getLength ?h) = ?n"
    using n join_header [of "of_nat ?n" type "[]"] by (simp add: pm_getLength_def HEADER_SIZE_def unat_of_nat_small)
  have ty: "pm_getType (?h @ Serialize pb m) = type"
    using type_bytes [OF assms(4,5)] by (simp add: pm_getType_def HEADER_SIZE_def header_bytes_def)
  have hdr: "handle_read_header P i False ?h s = Some (Inr (), s\<lparr>peers := (peers s)[i := (peers s ! i)\<lparr>mReadbuf := ?h @ replicate ?n 0\<rparr>],
      started := started s @ [AsyncRead i ?n]\<rparr>)"
    using assms(2,3,6-8) len by (simp add: handle_read_header_def start_read_body_def HEADER_SIZE_def Let_def)
  have "mseq (handle_read_header P i False ?h) (handle_read_body P i False (Serialize pb m)) s
      = mseq (dispatch P i type (Serialize pb m)) (start_read_header i) ?t"
    unfolding mseq_return [where m = "handle_read_header P i False ?h" and k = "handle_read_body P i False (Serialize pb m)", OF hdr]
    using assms(6,7,9) ty
    by (simp add: handle_read_body_def processReadBuffer_def HEADER_SIZE_def)
  then show ?thesis
    using PackedMessage_new_eq [OF assms(1,2) n] assms(6)
    by (intro exI [of _ "\<lparr>mBuffer = ?h @ Serialize pb m\<rparr>"] exI [of _ ?t]) (simp add: HEADER_SIZE_def)
qed

section \<open>Peers without a pool\<close>

text \<open>A peer on its way out, as \<^verbatim>\<open>peerConnect\<close> leaves it.\<close>

definition unpooled :: "nat \<Rightarrow> pool \<Rightarrow> bool" where
  "unpooled i s \<longleftrightarrow> i < length (peers s) \<and> \<not> mDetaching (peers s ! i) \<and> \<not> mPoolPtr (peers s ! i)
     \<and> mNodePublic (peers s ! i) = NewcoinAddress_new \<and> fst (mIpPort (peers s ! i)) \<noteq> []"

lemma detach_unpooled: "unpooled i s \<Longrightarrow> \<exists>u. detach_by P d c i s = Some (Inl Undefined_behaviour, u)"
  by (simp add: unpooled_def detach_by_def log_node_def isValid_new mseq_def [of "throw _"])

lemma peerConnect_unpooled:
  assumes "peerConnect P strIp iPort s = Some (Inr (Some i), t)"
  shows "unpooled i t"
proof -
  let ?p = "(peer_new False)\<lparr>mClientConnect := True, mIpPort := (strIp, iPort), mIpPortConnect := (strIp, iPort)\<rparr>"
  let ?u = "s\<lparr>peers := peers s @ [?p]\<rparr>"
  have none: "map_of (mIpMap s) (strIp, iPort) = None" using assms by (auto simp: peerConnect_def split: option.splits)
  have ne: "strIp \<noteq> []" using assms none by (auto simp: peerConnect_def connect_by_def Let_def mseq_def [of "throw Assert_failed"])
  have "unpooled (length (peers s)) ?u" using ne by (simp add: unpooled_def peer_new_def)
  then obtain v where v: "detach_by P (\<lambda>_ _. throw Undefined_behaviour) (\<lambda>_ _ _. throw Undefined_behaviour) (length (peers s)) ?u
      = Some (Inl Undefined_behaviour, v)" using detach_unpooled by blast
  have "resolves P strIp (if iPort \<le> 0 then SYSTEM_PEER_PORT else iPort)"
  proof (rule ccontr)
    assume "\<not> ?thesis"
    then show False using assms none ne v by (simp add: peerConnect_def connect_by_def Let_def mseq_def [of "detach_by _ _ _ _"] mbind_def [of "detach_by _ _ _ _"])
  qed
  then have "i = length (peers s)" "t = s\<lparr>peers := peers s @ [?p], started := started s @ [VerifyTimer i, AsyncConnect i],
      mIpMap := AList.update (strIp, iPort) i (mIpMap s)\<rparr>"
    using assms none ne by (auto simp: peerConnect_def connect_by_def Let_def)
  then show ?thesis using ne by (simp add: unpooled_def peer_new_def)
qed

text \<open>C30: A peer that the pool has created cannot report a failed connection: it was given no pool, and
  detaching calls \<^verbatim>\<open>peerClosed\<close> through the null pointer, whether connecting fails, the handshake fails or
  the peer does not verify in time.\<close>

theorem created_peer_cannot_detach:
  assumes "peerConnect P strIp iPort s = Some (Inr (Some i), t)"
  shows "(\<exists>u. handleConnect P i True t = Some (Inl Undefined_behaviour, u)) \<and> (\<exists>u. handleStart P i True t = Some (Inl Undefined_behaviour, u))
    \<and> (\<exists>u. handleVerifyTimer P i Expired t = Some (Inl Undefined_behaviour, u))"
  using detach_unpooled [OF peerConnect_unpooled [OF assms]]
  by (simp add: handleConnect_def handleStart_def handleVerifyTimer_def detach_def)

section \<open>Session cookies\<close>

text \<open>C31: Both ends of a connection compute the same cookie of 64 bytes: what the one has sent as its finished message the
  other has received, whatever else is in the buffers.\<close>

theorem session_cookie_agrees:
  assumes "getSessionCookie sha512 s1 l1 s2 l2 = Inr c" and "getSessionCookie sha512 r2 l2 r1 l1 = Inr d"
    and "take l1 r1 = take l1 s1" and "take l2 r2 = take l2 s2" and "\<And>x. length (sha512 x) = 64"
  shows "c = d \<and> length c = 64"
proof -
  have "map2 (XOR) a b = map2 (XOR) b a" for a b :: bytes
    by (rule nth_equalityI) (simp_all add: xor.commute min.commute)
  then show ?thesis using assms by (auto simp: getSessionCookie_def Let_def split: if_splits)
qed

text \<open>C32: The check for identical finished messages compares the first 64 bytes of the buffers and not the hashes: two equal
  messages of at least 12 and less than 64 bytes pass it when the buffers differ after them, and the cookie is zero.\<close>

theorem identical_finished_accepted:
  assumes "12 \<le> l" and "l < 64" and "length m = l" and "\<And>x. length (sha512 x) = 64"
  shows "getSessionCookie sha512 (m @ 0 # rest) l (m @ 1 # rest) l = Inr (replicate 64 0)"
proof -
  have "map2 (XOR) a a = replicate (length a) 0" for a :: bytes by (rule nth_equalityI) simp_all
  moreover have "take 64 (m @ 0 # rest) \<noteq> take 64 (m @ 1 # rest)" using assms(2,3) by (cases "64 - l") auto
  ultimately show ?thesis using assms by (simp add: getSessionCookie_def)
qed

section \<open>Witnesses\<close>

definition toy_peers :: "(byte, int) peer_env" where
  "toy_peers = \<lparr>addresses = toy_env, own_node = NewcoinAddress_new, resolves = (\<lambda>_ _. True), sendHello = (\<lambda>_. return ()),
     receive = (\<lambda>_ _ _. return ()), parses = (\<lambda>_ _. True), nodes_of = (\<lambda>_. [])\<rparr>"

definition toy_pool :: pool where
  "toy_pool = (pool_new [\<lparr>pi_IpPort = SqlBlob (ip_text (''10.0.0.1'', 6561)), pi_Score = 0, pi_Source = SqlText [vsTold], pi_ScanNext = Some 0, pi_ScanInterval = 0\<rparr>]
     (\<lambda>_. 1000))\<lparr>peers := [(peer_new True)\<lparr>mReadbuf := replicate HEADER_SIZE 0\<rparr>]\<rparr>"

theorem packets_in_order_witness:
  "\<exists>t ws. write_events toy_peers 0 [Send [1], Send [2], Written, Send [3]] toy_pool = Some (Inr (), t)
    \<and> writes 0 t = writes 0 toy_pool @ ws \<and> ws @ mSendQ (peers t ! 0) = [[1], [2], [3]]"
  using packets_in_order [of 0 toy_pool toy_peers "[Send [1], Send [2], Written, Send [3]]"] by (auto simp: toy_pool_def pool_new_def peer_new_def)

theorem message_received_witness:
  "\<exists>pm t. PackedMessage_new \<lparr>ByteSize = (\<lambda>_. 2), Serialize = (\<lambda>_. [7, 8])\<rparr> () mtHELLO = Inr pm \<and> mReadbuf (peers t ! 0) = mBuffer pm
    \<and> mseq (handle_read_header toy_peers 0 False (take HEADER_SIZE (mBuffer pm))) (handle_read_body toy_peers 0 False (drop HEADER_SIZE (mBuffer pm))) toy_pool
        = mseq (dispatch toy_peers 0 mtHELLO [7, 8]) (start_read_header 0) t"
  using message_received [of "\<lparr>ByteSize = (\<lambda>_. 2), Serialize = (\<lambda>_. [7, 8])\<rparr>" "()" mtHELLO 0 toy_pool toy_peers]
  by (auto simp: toy_pool_def pool_new_def peer_new_def mtHELLO_def)

theorem created_peer_cannot_detach_witness:
  "\<exists>t. peerConnect toy_peers ''10.0.0.1'' 6561 toy_pool = Some (Inr (Some 1), t)
    \<and> (\<exists>u. handleConnect toy_peers 1 True t = Some (Inl Undefined_behaviour, u))"
proof -
  have "\<exists>t. peerConnect toy_peers ''10.0.0.1'' 6561 toy_pool = Some (Inr (Some 1), t)"
    by (simp add: peerConnect_def connect_by_def toy_peers_def toy_pool_def pool_new_def Let_def)
  then show ?thesis using created_peer_cannot_detach by blast
qed

theorem session_cookie_agrees_witness:
  "getSessionCookie (\<lambda>x. replicate 64 (x ! 0)) (replicate 64 1) 12 (replicate 64 2) 12 = Inr (replicate 64 3)
     \<and> length (replicate 64 (3 :: byte)) = 64"
proof -
  have "getSessionCookie (\<lambda>x. replicate 64 (x ! 0)) (replicate 64 a) 12 (replicate 64 b) 12 = Inr (replicate 64 (a XOR b))" if "a \<noteq> b" for a b
    using that by (simp add: getSessionCookie_def Let_def zip_replicate)
  from this [of 1 2] this [of 2 1] show ?thesis
    using session_cookie_agrees [of "\<lambda>x. replicate 64 (x ! 0)" "replicate 64 1" 12 "replicate 64 2" 12 "replicate 64 3" "replicate 64 2" "replicate 64 1" "replicate 64 3"]
    by simp
qed

theorem identical_finished_accepted_witness:
  "getSessionCookie (\<lambda>_. replicate 64 9) (replicate 12 5 @ 0 # replicate 1011 0) 12 (replicate 12 5 @ 1 # replicate 1011 0) 12 = Inr (replicate 64 0)"
  by (rule identical_finished_accepted) simp_all

end
