(* ===== verification/PoolStart.thy ===== *)
theory PoolStart
  imports PeerPool
begin

text \<open>
  The recursions of the connection pool return: \<^verbatim>\<open>scanRefresh\<close> leaves fewer addresses due each time it calls
  itself, \<^verbatim>\<open>policyLowWater\<close> fewer addresses to connect to, and so \<^verbatim>\<open>start\<close> returns with the timers set.
\<close>

section \<open>Scanning ends\<close>

text \<open>A row that some reading of the clock finds due.\<close>

definition due :: "pool \<Rightarrow> PeerIps_row \<Rightarrow> bool" where
  "due s r \<longleftrightarrow> (\<exists>n. pi_ScanNext r = Some n \<and> (n < 0 \<or> (\<exists>k. n \<le> pool_clock s k)))"

text \<open>A row the pool can connect to: an address as the pool writes it, which the resolver takes. To be scanned, its
  interval can be doubled and added to the time.\<close>

definition connectable :: "('k, 'b) peer_env \<Rightarrow> PeerIps_row \<Rightarrow> bool" where
  "connectable P r \<longleftrightarrow> (\<exists>ip port. pi_IpPort r = SqlBlob (ip_text (ip, port)) \<and> plain_ip ip \<and> in_int port
       \<and> resolves P ip (if port \<le> 0 then SYSTEM_PEER_PORT else port))"

definition scan_row :: "('k, 'b) peer_env \<Rightarrow> pool \<Rightarrow> PeerIps_row \<Rightarrow> bool" where
  "scan_row P s r \<longleftrightarrow> connectable P r \<and> in_int (2 * max (pi_ScanInterval r) PEER_SCAN_INTERVAL_MIN)
     \<and> (\<forall>k. 0 \<le> pool_clock s k \<and> in_int (pool_clock s k + max (pi_ScanInterval r) PEER_SCAN_INTERVAL_MIN))"

text \<open>The rows that are due can be scanned, and the clock moves by less than the smallest interval.\<close>

definition scan_ready :: "('k, 'b) peer_env \<Rightarrow> pool \<Rightarrow> bool" where
  "scan_ready P s \<longleftrightarrow> (\<forall>r\<in>set (pool_ips s). due s r \<longrightarrow> scan_row P s r)
     \<and> (\<forall>j k. pool_clock s j < pool_clock s k + PEER_SCAN_INTERVAL_MIN)"

lemma scan_other [simp]:
  "due (s\<lparr>pool_readings := n\<rparr>) r = due s r" "due (s\<lparr>started := x\<rparr>) r = due s r" "due (s\<lparr>mScanning := q\<rparr>) r = due s r"
  "due (s\<lparr>mScanIp := ip, mScanPort := port\<rparr>) r = due s r" "due (s\<lparr>pool_ips := rows\<rparr>) r = due s r"
  by (simp_all add: due_def)

text \<open>What the pool keeps while it connects to more addresses.\<close>

definition grows :: "pool \<Rightarrow> pool \<Rightarrow> bool" where
  "grows s t \<longleftrightarrow> pool_clock t = pool_clock s \<and> mConnectedMap t = mConnectedMap s
     \<and> fst ` set (mIpMap s) \<subseteq> fst ` set (mIpMap t) \<and> set (started s) \<subseteq> set (started t)"

lemma grows_trans: "grows s t \<Longrightarrow> grows t u \<Longrightarrow> grows s u"
  unfolding grows_def by (metis order.trans)

lemma peerConnect_runs:
  assumes "plain_ip ip" "resolves P ip (if port \<le> 0 then SYSTEM_PEER_PORT else port)"
  shows "\<exists>q t. peerConnect P ip port s = Some (Inr q, t) \<and> pool_ips t = pool_ips s \<and> grows s t
    \<and> (ip, port) \<in> fst ` set (mIpMap t)"
proof (cases "map_of (mIpMap s) (ip, port)")
  case None
  have ne: "ip \<noteq> []" using assms(1) by (simp add: plain_ip_def)
  show ?thesis using None ne assms(2) by (auto simp: peerConnect_def connect_by_def Let_def dom_update grows_def)
next
  case (Some i)
  then show ?thesis by (auto simp: peerConnect_def grows_def dest!: map_of_SomeD intro: rev_image_eqI)
qed

lemma due_set_scan:
  assumes "r \<in> set rows" "D r" "sql_eq (pi_IpPort r) (SqlBlob text)" "\<And>x. \<not> D (x\<lparr>pi_ScanNext := next, pi_ScanInterval := iv\<rparr>)"
  shows "length (filter D (set_scan text next iv rows)) < length (filter D rows)"
proof -
  have le: "length (filter D (set_scan text next iv xs)) \<le> length (filter D xs)" for xs
    by (induction xs) (auto simp: set_scan_def assms(4))
  from assms(1) show ?thesis
  proof (induction rows)
    case (Cons x rows)
    show ?case
    proof (cases "x = r")
      case True
      then show ?thesis using assms(2-4) le [of rows] by (simp add: set_scan_def)
    next
      case False
      then show ?thesis using Cons assms(4) by (auto simp: set_scan_def)
    qed
  qed simp
qed


text \<open>The scan has a peer to wait for, has nothing to scan, or waits for the time of the row that is next.\<close>

definition scan_settled :: "pool \<Rightarrow> bool" where
  "scan_settled s \<longleftrightarrow> mScanning s \<noteq> None \<or> next_scan s = None
     \<or> (\<exists>r n. next_scan s = Some r \<and> pi_ScanNext r = Some n \<and> started s \<noteq> [] \<and> last (started s) = ScanTimer (Some n))"

lemma next_scan_some: "next_scan s = Some r \<Longrightarrow> r \<in> set (pool_ips s) \<and> pi_ScanNext r \<noteq> None"
  unfolding next_scan_def by (drule sql_first_Some) simp

lemma due_clock: "pool_clock t = pool_clock s \<Longrightarrow> due t = due s"
  by (rule ext) (simp add: due_def)

lemma scan_row_clock: "pool_clock t = pool_clock s \<Longrightarrow> scan_row P t r = scan_row P s r"
  by (simp add: scan_row_def)

lemma scan_ready_other [simp]:
  "scan_ready P (s\<lparr>pool_readings := n\<rparr>) = scan_ready P s" "scan_ready P (s\<lparr>started := x\<rparr>) = scan_ready P s"
  "scan_ready P (s\<lparr>started := x, pool_readings := n\<rparr>) = scan_ready P s"
  by (simp_all add: scan_ready_def scan_row_def due_def)

lemma scan_ready_scanned:
  assumes "scan_ready P s" "pool_clock t = pool_clock s" "pool_ips t = set_scan text next iv (pool_ips s)"
    and "\<And>x. \<not> due s (x\<lparr>pi_ScanNext := next, pi_ScanInterval := iv\<rparr>)"
  shows "scan_ready P t"
  using assms by (auto simp: scan_ready_def due_clock [OF assms(2)] scan_row_clock [OF assms(2)] set_scan_def)

lemma not_due_after:
  assumes "scan_ready P s" "scan_row P s r"
  shows "\<not> due s (x\<lparr>pi_ScanNext := Some (iToSeconds (Some (pool_clock s k + max (pi_ScanInterval r) PEER_SCAN_INTERVAL_MIN))), pi_ScanInterval := iv\<rparr>)"
proof -
  have lt: "pool_clock s j < pool_clock s k + PEER_SCAN_INTERVAL_MIN" for j using assms(1) by (simp add: scan_ready_def)
  have clk: "0 \<le> pool_clock s k" "in_int (pool_clock s k + max (pi_ScanInterval r) PEER_SCAN_INTERVAL_MIN)" using assms(2) by (simp_all add: scan_row_def)
  then have sec: "iToSeconds (Some (pool_clock s k + max (pi_ScanInterval r) PEER_SCAN_INTERVAL_MIN))
      = pool_clock s k + max (pi_ScanInterval r) PEER_SCAN_INTERVAL_MIN" by (simp add: iToSeconds_def)
  have "pool_clock s j < pool_clock s k + max (pi_ScanInterval r) PEER_SCAN_INTERVAL_MIN" for j using lt [of j] by linarith
  moreover have "0 \<le> pool_clock s k + max (pi_ScanInterval r) PEER_SCAN_INTERVAL_MIN" using clk(1) by (simp add: PEER_SCAN_INTERVAL_MIN_def)
  ultimately show ?thesis unfolding due_def sec by (auto simp: not_less not_le)
qed

lemma due_now:
  assumes "pi_ScanNext r = Some n" "pt_le (ptFromSeconds n) (Some (pool_clock s k))"
  shows "due s r"
  using assms by (auto simp: due_def pt_le_def ptFromSeconds_def not_less split: if_splits)

lemma scanRefresh_step_runs:
  assumes ready: "scan_ready P s"
  shows "\<exists>again t. scanRefresh_step P s = Some (Inr again, t) \<and> scan_ready P t \<and> grows s t
    \<and> (if again then length (filter (due t) (pool_ips t)) < length (filter (due s) (pool_ips s)) else scan_settled t)"
proof (cases "mScanning s = None \<and> next_scan s \<noteq> None")
  case False
  then show ?thesis
    using ready by (cases "mScanning s") (auto simp: scanRefresh_step_def scan_settled_def next_scan_def grows_def)
next
  case True
  then obtain r where r: "next_scan s = Some r" by blast
  from next_scan_some [OF r] obtain n where n: "r \<in> set (pool_ips s)" "pi_ScanNext r = Some n" by blast
  let ?now = "pool_clock s (pool_readings s)"
  show ?thesis
  proof (cases "pt_le (ptFromSeconds n) (Some ?now)")
    case False
    then have "0 \<le> n" by (simp add: ptFromSeconds_def pt_le_def split: if_splits)
    then show ?thesis using True False r n ready
      by (auto simp: scanRefresh_step_def Let_def scan_settled_def next_scan_def ptFromSeconds_def grows_def)
  next
    case now: True
    from due_now [OF n(2) now] have row: "due s r" "scan_row P s r" using ready n(1) by (auto simp: scan_ready_def)
    then obtain ip port where ip: "pi_IpPort r = SqlBlob (ip_text (ip, port))" "plain_ip ip" "in_int port"
      "resolves P ip (if port \<le> 0 then SYSTEM_PEER_PORT else port)" by (auto simp: scan_row_def connectable_def)
    let ?iv = "max (pi_ScanInterval r) PEER_SCAN_INTERVAL_MIN"
    let ?next = "Some (iToSeconds (Some (?now + ?iv)))"
    let ?u = "s\<lparr>pool_readings := pool_readings s + 1, mScanIp := ip, mScanPort := port, started := started s @ [ScanCancel],
      pool_ips := set_scan (ip_text (ip, port)) ?next (?iv * 2) (pool_ips s)\<rparr>"
    have iv: "int_val (?iv * 2) = Inr (?iv * 2)" using row(2) by (simp add: scan_row_def int_val_def mult.commute)
    from peerConnect_runs [OF ip(2,4), of ?u] obtain q t where q: "peerConnect P ip port ?u = Some (Inr q, t)"
      "pool_ips t = pool_ips ?u" "grows ?u t" by blast
    then have clock: "pool_clock t = pool_clock s" by (simp add: grows_def)
    have run: "scanRefresh_step P s = Some (Inr (q = None), t\<lparr>mScanning := q\<rparr>)"
      using True r n now iv mbind_return [where m = "peerConnect P ip port" and f = "\<lambda>p. mseq (change (\<lambda>s. s\<lparr>mScanning := p\<rparr>)) (return (p = None))", OF q(1)]
      by (simp add: scanRefresh_step_def Let_def ip(1) getStr_ip_text [OF ip(2)] splitIpPort_ip_text [OF ip(2,3)])
    have "scan_ready P (t\<lparr>mScanning := q\<rparr>)"
      using q(2) clock by (intro scan_ready_scanned [OF ready _ _ not_due_after [OF ready row(2)]]) simp_all
    moreover have "length (filter (due s) (set_scan (ip_text (ip, port)) ?next (?iv * 2) (pool_ips s))) < length (filter (due s) (pool_ips s))"
      by (rule due_set_scan [OF n(1) row(1) _ not_due_after [OF ready row(2)]]) (simp add: ip(1))
    moreover have "grows s (t\<lparr>mScanning := q\<rparr>)" using q(3) by (simp add: grows_def)
    ultimately show ?thesis using run q(2) clock due_clock [of "t\<lparr>mScanning := q\<rparr>" s] by (auto simp: scan_settled_def)
  qed
qed

lemma scanRefresh_returns:
  assumes "scan_ready P s"
  shows "\<exists>t. scanRefresh P s = Some (Inr (), t) \<and> scan_settled t \<and> grows s t"
  using assms
proof (induction "length (filter (due s) (pool_ips s))" arbitrary: s rule: less_induct)
  case less
  from scanRefresh_step_runs [OF less.prems] obtain again t where t: "scanRefresh_step P s = Some (Inr again, t)" "scan_ready P t" "grows s t"
    "if again then length (filter (due t) (pool_ips t)) < length (filter (due s) (pool_ips s)) else scan_settled t" by blast
  show ?case
  proof (cases again)
    case True
    with t less.hyps [of t] grows_trans [OF t(3)] show ?thesis by (subst scanRefresh.simps) auto
  next
    case False
    with t show ?thesis by (subst scanRefresh.simps) simp
  qed
qed

section \<open>Enough connections\<close>

definition available :: "pool \<Rightarrow> PeerIps_row \<Rightarrow> bool" where
  "available s r \<longleftrightarrow> pi_ScanNext r = None \<and> (\<forall>e\<in>fst ` set (mIpMap s). \<not> sql_eq (pi_IpPort r) (SqlBlob (ip_text e)))"

lemma fewer_available:
  assumes "grows s t" "r \<in> set rows" "available s r" "\<not> available t r"
  shows "length (filter (available t) rows) < length (filter (available s) rows)"
proof -
  have "available s x" if "available t x" for x using assms(1) that unfolding available_def grows_def by blast
  then have "filter (available t) rows = filter (available t) (filter (available s) rows)"
    by (simp add: filter_filter) (metis)
  moreover have "length (filter (available t) (filter (available s) rows)) < length (filter (available s) rows)"
    using assms(2-4) by (intro length_filter_less [of r]) simp_all
  ultimately show ?thesis by simp
qed

text \<open>The addresses that no scan waits for can be connected to.\<close>

definition low_ready :: "('k, 'b) peer_env \<Rightarrow> pool \<Rightarrow> bool" where
  "low_ready P s \<longleftrightarrow> (\<forall>r\<in>set (pool_ips s). pi_ScanNext r = None \<longrightarrow> connectable P r)"

lemma policyLowWater_step_runs:
  assumes "low_ready P s"
  shows "\<exists>again t. policyLowWater_step P s = Some (Inr again, t) \<and> pool_ips t = pool_ips s \<and> grows s t
    \<and> (if again then length (filter (available t) (pool_ips s)) < length (filter (available s) (pool_ips s))
       else length (mConnectedMap t) > PEER_CONNECT_LOW_WATER \<or> (\<forall>r\<in>set (pool_ips s). \<not> available t r))"
proof -
  have find: "find (\<lambda>r. pi_ScanNext r = None \<and> (\<forall>e\<in>set (mIpMap s). \<not> sql_eq (pi_IpPort r) (SqlBlob (ip_text (fst e))))) (pool_ips s)
      = find (available s) (pool_ips s)" by (rule arg_cong [where f = "\<lambda>p. find p (pool_ips s)"]) (rule ext, simp add: available_def)
  show ?thesis
  proof (cases "length (mConnectedMap s) > PEER_CONNECT_LOW_WATER \<or> find (available s) (pool_ips s) = None")
    case True
    then have "policyLowWater_step P s = Some (Inr False, s)" by (auto simp: policyLowWater_step_def peerAvailable_def find)
    moreover have "grows s s" by (simp add: grows_def)
    ultimately show ?thesis using True by (intro exI [of _ False] exI [of _ s]) (auto simp: find_None_iff)
  next
    case False
    then obtain r where r: "find (available s) (pool_ips s) = Some r" "\<not> length (mConnectedMap s) > PEER_CONNECT_LOW_WATER" by blast
    from r(1) have avail: "r \<in> set (pool_ips s)" "available s r" by (auto simp: find_Some_iff)
    then have "connectable P r" using assms by (simp add: low_ready_def available_def)
    then obtain ip port where ip: "pi_IpPort r = SqlBlob (ip_text (ip, port))" "plain_ip ip" "in_int port"
      "resolves P ip (if port \<le> 0 then SYSTEM_PEER_PORT else port)" by (auto simp: connectable_def)
    from peerConnect_runs [OF ip(2,4), of s] obtain q t where t: "peerConnect P ip port s = Some (Inr q, t)" "pool_ips t = pool_ips s"
      "grows s t" "(ip, port) \<in> fst ` set (mIpMap t)" by blast
    have "\<not> available t r" using t(4) ip(1) by (force simp: available_def)
    then have "length (filter (available t) (pool_ips s)) < length (filter (available s) (pool_ips s))"
      using fewer_available [OF t(3)] avail by blast
    moreover have "policyLowWater_step P s = Some (Inr True, t)"
      using r find ip mbind_return [where m = "peerConnect P ip port" and f = "\<lambda>_. return True", OF t(1)]
      by (simp add: policyLowWater_step_def peerAvailable_def Let_def splitIpPort_ip_text ip_text_def [of "(ip, port)", THEN arg_cong [where f = "\<lambda>x. x = []"]])
    ultimately show ?thesis using t by auto
  qed
qed

lemma policyLowWater_returns:
  assumes "low_ready P s"
  shows "\<exists>t. policyLowWater P s = Some (Inr (), t) \<and> pool_ips t = pool_ips s \<and> grows s t
    \<and> (length (mConnectedMap t) > PEER_CONNECT_LOW_WATER \<or> (\<forall>r\<in>set (pool_ips s). \<not> available t r))"
  using assms
proof (induction "length (filter (available s) (pool_ips s))" arbitrary: s rule: less_induct)
  case less
  from policyLowWater_step_runs [OF less.prems] obtain again t where t: "policyLowWater_step P s = Some (Inr again, t)"
    "pool_ips t = pool_ips s" "grows s t" "if again then length (filter (available t) (pool_ips s)) < length (filter (available s) (pool_ips s))
       else length (mConnectedMap t) > PEER_CONNECT_LOW_WATER \<or> (\<forall>r\<in>set (pool_ips s). \<not> available t r)" by blast
  show ?case
  proof (cases again)
    case True
    have "low_ready P t" using less.prems t(2) by (simp add: low_ready_def)
    with True t less.hyps [of t] grows_trans [OF t(3)] show ?thesis by (subst policyLowWater.simps) auto
  next
    case False
    with t show ?thesis by (subst policyLowWater.simps) simp
  qed
qed

text \<open>C13: The pool starts: when the addresses that are due and those that no scan waits for are ones the pool has written
  and the resolver takes them, and the clock moves by less than the shortest scan interval meanwhile, \<^verbatim>\<open>start\<close> returns
  without an error. Then the policy timer is set for a time five seconds after a reading of the clock; there are enough connections, or
  every address that no scan waits for is connected or being connected; and the scan waits for a peer it has connected to, or
  there is nothing to scan, or the scan timer is set to the time of the address that is next.\<close>

theorem pool_start_ends:
  assumes "scan_ready P s" and "low_ready P s"
  shows "\<exists>t. pool_start P s = Some (Inr (), t) \<and> scan_settled t \<and> (\<exists>k. PolicyTimer (Some (pool_clock s k + 5)) \<in> set (started t))
    \<and> (length (mConnectedMap t) > PEER_CONNECT_LOW_WATER \<or> (\<forall>r\<in>set (pool_ips s). pi_ScanNext r = None \<longrightarrow>
         (\<exists>ep i. (ep, i) \<in> set (mIpMap t) \<and> pi_IpPort r = SqlBlob (ip_text ep))))"
proof -
  let ?s = "s\<lparr>started := started s @ [PolicyCancel]\<rparr>"
  have "low_ready P ?s" using assms(2) by (simp add: low_ready_def)
  from policyLowWater_returns [OF this] obtain u where u: "policyLowWater P ?s = Some (Inr (), u)" "pool_ips u = pool_ips s" "grows ?s u"
    "length (mConnectedMap u) > PEER_CONNECT_LOW_WATER \<or> (\<forall>r\<in>set (pool_ips s). \<not> available u r)" by auto
  let ?e = "PolicyTimer (Some (pool_clock u (pool_readings u) + 5))"
  let ?v = "u\<lparr>pool_readings := pool_readings u + 1, started := started u @ [?e]\<rparr>"
  have clock: "pool_clock u = pool_clock s" using u(3) by (simp add: grows_def)
  then have "scan_ready P ?v" using assms(1) u(2) by (simp add: scan_ready_def due_clock [of u s] scan_row_def)
  from scanRefresh_returns [OF this] obtain t where t: "scanRefresh P ?v = Some (Inr (), t)" "scan_settled t" "grows ?v t" by blast
  have "pool_start P s = Some (Inr (), t)"
    using t(1) mseq_return [where m = "policyLowWater P" and
        k = "mbind the_time (\<lambda>y. mseq (start_io (PolicyTimer (Some (y + 5)))) (scanRefresh P))", OF u(1)]
    by (simp add: pool_start_def policyEnforce_def POLICY_INTERVAL_SECONDS_def)
  moreover have "?e \<in> set (started t)" using t(3) by (auto simp: grows_def)
  moreover have "fst ` set (mIpMap u) \<subseteq> fst ` set (mIpMap t)" "mConnectedMap t = mConnectedMap u" using t(3) by (simp_all add: grows_def)
  ultimately show ?thesis using t(2) u(4) clock by (fastforce simp: available_def sql_eq_def)
qed

section \<open>Witness\<close>

theorem pool_start_ends_witness:
  "\<exists>t. pool_start toy_peers toy_pool = Some (Inr (), t) \<and> scan_settled t"
proof -
  have "plain_ip ''10.0.0.1''" by (simp add: plain_ip_def)
  then have "scan_row toy_peers toy_pool r" if "r \<in> set (pool_ips toy_pool)" for r
    using that unfolding scan_row_def connectable_def by (auto simp: toy_pool_def pool_new_def toy_peers_def PEER_SCAN_INTERVAL_MIN_def
      in_int_def INT_MIN_def INT_MAX_def intro!: exI [of _ "''10.0.0.1''"] exI [of _ 6561])
  then have "scan_ready toy_peers toy_pool" by (simp add: scan_ready_def) (simp add: toy_pool_def pool_new_def PEER_SCAN_INTERVAL_MIN_def)
  moreover have "low_ready toy_peers toy_pool" by (simp add: low_ready_def toy_pool_def pool_new_def)
  ultimately show ?thesis using pool_start_ends by blast
qed

end
