(* ===== verification/ConfigSetup.thy ===== *)
theory ConfigSetup
  imports PeerPool
begin

text \<open>
  \<^verbatim>\<open>Config.cpp\<close>: where the configuration and the data are, and the defaults. The file system, the environment
  variables and the path operations of boost are the fields of \<open>fs_env\<close>. \<^verbatim>\<open>load\<close> reads the file and, its body being
  commented out, changes nothing.
\<close>

section \<open>Definitions\<close>

record fs_env =
  current_path :: string
  path_exists :: "string \<Rightarrow> bool"
  get_env :: "string \<Rightarrow> string option"
  create_fails :: "string \<Rightarrow> bool"
  path_join :: "string \<Rightarrow> string \<Rightarrow> string"
  remove_filename :: "string \<Rightarrow> string"

record config =
  VERSION :: int
  CONFIG_FILE :: string
  CONFIG_DIR :: string
  DATA_DIR :: string
  cfg_VALIDATORS_SITE :: string
  NETWORK_START_TIME :: int
  TRANSACTION_FEE_BASE :: int
  LEDGER_SECONDS :: int
  NETWORK_QUORUM :: int
  VALIDATION_QUORUM :: int
  PEER_PORT :: int
  NUMBER_CONNECTIONS :: int
  PEER_SSL_CIPHER_LIST :: string
  cfg_PEER_SCAN_INTERVAL_MIN :: int
  PEER_START_MAX :: int
  cfg_PEER_CONNECT_LOW_WATER :: int
  RPC_PORT :: int
  RPC_USER :: string
  RPC_PASSWORD :: string
  RPC_ALLOW_REMOTE :: bool
  FEE_DEFAULT :: "64 word"
  FEE_ACCOUNT_CREATE :: "64 word"
  FEE_NICKNAME_CREATE :: "64 word"
  ACCOUNT_PROBE_MAX :: int

definition SYSTEM_NAME :: string where "SYSTEM_NAME = ''newcoin''"

definition CONFIG_FILE_NAME :: string where "CONFIG_FILE_NAME = SYSTEM_NAME @ ''d.cfg''"

definition strGetEnv :: "fs_env \<Rightarrow> string \<Rightarrow> string" where
  "strGetEnv F strKey = (case get_env F strKey of None \<Rightarrow> [] | Some v \<Rightarrow> v)"

text \<open>The configuration file, the configuration directory and the data directory.\<close>

definition setup_dirs :: "fs_env \<Rightarrow> string \<Rightarrow> (string \<times> string \<times> string) result" where
  "setup_dirs F strConf =
     (if strConf \<noteq> [] then let dir = remove_filename F strConf in Inr (strConf, dir, path_join F dir ''db'')
      else let dir = current_path F; file = path_join F dir CONFIG_FILE_NAME in
        if path_exists F file \<or> (get_env F ''HOME'' = None \<and> (get_env F ''XDG_CONFIG_HOME'' = None \<or> get_env F ''XDG_DATA_HOME'' = None))
        then Inr (file, dir, path_join F dir ''db'')
        else
          let home = strGetEnv F ''HOME''; conf = strGetEnv F ''XDG_CONFIG_HOME''; data = strGetEnv F ''XDG_DATA_HOME'';
              conf' = (if conf = [] then home @ ''/.config'' else conf); data' = (if data = [] then home @ ''/.local/share'' else data);
              dir' = conf' @ ''/'' @ SYSTEM_NAME
          in if create_fails F dir' then Inl (Runtime_error (''Can not create '' @ [CHR 0x22] @ dir' @ [CHR 0x22]))
             else Inr (path_join F dir' CONFIG_FILE_NAME, dir', data' @ ''/'' @ SYSTEM_NAME))"

definition Config_load :: "config \<Rightarrow> config" where
  "Config_load c = c"

definition Config_setup :: "fs_env \<Rightarrow> string \<Rightarrow> config \<Rightarrow> config result" where
  "Config_setup F strConf c = ebind (setup_dirs F strConf) (\<lambda>(file, dir, data).
     if create_fails F data then Inl (Runtime_error (''Can not create '' @ [CHR 0x22] @ data @ [CHR 0x22]))
     else Inr (Config_load (c\<lparr>VERSION := 1, CONFIG_FILE := file, CONFIG_DIR := dir, DATA_DIR := data, cfg_VALIDATORS_SITE := ''redstem.com'',
       NETWORK_START_TIME := 1319844908, TRANSACTION_FEE_BASE := 1000, LEDGER_SECONDS := 60, NETWORK_QUORUM := 0, VALIDATION_QUORUM := 1,
       PEER_PORT := SYSTEM_PEER_PORT, NUMBER_CONNECTIONS := 30, PEER_SSL_CIPHER_LIST := ''ALL:!LOW:!EXP:!MD5:@STRENGTH'',
       cfg_PEER_SCAN_INTERVAL_MIN := 60, PEER_START_MAX := 5, cfg_PEER_CONNECT_LOW_WATER := 4,
       RPC_PORT := 5001, RPC_USER := ''admin'', RPC_PASSWORD := ''pass'', RPC_ALLOW_REMOTE := False,
       FEE_DEFAULT := 100, FEE_ACCOUNT_CREATE := 1000, FEE_NICKNAME_CREATE := 1000, ACCOUNT_PROBE_MAX := 10\<rparr>)))"

section \<open>Where the data are\<close>

text \<open>Without a file on the command line, a configuration file in the current directory keeps everything there; otherwise the
  data are below the home directory whenever it is known.\<close>

lemma setup_current:
  assumes "path_exists F (path_join F (current_path F) CONFIG_FILE_NAME)" "\<not> create_fails F (path_join F (current_path F) ''db'')"
  shows "\<exists>c'. Config_setup F [] c = Inr c' \<and> CONFIG_DIR c' = current_path F \<and> DATA_DIR c' = path_join F (current_path F) ''db''"
  using assms by (simp add: Config_setup_def setup_dirs_def Let_def Config_load_def)

lemma setup_home:
  assumes "\<not> path_exists F (path_join F (current_path F) CONFIG_FILE_NAME)" "get_env F ''HOME'' = Some home"
    and "get_env F ''XDG_CONFIG_HOME'' = None" "get_env F ''XDG_DATA_HOME'' = None" "\<And>d. \<not> create_fails F d"
  shows "\<exists>c'. Config_setup F [] c = Inr c' \<and> CONFIG_DIR c' = home @ ''/.config/newcoin'' \<and> DATA_DIR c' = home @ ''/.local/share/newcoin''"
  using assms by (simp add: Config_setup_def setup_dirs_def Let_def Config_load_def strGetEnv_def SYSTEM_NAME_def)

text \<open>The defaults are the constants the connection pool works with.\<close>

lemma setup_pool_constants:
  assumes "Config_setup F strConf c = Inr c'"
  shows "cfg_PEER_SCAN_INTERVAL_MIN c' = PEER_SCAN_INTERVAL_MIN \<and> cfg_PEER_CONNECT_LOW_WATER c' = int PEER_CONNECT_LOW_WATER
    \<and> PEER_PORT c' = SYSTEM_PEER_PORT"
  using assms by (auto simp: Config_setup_def Config_load_def PEER_SCAN_INTERVAL_MIN_def PEER_CONNECT_LOW_WATER_def ebind_def split: sum.splits if_splits)

end
