(* ===== verification/Spec2Isabelle.thy ===== *)
theory Spec2Isabelle
  imports SerializerFields ParseSection Rfc1751 Key SqliteDb PoolStart ConfigSetup
begin

text \<open>
  Verification development of bytev5, a C++ node of a payment network that keeps a list of trusted validators, talks to
  peers and stores its state in SQLite. It models the code under \<^verbatim>\<open>src/\<close> as functions over records and lists and
  proves what makes it correct, or, where it is not, what it does instead.

  \<^bold>\<open>The program.\<close> \<^verbatim>\<open>Wallet::start\<close> loads or creates the identity of the node and starts the
  unique node list. The unique node list (\<^verbatim>\<open>UniqueNodeList\<close>) fetches the site files of domains with
  \<^verbatim>\<open>HttpsClient\<close>, parses them with \<^verbatim>\<open>ParseSection\<close>, stores validators and their referrals in the wallet database
  and scores them. The connection pool (\<^verbatim>\<open>ConnectionPool\<close>) connects to the addresses found and keeps \<^verbatim>\<open>Peer\<close>
  objects, which exchange packed messages. Below are keys, addresses, base 58, big numbers, fixed-size integers, the
  serializer and the words of RFC 1751.

  \<^bold>\<open>Conventions.\<close> A result is \<open>exn + 'a\<close> (theory Prelude): every throw is a value, also \<open>Undefined_behaviour\<close> where the
  code would read outside a buffer or through a null pointer and \<open>Assert_failed\<close> for an assertion or \<^verbatim>\<open>abort\<close>. An
  \<^verbatim>\<open>int\<close> is an \<^typ>\<open>int\<close> whose range is checked, unsigned types are words. Code that changes a state is a \<open>prog\<close>
  (theory Program), where \<open>None\<close> is a call that does not return. OpenSSL, boost and SQLite are arguments of the
  definitions: records of functions whose documented laws are the hypotheses of the theorems that need them
  (\<open>ec_laws\<close>, \<open>bn_laws\<close>, \<open>env_laws\<close>), each with a concrete instance in the witnesses.

  \<^bold>\<open>The theories.\<close>
  \<^item> Prelude, Program: results, machine integers, programs that throw, weakest preconditions, invariants of programs,
    times (\<^verbatim>\<open>iToSeconds\<close>, \<^verbatim>\<open>ptFromSeconds\<close>).
  \<^item> Utils: \<^verbatim>\<open>shared/utils.h\<close>, \<^verbatim>\<open>shared/utils.cpp\<close>, and the two escape functions of the database. Hexadecimal text is
    read back; an escaped string cannot end its literal.
  \<^item> Uint256: \<^verbatim>\<open>shared/uint256.h\<close>. The comparison is that of the big-endian number; what increment and
    \<^verbatim>\<open>SetHex\<close> really compute.
  \<^item> Key: \<^verbatim>\<open>shared/key.h\<close> over the calls of OpenSSL.
  \<^item> Serializer, VarLen, SerializerFields: \<^verbatim>\<open>shared/Serializer.cpp\<close>. Every sequence of fields is read back; arbitrary
    bytes never lead outside the buffer; the outcome of \<^verbatim>\<open>addVL\<close> for every length.
  \<^item> PackedMessage: \<^verbatim>\<open>shared/PackedMessage.cpp\<close>. ParseSection: \<^verbatim>\<open>shared/ParseSection.cpp\<close>, the inverse of printing.
  \<^item> Rfc1751Dict, Rfc1751: \<^verbatim>\<open>shared/rfc1751.cpp\<close>, the dictionary included: which keys are read back and which are not.
  \<^item> BigNum, Base58: \<^verbatim>\<open>shared/bignum.h\<close>, \<^verbatim>\<open>shared/base58.h\<close>, \<^verbatim>\<open>shared/BitcoinUtil.h\<close>. NewcoinAddress:
    \<^verbatim>\<open>NewcoinAddress.cpp\<close>, the kinds of addresses, their texts and seeds.
  \<^item> WalletDb: the tables of \<^verbatim>\<open>notDatabase/DBInit.cpp\<close> and the statements on them; a locale states what a keyed table
    promises and is interpreted on them. SqliteDb: the cursor of \<^verbatim>\<open>SqliteDatabase.cpp\<close>, \<^verbatim>\<open>database.cpp\<close> and
    \<^verbatim>\<open>DatabaseCon.cpp\<close>; a loop over the cursor is the loop over the list of rows, as the other theories write it.
  \<^item> UniqueNodes, UnlProcess, Scoring, UnlScore, UnlSystem: \<^verbatim>\<open>UniqueNodeList.cpp\<close> with its state, its schedules, its
    handlers and its scoring; in UnlSystem all of it as one transition system, with the invariants of every reachable state.
  \<^item> HttpsClient: \<^verbatim>\<open>shared/HttpsClient.cpp\<close> as a state machine over the answers of the network. The locale
    \<open>one_shot\<close> is the contract the fetches of the unique node list rest on: the completion handler is called once.
  \<^item> Wallet: \<^verbatim>\<open>Wallet.cpp\<close> and the Diffie-Hellman helpers. The identity survives a restart; the key-value store
    refines a map.
  \<^item> PeerPool, PoolStart: \<^verbatim>\<open>ConnectionPool.cpp\<close> and \<^verbatim>\<open>Peer.cpp\<close>. Packets are written in order, messages arrive as
    sent, both ends agree on the session cookie, and starting the pool returns.
  \<^item> ConfigSetup: \<^verbatim>\<open>Config.cpp\<close>.

  \<^bold>\<open>Loops.\<close> There is no fuel. A loop that is not structural is a \<^theory_text>\<open>function\<close> with its measure, or a
  partial function into options with a theorem that it returns: \<open>wsrch\<close> on an ascending dictionary, \<open>enc58_loop\<close>,
  \<open>fetchNext\<close>, \<open>refer_nodes\<close> (the vector it runs over grows), \<open>dh_loop\<close> when some parameters pass the check,
  \<open>scanRefresh\<close> and \<open>policyLowWater\<close> on rows the pool has written.

  \<^bold>\<open>Not modelled.\<close> \<^verbatim>\<open>ECIES.cpp\<close> and \<^verbatim>\<open>DeterministicKeys.cpp\<close> are commented out, as are
  \<^verbatim>\<open>sendHello\<close>, \<^verbatim>\<open>recvHello\<close> and most handlers of \<^verbatim>\<open>Peer.cpp\<close>; what they stand for is a parameter. The JSON library
  under \<^verbatim>\<open>json/\<close> is a copy of jsoncpp and \<^verbatim>\<open>sqlite3.h\<close> the interface of SQLite; \<^verbatim>\<open>getJson\<close> and
  \<^verbatim>\<open>getPeersJson\<close> only print through the former. Handlers run one at a time: the mutexes are not modelled, nor is
  what is written to the log, except where building the text can throw. \<^verbatim>\<open>bytev5.cpp\<close> and \<^verbatim>\<open>Application.h\<close> only
  construct the objects.
\<close>

end
